theory Spec2Isabelle
  imports Main "HOL-Library.Sublist" "HOL-Library.Multiset"
begin

section \<open>Identifier and reference model (instance.go)\<close>

text \<open>
  Go strings are byte sequences, so a Go \<^verbatim>\<open>string\<close> is a \<^typ>\<open>string\<close> here: a list of
  8-bit characters. The three reference structs of package \<^verbatim>\<open>types\<close> carry only strings.
\<close>

datatype Collection = Collection (Collection_Name: string)

datatype Param = Param (Param_Name: string)

datatype Field = Field (Field_Path: string) (Field_Collection: string)

text \<open>
  Every \<^verbatim>\<open>fmt.Errorf\<close> of the modelled code is one constructor; the arguments are the values
  the message is formatted from.
\<close>

datatype error =
    InvalidParameterName string
  | TargetCollectionRequired
  | UnsupportedOperation string
  | LimitExceedsMaximum int
  | ProjectionFieldsExceedMaximum nat
  | SortFieldsExceedMaximum nat
  | FilterNestingExceedsMaximum nat
  | InsertRequiresOneDocument
  | InsertManyRequiresDocument
  | BatchSizeExceedsMaximum nat
  | UpdateRequiresOperation
  | UpdateManyRequiresOperation
  | UpdateManyRequiresFilter
  | DeleteManyRequiresFilter
  | AggregateRequiresStage
  | PipelineStagesExceedMaximum nat
  | DistinctRequiresField
  | OnlyReadOperations string
  | OnlyInsertOperations string
  | OnlyInsertMany string
  | OnlyUpdateOperations string
  | OnlyAggregate string
  | InvalidAST error
  | FailedToSerialize
  | UnsupportedFilterType
  | UnsupportedPipelineStage
  | ProviderDoesNotSupportOperation string
  | ProviderDoesNotSupportFilterOperator string
  | ProviderDoesNotSupportUpdateOperator string
  | ProviderDoesNotSupportFilterType
  | FirestoreOnlySupportsAND
  | CouchDBOnlySupportsSet
  | PanicNilPointerDereference
  | PanicIndexOutOfRange

subsection \<open>Character classes and string helpers\<close>

text \<open>
  The comparisons \<^verbatim>\<open>r < 'a' || r > 'z'\<close> of the source are on code points; on a byte the code
  point is \<^term>\<open>of_char r\<close>.
\<close>

definition isLowerLetter :: "char \<Rightarrow> bool" where
  "isLowerLetter r = (97 \<le> (of_char r :: nat) \<and> (of_char r :: nat) \<le> 122)"

definition isUpperLetter :: "char \<Rightarrow> bool" where
  "isUpperLetter r = (65 \<le> (of_char r :: nat) \<and> (of_char r :: nat) \<le> 90)"

definition isDigit :: "char \<Rightarrow> bool" where
  "isDigit r = (48 \<le> (of_char r :: nat) \<and> (of_char r :: nat) \<le> 57)"

definition underscore :: char where
  "underscore = CHR 0x5F"

text \<open>\<^verbatim>\<open>strings.Contains(s, substr)\<close>: \<^verbatim>\<open>substr\<close> occurs in \<^verbatim>\<open>s\<close> as a contiguous block.\<close>

definition Contains :: "string \<Rightarrow> string \<Rightarrow> bool" where
  "Contains s substr = sublist substr s"

text \<open>
  \<^verbatim>\<open>strings.ToLower\<close> on the bytes \<^verbatim>\<open>A\<close>..\<^verbatim>\<open>Z\<close>. \<^verbatim>\<open>isValidIdentifier\<close> calls it only after its
  character loop has returned for every string holding a byte outside
  \<^verbatim>\<open>[A-Za-z0-9_]\<close>, so the Unicode case mapping of the library is never reached.
\<close>

definition toLowerChar :: "char \<Rightarrow> char" where
  "toLowerChar r = (if isUpperLetter r then char_of ((of_char r :: nat) + 32) else r)"

definition ToLower :: "string \<Rightarrow> string" where
  "ToLower s = map toLowerChar s"

subsection \<open>\<^verbatim>\<open>isValidIdentifier\<close> and \<^verbatim>\<open>TryP\<close>\<close>

text \<open>
  The table \<^verbatim>\<open>suspiciousPatterns\<close>, entry by entry: the single quote is byte 0x27, the double
  quote 0x22, the backtick 0x60, the backslash 0x5C. The keyword entries end in a space.
\<close>

definition suspiciousPatterns :: "string list" where
  "suspiciousPatterns =
     ['';'', ''--'', ''/*'', ''*/'', [CHR 0x27], [CHR 0x22], [CHR 0x60], [CHR 0x5C],
      '' or '', '' and '', ''drop '', ''delete '', ''insert '',
      ''update '', ''select '', ''union '', ''exec '', ''execute '']"

text \<open>
  The loop \<^verbatim>\<open>for i, r := range s\<close> decodes UTF-8. A byte below 0x80 is its own code point; a
  byte from 0x80 on belongs to a code point of at least 0x80 (or to the replacement character
  of an invalid sequence), which no branch of the loop admits. The first code point starts at
  byte 0. So the loop accepts a string exactly when every byte passes the test below, the
  test of index 0 being the stricter one.
\<close>

definition validFirst :: "char \<Rightarrow> bool" where
  "validFirst r = (\<not> ((\<not> isLowerLetter r) \<and> (\<not> isUpperLetter r) \<and> r \<noteq> underscore))"

definition validRest :: "char \<Rightarrow> bool" where
  "validRest r =
     (\<not> ((\<not> isLowerLetter r) \<and> (\<not> isUpperLetter r) \<and> (\<not> isDigit r) \<and> r \<noteq> underscore))"

fun validChars :: "string \<Rightarrow> bool" where
  "validChars [] = True"
| "validChars (r # rs) = (validFirst r \<and> list_all validRest rs)"

definition isValidIdentifier :: "string \<Rightarrow> bool" where
  "isValidIdentifier s =
     (if s = [] then False
      else if Contains s '' '' then False
      else if \<not> validChars s then False
      else if list_ex (\<lambda>pattern. Contains (ToLower s) pattern) suspiciousPatterns then False
      else True)"

text \<open>\<^verbatim>\<open>TryP\<close> does not read its receiver, so the model has none.\<close>

definition TryP :: "string \<Rightarrow> error + Param" where
  "TryP name =
     (if \<not> isValidIdentifier name then Inl (InvalidParameterName name)
      else Inr (Param name))"

section \<open>AST data model (package types)\<close>

subsection \<open>Operator tokens and limits (operator.go)\<close>

text \<open>
  \<^verbatim>\<open>FilterOperator\<close>, \<^verbatim>\<open>LogicOperator\<close>, \<^verbatim>\<open>UpdateOperator\<close> and \<^verbatim>\<open>Operation\<close> are Go string
  types: any string is a value of them, the declared constants are only the recognised ones.
  \<^verbatim>\<open>SortOrder\<close> is a Go \<^verbatim>\<open>int\<close>. The constants carry the names under which the root package
  re-exports them (\<^verbatim>\<open>OpEQ = types.EQ\<close>, \<^verbatim>\<open>LogicAND = types.AND\<close>, \<^verbatim>\<open>UpdateSet = types.Set\<close>).
\<close>

type_synonym FilterOperator = string
type_synonym LogicOperator = string
type_synonym UpdateOperator = string
type_synonym Operation = string
type_synonym SortOrder = int

definition OpEQ :: FilterOperator where "OpEQ = ''$eq''"
definition OpNE :: FilterOperator where "OpNE = ''$ne''"
definition OpGT :: FilterOperator where "OpGT = ''$gt''"
definition OpGTE :: FilterOperator where "OpGTE = ''$gte''"
definition OpLT :: FilterOperator where "OpLT = ''$lt''"
definition OpLTE :: FilterOperator where "OpLTE = ''$lte''"
definition OpIN :: FilterOperator where "OpIN = ''$in''"
definition OpNotIn :: FilterOperator where "OpNotIn = ''$nin''"
definition OpExists :: FilterOperator where "OpExists = ''$exists''"
definition OpRegex :: FilterOperator where "OpRegex = ''$regex''"
definition OpAll :: FilterOperator where "OpAll = ''$all''"
definition OpNear :: FilterOperator where "OpNear = ''$near''"

definition LogicAND :: LogicOperator where "LogicAND = ''$and''"
definition LogicOR :: LogicOperator where "LogicOR = ''$or''"
definition LogicNOR :: LogicOperator where "LogicNOR = ''$nor''"
definition LogicNOT :: LogicOperator where "LogicNOT = ''$not''"

definition UpdateSet :: UpdateOperator where "UpdateSet = ''$set''"
definition UpdateUnset :: UpdateOperator where "UpdateUnset = ''$unset''"
definition UpdateInc :: UpdateOperator where "UpdateInc = ''$inc''"
definition UpdateMul :: UpdateOperator where "UpdateMul = ''$mul''"
definition UpdateAddToSet :: UpdateOperator where "UpdateAddToSet = ''$addToSet''"
definition UpdatePull :: UpdateOperator where "UpdatePull = ''$pull''"
definition UpdatePush :: UpdateOperator where "UpdatePush = ''$push''"

definition Ascending :: SortOrder where "Ascending = 1"
definition Descending :: SortOrder where "Descending = - 1"

definition OpFind :: Operation where "OpFind = ''FIND''"
definition OpFindOne :: Operation where "OpFindOne = ''FIND_ONE''"
definition OpInsert :: Operation where "OpInsert = ''INSERT''"
definition OpInsertMany :: Operation where "OpInsertMany = ''INSERT_MANY''"
definition OpUpdate :: Operation where "OpUpdate = ''UPDATE''"
definition OpUpdateMany :: Operation where "OpUpdateMany = ''UPDATE_MANY''"
definition OpDelete :: Operation where "OpDelete = ''DELETE''"
definition OpDeleteMany :: Operation where "OpDeleteMany = ''DELETE_MANY''"
definition OpAggregate :: Operation where "OpAggregate = ''AGGREGATE''"
definition OpCount :: Operation where "OpCount = ''COUNT''"
definition OpDistinct :: Operation where "OpDistinct = ''DISTINCT''"

definition MaxFilterDepth :: nat where "MaxFilterDepth = 10"
definition MaxBatchSize :: nat where "MaxBatchSize = 1000"
definition MaxLimit :: int where "MaxLimit = 10000"
definition MaxProjectionFields :: nat where "MaxProjectionFields = 100"
definition MaxSortFields :: nat where "MaxSortFields = 10"
definition MaxPipelineStages :: nat where "MaxPipelineStages = 50"

subsection \<open>Go maps\<close>

text \<open>
  A Go map is modelled by the list of its entries, keys pairwise distinct. The AST maps are
  each read by at most one \<^verbatim>\<open>range\<close> loop per rendering, and the list gives the entries in
  the order in which that loop visits them. Go leaves the order unspecified and varies it
  from one loop to the next, so one and the same Go map is seen as any list with the same
  entries: \<open>same_map\<close> relates two such views. The position at which \<open>gomap_set\<close> places a
  new key carries no meaning.
\<close>

type_synonym ('k, 'v) gomap = "('k \<times> 'v) list"

fun gomap_set :: "'k \<Rightarrow> 'v \<Rightarrow> ('k, 'v) gomap \<Rightarrow> ('k, 'v) gomap" where
  "gomap_set k v [] = [(k, v)]"
| "gomap_set k v ((k', v') # m) =
     (if k' = k then (k, v) # m else (k', v') # gomap_set k v m)"

definition same_map :: "('k, 'v) gomap \<Rightarrow> ('k, 'v) gomap \<Rightarrow> bool" where
  "same_map m1 m2 = (distinct (map fst m1) \<and> distinct (map fst m2) \<and> set m1 = set m2)"

subsection \<open>Filters (filter.go), projections, sorting and pagination\<close>

text \<open>
  \<^verbatim>\<open>FilterItem\<close> is an interface. Its values are \<^verbatim>\<open>nil\<close>, the nine struct types of the package,
  and whatever else has the method \<^verbatim>\<open>isFilterItem\<close> in its method set (a pointer to one of the
  structs has): the last kind takes the \<^verbatim>\<open>default\<close> branch of every type switch and fails every
  type assertion, and is \<open>OtherFilterItem\<close>. A Go pointer that may be \<^verbatim>\<open>nil\<close> is an \<open>option\<close>.
\<close>

datatype FilterItem =
    NilFilterItem
  | FilterCondition Field FilterOperator Param
  | FilterGroup LogicOperator "FilterItem list"
  | RangeFilter Field "Param option" "Param option" bool bool
  | RegexFilter Field Param "Param option"
  | TextSearchFilter Param "Param option" bool bool
  | GeoFilter Field FilterOperator Param Param "Param option" "Param option" "Param option"
  | ArrayFilter Field FilterOperator Param
  | ElemMatchFilter Field "FilterItem list"
  | ExistsFilter Field bool
  | OtherFilterItem

datatype SortClause = SortClause (SortClause_Field: Field) (SortClause_Order: SortOrder)

datatype PaginationValue =
  PaginationValue (Pagination_Static: "int option") (Pagination_Param: "Param option")

datatype SliceOp = SliceOp (SliceOp_Count: Param) (SliceOp_Skip: "Param option")

datatype ProjectionField =
  ProjectionField (ProjectionField_Field: Field) (ProjectionField_Include: bool)
    (ProjectionField_Slice: "SliceOp option") (ProjectionField_ElemMatch: "FilterItem list option")

record Projection =
  Fields :: "ProjectionField list"
  Exclude :: bool

subsection \<open>Documents and update operations (update.go)\<close>

datatype Document = Document (Document_Fields: "(Field, Param) gomap")

datatype UpdateOperation =
  UpdateOperation (UpdateOperation_Operator: UpdateOperator)
    (UpdateOperation_Fields: "(Field, Param) gomap")

subsection \<open>Aggregation (aggregate.go)\<close>

text \<open>\<^verbatim>\<open>Expression\<close> and \<^verbatim>\<open>PipelineStage\<close> are interfaces like \<^verbatim>\<open>FilterItem\<close>.\<close>

datatype Expression =
    NilExpression
  | FieldExpression Field
  | LiteralExpression Param
  | OperatorExpression string "Expression list"
  | ConditionalExpression Expression Expression Expression
  | OtherExpression

datatype Accumulator = Accumulator (Accumulator_Operator: string) (Accumulator_Expr: Expression)

datatype PipelineStage =
    MatchStage FilterItem
  | ProjectStage Projection "(string, Expression) gomap"
  | GroupStage Expression "(string, Accumulator) gomap"
  | SortStage "SortClause list"
  | LimitStage PaginationValue
  | SkipStage PaginationValue
  | UnwindStage Field "string option" bool
  | LookupStage string Field Field string "PipelineStage list" "(string, Expression) gomap"
  | AddFieldsStage "(string, Expression) gomap"
  | ReplaceRootStage Expression
  | CountStage string
  | FacetStage "(string, PipelineStage list) gomap"
  | BucketStage Expression "Param list" "Param option" "(string, Accumulator) gomap"
  | OtherPipelineStage

subsection \<open>The operation tree and its result (ast.go, result.go)\<close>

record DocumentAST =
  Operation :: Operation
  Target :: Collection
  FilterClause :: FilterItem
  Projection :: "Projection option"
  SortClauses :: "SortClause list"
  Skip :: "PaginationValue option"
  Limit :: "PaginationValue option"
  Documents :: "Document list"
  UpdateOps :: "UpdateOperation list"
  Upsert :: bool
  Pipeline :: "PipelineStage list"
  DistinctField :: "Field option"

record QueryResult =
  JSON :: string
  RequiredParams :: "string list"

section \<open>Structural validation (ast.go)\<close>

text \<open>
  \<^verbatim>\<open>validateFilterDepth\<close> returns the first error of its loops; the depth is a Go \<^verbatim>\<open>int\<close> that
  starts at 0 and only grows by one per level.
\<close>

fun validateFilterDepth :: "FilterItem \<Rightarrow> nat \<Rightarrow> error option"
  and validateFilterDepths :: "FilterItem list \<Rightarrow> nat \<Rightarrow> error option" where
  "validateFilterDepth f depth =
     (if depth > MaxFilterDepth then Some (FilterNestingExceedsMaximum depth)
      else (case f of
              FilterGroup logic conditions \<Rightarrow> validateFilterDepths conditions (depth + 1)
            | ElemMatchFilter field conditions \<Rightarrow> validateFilterDepths conditions (depth + 1)
            | _ \<Rightarrow> None))"
| "validateFilterDepths [] depth = None"
| "validateFilterDepths (c # cs) depth =
     (case validateFilterDepth c depth of
        Some e \<Rightarrow> Some e
      | None \<Rightarrow> validateFilterDepths cs depth)"

text \<open>
  The validators are chains of \<^verbatim>\<open>if cond { return err }\<close>; \<open>orElse\<close> puts two such checks in
  sequence, the first error winning.
\<close>

definition orElse :: "error option \<Rightarrow> error option \<Rightarrow> error option" where
  "orElse check rest = (case check of Some e \<Rightarrow> Some e | None \<Rightarrow> rest)"

definition validateFind :: "DocumentAST \<Rightarrow> error option" where
  "validateFind a =
     orElse (case Limit a of
               Some l \<Rightarrow> (case Pagination_Static l of
                            Some n \<Rightarrow> if n > MaxLimit then Some (LimitExceedsMaximum n) else None
                          | None \<Rightarrow> None)
             | None \<Rightarrow> None)
    (orElse (case Projection a of
               Some p \<Rightarrow> if length (Fields p) > MaxProjectionFields
                         then Some (ProjectionFieldsExceedMaximum (length (Fields p))) else None
             | None \<Rightarrow> None)
    (orElse (if length (SortClauses a) > MaxSortFields
             then Some (SortFieldsExceedMaximum (length (SortClauses a))) else None)
            (if FilterClause a \<noteq> NilFilterItem
             then validateFilterDepth (FilterClause a) 0
             else None)))"

definition validateInsert :: "DocumentAST \<Rightarrow> error option" where
  "validateInsert a =
     (if length (Documents a) \<noteq> 1 then Some InsertRequiresOneDocument else None)"

definition validateInsertMany :: "DocumentAST \<Rightarrow> error option" where
  "validateInsertMany a =
     (if length (Documents a) = 0 then Some InsertManyRequiresDocument
      else if length (Documents a) > MaxBatchSize
      then Some (BatchSizeExceedsMaximum (length (Documents a)))
      else None)"

definition validateUpdate :: "DocumentAST \<Rightarrow> error option" where
  "validateUpdate a =
     (if length (UpdateOps a) = 0 then Some UpdateRequiresOperation else None)"

definition validateUpdateMany :: "DocumentAST \<Rightarrow> error option" where
  "validateUpdateMany a =
     (if length (UpdateOps a) = 0 then Some UpdateManyRequiresOperation
      else if FilterClause a = NilFilterItem then Some UpdateManyRequiresFilter
      else None)"

definition validateDelete :: "DocumentAST \<Rightarrow> error option" where
  "validateDelete a = None"

definition validateDeleteMany :: "DocumentAST \<Rightarrow> error option" where
  "validateDeleteMany a =
     (if FilterClause a = NilFilterItem then Some DeleteManyRequiresFilter else None)"

definition validateAggregate :: "DocumentAST \<Rightarrow> error option" where
  "validateAggregate a =
     (if length (Pipeline a) = 0 then Some AggregateRequiresStage
      else if length (Pipeline a) > MaxPipelineStages
      then Some (PipelineStagesExceedMaximum (length (Pipeline a)))
      else None)"

definition validateCount :: "DocumentAST \<Rightarrow> error option" where
  "validateCount a = None"

definition validateDistinct :: "DocumentAST \<Rightarrow> error option" where
  "validateDistinct a =
     (if DistinctField a = None then Some DistinctRequiresField else None)"

definition Validate :: "DocumentAST \<Rightarrow> error option" where
  "Validate a =
     (if Collection_Name (Target a) = [] then Some TargetCollectionRequired
      else if Operation a = OpFind \<or> Operation a = OpFindOne then validateFind a
      else if Operation a = OpInsert then validateInsert a
      else if Operation a = OpInsertMany then validateInsertMany a
      else if Operation a = OpUpdate then validateUpdate a
      else if Operation a = OpUpdateMany then validateUpdateMany a
      else if Operation a = OpDelete then validateDelete a
      else if Operation a = OpDeleteMany then validateDeleteMany a
      else if Operation a = OpAggregate then validateAggregate a
      else if Operation a = OpCount then validateCount a
      else if Operation a = OpDistinct then validateDistinct a
      else Some (UnsupportedOperation (Operation a)))"

section \<open>The builder\<close>

text \<open>
  A \<^verbatim>\<open>*Builder\<close> is mutated in place and returned by every chained method; the model passes
  the builder through. Its fields are unexported, so a builder only ever comes from one of
  the entry points below followed by chained methods. The methods carry the prefix
  \<open>Builder_\<close> of their receiver.
\<close>

record Builder =
  ast :: DocumentAST
  err :: "error option"

text \<open>The zero value of \<^verbatim>\<open>DocumentAST\<close> with the two fields every entry point sets.\<close>

definition newAST :: "Operation \<Rightarrow> Collection \<Rightarrow> DocumentAST" where
  "newAST operation c =
     \<lparr>Operation = operation, Target = c, FilterClause = NilFilterItem, Projection = None,
      SortClauses = [], Skip = None, Limit = None, Documents = [], UpdateOps = [],
      Upsert = False, Pipeline = [], DistinctField = None\<rparr>"

definition Find :: "Collection \<Rightarrow> Builder" where
  "Find c = \<lparr>ast = newAST OpFind c, err = None\<rparr>"

definition FindOne :: "Collection \<Rightarrow> Builder" where
  "FindOne c = \<lparr>ast = newAST OpFindOne c, err = None\<rparr>"

definition Insert :: "Collection \<Rightarrow> Builder" where
  "Insert c = \<lparr>ast = newAST OpInsert c, err = None\<rparr>"

definition InsertMany :: "Collection \<Rightarrow> Builder" where
  "InsertMany c = \<lparr>ast = newAST OpInsertMany c, err = None\<rparr>"

definition Update :: "Collection \<Rightarrow> Builder" where
  "Update c = \<lparr>ast = newAST OpUpdate c, err = None\<rparr>"

definition UpdateMany :: "Collection \<Rightarrow> Builder" where
  "UpdateMany c = \<lparr>ast = newAST OpUpdateMany c, err = None\<rparr>"

definition Delete :: "Collection \<Rightarrow> Builder" where
  "Delete c = \<lparr>ast = newAST OpDelete c, err = None\<rparr>"

definition DeleteMany :: "Collection \<Rightarrow> Builder" where
  "DeleteMany c = \<lparr>ast = newAST OpDeleteMany c, err = None\<rparr>"

definition Aggregate :: "Collection \<Rightarrow> Builder" where
  "Aggregate c = \<lparr>ast = newAST OpAggregate c, err = None\<rparr>"

definition Count :: "Collection \<Rightarrow> Builder" where
  "Count c = \<lparr>ast = newAST OpCount c, err = None\<rparr>"

definition Distinct :: "Collection \<Rightarrow> Field \<Rightarrow> Builder" where
  "Distinct c field = \<lparr>ast = (newAST OpDistinct c)\<lparr>DistinctField := Some field\<rparr>, err = None\<rparr>"

definition isReadOperation :: "Builder \<Rightarrow> bool" where
  "isReadOperation b =
     (Operation (ast b) = OpFind \<or> Operation (ast b) = OpFindOne
      \<or> Operation (ast b) = OpAggregate \<or> Operation (ast b) = OpCount
      \<or> Operation (ast b) = OpDistinct)"

definition isUpdateOperation :: "Builder \<Rightarrow> bool" where
  "isUpdateOperation b =
     (Operation (ast b) = OpUpdate \<or> Operation (ast b) = OpUpdateMany)"

definition Builder_Filter :: "FilterItem \<Rightarrow> Builder \<Rightarrow> Builder" where
  "Builder_Filter f b =
     (if err b \<noteq> None then b
      else if FilterClause (ast b) = NilFilterItem
      then b\<lparr>ast := (ast b)\<lparr>FilterClause := f\<rparr>\<rparr>
      else b\<lparr>ast := (ast b)\<lparr>FilterClause := FilterGroup LogicAND [FilterClause (ast b), f]\<rparr>\<rparr>)"

definition Builder_Where :: "FilterItem \<Rightarrow> Builder \<Rightarrow> Builder" where
  "Builder_Where f b = Builder_Filter f b"

definition Builder_Select :: "Field list \<Rightarrow> Builder \<Rightarrow> Builder" where
  "Builder_Select fs b =
     (if err b \<noteq> None then b
      else if \<not> isReadOperation b then b\<lparr>err := Some (OnlyReadOperations ''Select'')\<rparr>
      else b\<lparr>ast := (ast b)\<lparr>Projection :=
             Some \<lparr>Fields = map (\<lambda>f. ProjectionField f True None None) fs,
                   Exclude = False\<rparr>\<rparr>\<rparr>)"

definition Builder_Exclude :: "Field list \<Rightarrow> Builder \<Rightarrow> Builder" where
  "Builder_Exclude fs b =
     (if err b \<noteq> None then b
      else if \<not> isReadOperation b then b\<lparr>err := Some (OnlyReadOperations ''Exclude'')\<rparr>
      else b\<lparr>ast := (ast b)\<lparr>Projection :=
             Some \<lparr>Fields = map (\<lambda>f. ProjectionField f False None None) fs,
                   Exclude = True\<rparr>\<rparr>\<rparr>)"

definition Builder_Sort :: "Field \<Rightarrow> SortOrder \<Rightarrow> Builder \<Rightarrow> Builder" where
  "Builder_Sort field order b =
     (if err b \<noteq> None then b
      else if \<not> isReadOperation b then b\<lparr>err := Some (OnlyReadOperations ''Sort'')\<rparr>
      else b\<lparr>ast := (ast b)\<lparr>SortClauses := SortClauses (ast b) @ [SortClause field order]\<rparr>\<rparr>)"

definition Builder_SortAsc :: "Field \<Rightarrow> Builder \<Rightarrow> Builder" where
  "Builder_SortAsc field b = Builder_Sort field Ascending b"

definition Builder_SortDesc :: "Field \<Rightarrow> Builder \<Rightarrow> Builder" where
  "Builder_SortDesc field b = Builder_Sort field Descending b"

definition Builder_Skip :: "int \<Rightarrow> Builder \<Rightarrow> Builder" where
  "Builder_Skip n b =
     (if err b \<noteq> None then b
      else if \<not> isReadOperation b then b\<lparr>err := Some (OnlyReadOperations ''Skip'')\<rparr>
      else b\<lparr>ast := (ast b)\<lparr>Skip := Some (PaginationValue (Some n) None)\<rparr>\<rparr>)"

definition Builder_SkipParam :: "Param \<Rightarrow> Builder \<Rightarrow> Builder" where
  "Builder_SkipParam p b =
     (if err b \<noteq> None then b
      else if \<not> isReadOperation b then b\<lparr>err := Some (OnlyReadOperations ''SkipParam'')\<rparr>
      else b\<lparr>ast := (ast b)\<lparr>Skip := Some (PaginationValue None (Some p))\<rparr>\<rparr>)"

text \<open>
  The argument of \<^verbatim>\<open>Limit\<close> is a Go \<^verbatim>\<open>int\<close>; it is only compared and stored, never computed
  with, so an unbounded integer stands for it.
\<close>

definition Builder_Limit :: "int \<Rightarrow> Builder \<Rightarrow> Builder" where
  "Builder_Limit n b =
     (if err b \<noteq> None then b
      else if \<not> isReadOperation b then b\<lparr>err := Some (OnlyReadOperations ''Limit'')\<rparr>
      else if n > MaxLimit then b\<lparr>err := Some (LimitExceedsMaximum n)\<rparr>
      else b\<lparr>ast := (ast b)\<lparr>Limit := Some (PaginationValue (Some n) None)\<rparr>\<rparr>)"

definition Builder_LimitParam :: "Param \<Rightarrow> Builder \<Rightarrow> Builder" where
  "Builder_LimitParam p b =
     (if err b \<noteq> None then b
      else if \<not> isReadOperation b then b\<lparr>err := Some (OnlyReadOperations ''LimitParam'')\<rparr>
      else b\<lparr>ast := (ast b)\<lparr>Limit := Some (PaginationValue None (Some p))\<rparr>\<rparr>)"

definition Builder_Document :: "Document \<Rightarrow> Builder \<Rightarrow> Builder" where
  "Builder_Document doc b =
     (if err b \<noteq> None then b
      else if Operation (ast b) \<noteq> OpInsert \<and> Operation (ast b) \<noteq> OpInsertMany
      then b\<lparr>err := Some (OnlyInsertOperations ''Document'')\<rparr>
      else b\<lparr>ast := (ast b)\<lparr>Documents := Documents (ast b) @ [doc]\<rparr>\<rparr>)"

definition Builder_Documents :: "Document list \<Rightarrow> Builder \<Rightarrow> Builder" where
  "Builder_Documents docs b =
     (if err b \<noteq> None then b
      else if Operation (ast b) \<noteq> OpInsertMany
      then b\<lparr>err := Some (OnlyInsertMany ''Documents'')\<rparr>
      else b\<lparr>ast := (ast b)\<lparr>Documents := Documents (ast b) @ docs\<rparr>\<rparr>)"

text \<open>
  \<^verbatim>\<open>addOrMergeUpdate\<close> walks \<^verbatim>\<open>UpdateOps\<close>: at the first operation with the operator it stores
  the field in that operation's map and returns; when the walk ends it appends a new
  operation with a one-entry map. The maps it writes to were all made by itself.
\<close>

fun addOrMergeUpdateOps ::
  "UpdateOperator \<Rightarrow> Field \<Rightarrow> Param \<Rightarrow> UpdateOperation list \<Rightarrow> UpdateOperation list" where
  "addOrMergeUpdateOps op field val [] = [UpdateOperation op [(field, val)]]"
| "addOrMergeUpdateOps op field val (existing # rest) =
     (if UpdateOperation_Operator existing = op
      then UpdateOperation op (gomap_set field val (UpdateOperation_Fields existing)) # rest
      else existing # addOrMergeUpdateOps op field val rest)"

definition addOrMergeUpdate :: "UpdateOperator \<Rightarrow> Field \<Rightarrow> Param \<Rightarrow> Builder \<Rightarrow> Builder" where
  "addOrMergeUpdate op field val b =
     b\<lparr>ast := (ast b)\<lparr>UpdateOps := addOrMergeUpdateOps op field val (UpdateOps (ast b))\<rparr>\<rparr>"

definition Builder_Set :: "Field \<Rightarrow> Param \<Rightarrow> Builder \<Rightarrow> Builder" where
  "Builder_Set field val b =
     (if err b \<noteq> None then b
      else if \<not> isUpdateOperation b then b\<lparr>err := Some (OnlyUpdateOperations ''Set'')\<rparr>
      else addOrMergeUpdate UpdateSet field val b)"

definition Builder_Unset :: "Field list \<Rightarrow> Builder \<Rightarrow> Builder" where
  "Builder_Unset fs b =
     (if err b \<noteq> None then b
      else if \<not> isUpdateOperation b then b\<lparr>err := Some (OnlyUpdateOperations ''Unset'')\<rparr>
      else foldl (\<lambda>b' f. addOrMergeUpdate UpdateUnset f (Param []) b') b fs)"

definition Builder_Inc :: "Field \<Rightarrow> Param \<Rightarrow> Builder \<Rightarrow> Builder" where
  "Builder_Inc field val b =
     (if err b \<noteq> None then b
      else if \<not> isUpdateOperation b then b\<lparr>err := Some (OnlyUpdateOperations ''Inc'')\<rparr>
      else addOrMergeUpdate UpdateInc field val b)"

definition Builder_Mul :: "Field \<Rightarrow> Param \<Rightarrow> Builder \<Rightarrow> Builder" where
  "Builder_Mul field val b =
     (if err b \<noteq> None then b
      else if \<not> isUpdateOperation b then b\<lparr>err := Some (OnlyUpdateOperations ''Mul'')\<rparr>
      else addOrMergeUpdate UpdateMul field val b)"

definition Builder_Push :: "Field \<Rightarrow> Param \<Rightarrow> Builder \<Rightarrow> Builder" where
  "Builder_Push field val b =
     (if err b \<noteq> None then b
      else if \<not> isUpdateOperation b then b\<lparr>err := Some (OnlyUpdateOperations ''Push'')\<rparr>
      else addOrMergeUpdate UpdatePush field val b)"

definition Builder_Pull :: "Field \<Rightarrow> Param \<Rightarrow> Builder \<Rightarrow> Builder" where
  "Builder_Pull field val b =
     (if err b \<noteq> None then b
      else if \<not> isUpdateOperation b then b\<lparr>err := Some (OnlyUpdateOperations ''Pull'')\<rparr>
      else addOrMergeUpdate UpdatePull field val b)"

definition Builder_AddToSet :: "Field \<Rightarrow> Param \<Rightarrow> Builder \<Rightarrow> Builder" where
  "Builder_AddToSet field val b =
     (if err b \<noteq> None then b
      else if \<not> isUpdateOperation b then b\<lparr>err := Some (OnlyUpdateOperations ''AddToSet'')\<rparr>
      else addOrMergeUpdate UpdateAddToSet field val b)"

definition Builder_Upsert :: "Builder \<Rightarrow> Builder" where
  "Builder_Upsert b =
     (if err b \<noteq> None then b
      else if \<not> isUpdateOperation b then b\<lparr>err := Some (OnlyUpdateOperations ''Upsert'')\<rparr>
      else b\<lparr>ast := (ast b)\<lparr>Upsert := True\<rparr>\<rparr>)"

definition Builder_Match :: "FilterItem \<Rightarrow> Builder \<Rightarrow> Builder" where
  "Builder_Match flt b =
     (if err b \<noteq> None then b
      else if Operation (ast b) \<noteq> OpAggregate then b\<lparr>err := Some (OnlyAggregate ''Match'')\<rparr>
      else b\<lparr>ast := (ast b)\<lparr>Pipeline := Pipeline (ast b) @ [MatchStage flt]\<rparr>\<rparr>)"

definition Builder_Project :: "Projection \<Rightarrow> Builder \<Rightarrow> Builder" where
  "Builder_Project proj b =
     (if err b \<noteq> None then b
      else if Operation (ast b) \<noteq> OpAggregate then b\<lparr>err := Some (OnlyAggregate ''Project'')\<rparr>
      else b\<lparr>ast := (ast b)\<lparr>Pipeline := Pipeline (ast b) @ [ProjectStage proj []]\<rparr>\<rparr>)"

definition Builder_Group :: "Expression \<Rightarrow> (string, Accumulator) gomap \<Rightarrow> Builder \<Rightarrow> Builder" where
  "Builder_Group ident accumulators b =
     (if err b \<noteq> None then b
      else if Operation (ast b) \<noteq> OpAggregate then b\<lparr>err := Some (OnlyAggregate ''Group'')\<rparr>
      else b\<lparr>ast := (ast b)\<lparr>Pipeline := Pipeline (ast b) @ [GroupStage ident accumulators]\<rparr>\<rparr>)"

definition Builder_Lookup :: "string \<Rightarrow> Field \<Rightarrow> Field \<Rightarrow> string \<Rightarrow> Builder \<Rightarrow> Builder" where
  "Builder_Lookup from localField foreignField as b =
     (if err b \<noteq> None then b
      else if Operation (ast b) \<noteq> OpAggregate then b\<lparr>err := Some (OnlyAggregate ''Lookup'')\<rparr>
      else b\<lparr>ast := (ast b)\<lparr>Pipeline := Pipeline (ast b) @ [LookupStage from localField foreignField as [] []]\<rparr>\<rparr>)"

definition Builder_Unwind :: "Field \<Rightarrow> Builder \<Rightarrow> Builder" where
  "Builder_Unwind path b =
     (if err b \<noteq> None then b
      else if Operation (ast b) \<noteq> OpAggregate then b\<lparr>err := Some (OnlyAggregate ''Unwind'')\<rparr>
      else b\<lparr>ast := (ast b)\<lparr>Pipeline := Pipeline (ast b) @ [UnwindStage path None False]\<rparr>\<rparr>)"

definition Builder_Stage :: "PipelineStage \<Rightarrow> Builder \<Rightarrow> Builder" where
  "Builder_Stage stage b =
     (if err b \<noteq> None then b
      else if Operation (ast b) \<noteq> OpAggregate then b\<lparr>err := Some (OnlyAggregate ''Stage'')\<rparr>
      else b\<lparr>ast := (ast b)\<lparr>Pipeline := Pipeline (ast b) @ [stage]\<rparr>\<rparr>)"

definition Build :: "Builder \<Rightarrow> error + DocumentAST" where
  "Build b =
     (case err b of
        Some e \<Rightarrow> Inl e
      | None \<Rightarrow> (case Validate (ast b) of
                   Some e \<Rightarrow> Inl e
                 | None \<Rightarrow> Inr (ast b)))"

definition Builder_Render ::
  "(DocumentAST \<Rightarrow> error + QueryResult) \<Rightarrow> Builder \<Rightarrow> error + QueryResult" where
  "Builder_Render renderer b =
     (case Build b of
        Inl e \<Rightarrow> Inl e
      | Inr a \<Rightarrow> renderer a)"

section \<open>Rendering: what the four renderers share\<close>

subsection \<open>Query documents\<close>

text \<open>
  The renderers assemble a \<^verbatim>\<open>map[string]interface{}\<close> and hand it to \<^verbatim>\<open>json.Marshal\<close>. The
  values they put into it are strings, integers, booleans, \<^verbatim>\<open>nil\<close>, slices and further
  string-keyed maps: type \<open>json\<close>. A string-keyed map is kept as the list of its entries
  in ascending byte order of the keys, one entry per key, so that equal Go maps are equal
  lists (it is also the order in which \<^verbatim>\<open>encoding/json\<close> writes the keys). \<open>obj_set\<close> is the
  assignment \<^verbatim>\<open>m[k] = v\<close> and \<open>obj\<close> a map literal.
\<close>

datatype json =
    JNull
  | JBool bool
  | JInt int
  | JString string
  | JArray "json list"
  | JObject "(string \<times> json) list"

fun key_less :: "string \<Rightarrow> string \<Rightarrow> bool" where
  "key_less [] [] = False"
| "key_less [] (y # ys) = True"
| "key_less (x # xs) [] = False"
| "key_less (x # xs) (y # ys) =
     ((of_char x :: nat) < of_char y \<or> (x = y \<and> key_less xs ys))"

fun obj_set :: "string \<Rightarrow> json \<Rightarrow> (string \<times> json) list \<Rightarrow> (string \<times> json) list" where
  "obj_set k v [] = [(k, v)]"
| "obj_set k v ((k', v') # m) =
     (if k = k' then (k, v) # m
      else if key_less k k' then (k, v) # (k', v') # m
      else (k', v') # obj_set k v m)"

definition obj :: "(string \<times> json) list \<Rightarrow> (string \<times> json) list" where
  "obj entries = foldl (\<lambda>m (k, v). obj_set k v m) [] entries"

text \<open>\<^verbatim>\<open>fmt.Sprintf(":%s", name)\<close>.\<close>

definition placeholder :: "string \<Rightarrow> json" where
  "placeholder name = JString ('':'' @ name)"

text \<open>
  \<^verbatim>\<open>toResult\<close> is the same function in all four packages. \<^verbatim>\<open>json.Marshal\<close> belongs to the Go
  standard library, not to this repository: it is the parameter \<open>marshal\<close>, \<open>None\<close> being
  its error return.
\<close>

definition toResult ::
  "(json \<Rightarrow> string option) \<Rightarrow> (string \<times> json) list \<Rightarrow> string list \<Rightarrow> error + QueryResult" where
  "toResult marshal query params =
     (case marshal (JObject query) of
        None \<Rightarrow> Inl FailedToSerialize
      | Some jsonBytes \<Rightarrow> Inr \<lparr>JSON = jsonBytes, RequiredParams = params\<rparr>)"

text \<open>
  The block that renders \<^verbatim>\<open>Skip\<close> or \<^verbatim>\<open>Limit\<close> under a given key: the static integer when
  there is one, else the parameter, appended to the parameter list, as a placeholder.
\<close>

definition renderPagination ::
  "string \<Rightarrow> PaginationValue option \<Rightarrow> (string \<times> json) list \<times> string list
     \<Rightarrow> (string \<times> json) list \<times> string list" where
  "renderPagination key pv st =
     (case pv of
        None \<Rightarrow> st
      | Some v \<Rightarrow>
          (case Pagination_Static v of
             Some n \<Rightarrow> (obj_set key (JInt n) (fst st), snd st)
           | None \<Rightarrow>
               (case Pagination_Param v of
                  Some p \<Rightarrow> (obj_set key (placeholder (Param_Name p)) (fst st),
                             snd st @ [Param_Name p])
                | None \<Rightarrow> st)))"

section \<open>The MongoDB renderer (package mongodb)\<close>

fun mongodb_renderFilter :: "FilterItem \<Rightarrow> string list \<Rightarrow> error + (json \<times> string list)"
  and mongodb_renderFilters ::
    "FilterItem list \<Rightarrow> json list \<Rightarrow> string list \<Rightarrow> error + (json list \<times> string list)"
  and mongodb_renderElemMatch ::
    "FilterItem list \<Rightarrow> (string \<times> json) list \<Rightarrow> string list
       \<Rightarrow> error + ((string \<times> json) list \<times> string list)" where
  "mongodb_renderFilter NilFilterItem params = Inl UnsupportedFilterType"
| "mongodb_renderFilter (FilterCondition field operator val) params =
     Inr (JObject [(Field_Path field, JObject [(operator, placeholder (Param_Name val))])],
          if Param_Name val \<noteq> [] then params @ [Param_Name val] else params)"
| "mongodb_renderFilter (FilterGroup logic conditions) params =
     (case mongodb_renderFilters conditions [] params of
        Inl e \<Rightarrow> Inl e
      | Inr (rendered, params') \<Rightarrow> Inr (JObject [(logic, JArray rendered)], params'))"
| "mongodb_renderFilter (RangeFilter field minP maxP minExclusive maxExclusive) params =
     (let (rangeFilter, params1) =
            (case minP of
               None \<Rightarrow> ([], params)
             | Some p \<Rightarrow> (obj_set (if minExclusive then ''$gt'' else ''$gte'')
                                   (placeholder (Param_Name p)) [],
                          params @ [Param_Name p]));
          (rangeFilter', params2) =
            (case maxP of
               None \<Rightarrow> (rangeFilter, params1)
             | Some p \<Rightarrow> (obj_set (if maxExclusive then ''$lt'' else ''$lte'')
                                   (placeholder (Param_Name p)) rangeFilter,
                          params1 @ [Param_Name p]))
      in Inr (JObject [(Field_Path field, JObject rangeFilter')], params2))"
| "mongodb_renderFilter (RegexFilter field pattern options) params =
     (let params1 = params @ [Param_Name pattern];
          regexFilter = [(''$regex'', placeholder (Param_Name pattern))];
          (regexFilter', params2) =
            (case options of
               None \<Rightarrow> (regexFilter, params1)
             | Some p \<Rightarrow> (obj_set ''$options'' (placeholder (Param_Name p)) regexFilter,
                          params1 @ [Param_Name p]))
      in Inr (JObject [(Field_Path field, JObject regexFilter')], params2))"
| "mongodb_renderFilter (ExistsFilter field ex) params =
     Inr (JObject [(Field_Path field, JObject [(''$exists'', JBool ex)])], params)"
| "mongodb_renderFilter (GeoFilter field operator lon lat radius maxDistance minDistance) params =
     (let params1 = (params @ [Param_Name lon]) @ [Param_Name lat];
          geoQuery =
            [(''$geometry'',
              JObject (obj [(''type'', JString ''Point''),
                            (''coordinates'', JArray [placeholder (Param_Name lon),
                                                      placeholder (Param_Name lat)])]))];
          (geoQuery', params2) =
            (case radius of
               None \<Rightarrow> (geoQuery, params1)
             | Some p \<Rightarrow> (obj_set ''$maxDistance'' (placeholder (Param_Name p)) geoQuery,
                          params1 @ [Param_Name p]))
      in Inr (JObject [(Field_Path field, JObject [(operator, JObject geoQuery')])], params2))"
| "mongodb_renderFilter (ArrayFilter field operator val) params =
     Inr (JObject [(Field_Path field, JObject [(operator, placeholder (Param_Name val))])],
          params @ [Param_Name val])"
| "mongodb_renderFilter (ElemMatchFilter field conditions) params =
     (case mongodb_renderElemMatch conditions [] params of
        Inl e \<Rightarrow> Inl e
      | Inr (conds, params') \<Rightarrow>
          Inr (JObject [(Field_Path field, JObject [(''$elemMatch'', JObject conds)])], params'))"
| "mongodb_renderFilter (TextSearchFilter search language caseSensitive diacriticSensitive) params =
     (let params1 = params @ [Param_Name search];
          textQuery = [(''$search'', placeholder (Param_Name search))];
          (textQuery1, params2) =
            (case language of
               None \<Rightarrow> (textQuery, params1)
             | Some p \<Rightarrow> (obj_set ''$language'' (placeholder (Param_Name p)) textQuery,
                          params1 @ [Param_Name p]));
          textQuery2 = (if caseSensitive then obj_set ''$caseSensitive'' (JBool True) textQuery1
                        else textQuery1);
          textQuery3 = (if diacriticSensitive
                        then obj_set ''$diacriticSensitive'' (JBool True) textQuery2
                        else textQuery2)
      in Inr (JObject [(''$text'', JObject textQuery3)], params2))"
| "mongodb_renderFilter OtherFilterItem params = Inl UnsupportedFilterType"
| "mongodb_renderFilters [] conditions params = Inr (conditions, params)"
| "mongodb_renderFilters (c # cs) conditions params =
     (case mongodb_renderFilter c params of
        Inl e \<Rightarrow> Inl e
      | Inr (rendered, params') \<Rightarrow> mongodb_renderFilters cs (conditions @ [rendered]) params')"
| "mongodb_renderElemMatch [] conditions params = Inr (conditions, params)"
| "mongodb_renderElemMatch (c # cs) conditions params =
     (case mongodb_renderFilter c params of
        Inl e \<Rightarrow> Inl e
      | Inr (rendered, params') \<Rightarrow>
          mongodb_renderElemMatch cs
            (case rendered of
               JObject m \<Rightarrow> foldl (\<lambda>acc (k, v). obj_set k v acc) conditions m
             | _ \<Rightarrow> conditions)
            params')"

definition mongodb_renderProjection :: "Projection \<Rightarrow> (string \<times> json) list" where
  "mongodb_renderProjection p =
     foldl (\<lambda>proj f. if ProjectionField_Include f
                      then obj_set (Field_Path (ProjectionField_Field f)) (JInt 1) proj
                      else obj_set (Field_Path (ProjectionField_Field f)) (JInt 0) proj)
           [] (Fields p)"

definition mongodb_renderDocument ::
  "Document \<Rightarrow> string list \<Rightarrow> (string \<times> json) list \<times> string list" where
  "mongodb_renderDocument doc params =
     foldl (\<lambda>(result, ps) (field, val).
              (obj_set (Field_Path field) (placeholder (Param_Name val)) result,
               ps @ [Param_Name val]))
           ([], params) (Document_Fields doc)"

definition mongodb_renderUpdateOps ::
  "UpdateOperation list \<Rightarrow> string list \<Rightarrow> (string \<times> json) list \<times> string list" where
  "mongodb_renderUpdateOps ops params =
     foldl (\<lambda>(result, ps) op.
              (let (fs, ps') =
                     foldl (\<lambda>(fs, ps) (field, val).
                              if Param_Name val \<noteq> []
                              then (obj_set (Field_Path field) (placeholder (Param_Name val)) fs,
                                    ps @ [Param_Name val])
                              else (obj_set (Field_Path field) (JString []) fs, ps))
                           ([], ps) (UpdateOperation_Fields op)
               in (obj_set (UpdateOperation_Operator op) (JObject fs) result, ps')))
           ([], params) ops"

fun mongodb_renderExpression :: "Expression \<Rightarrow> string list \<Rightarrow> json \<times> string list"
  and mongodb_renderExpressions ::
    "Expression list \<Rightarrow> json list \<Rightarrow> string list \<Rightarrow> json list \<times> string list" where
  "mongodb_renderExpression NilExpression params = (JNull, params)"
| "mongodb_renderExpression (FieldExpression field) params =
     (JString (''$'' @ Field_Path field), params)"
| "mongodb_renderExpression (LiteralExpression val) params =
     (placeholder (Param_Name val), params @ [Param_Name val])"
| "mongodb_renderExpression (OperatorExpression operator args) params =
     (let (rendered, params') = mongodb_renderExpressions args [] params
      in (JObject [(operator, JArray rendered)], params'))"
| "mongodb_renderExpression (ConditionalExpression i t e) params =
     (let (ri, params1) = mongodb_renderExpression i params;
          (rt, params2) = mongodb_renderExpression t params1;
          (re, params3) = mongodb_renderExpression e params2
      in (JObject [(''$cond'', JObject (obj [(''if'', ri), (''then'', rt), (''else'', re)]))],
          params3))"
| "mongodb_renderExpression OtherExpression params = (JNull, params)"
| "mongodb_renderExpressions [] rendered params = (rendered, params)"
| "mongodb_renderExpressions (arg # args) rendered params =
     (let (r, params') = mongodb_renderExpression arg params
      in mongodb_renderExpressions args (rendered @ [r]) params')"

definition mongodb_renderSorts :: "SortClause list \<Rightarrow> (string \<times> json) list" where
  "mongodb_renderSorts sorts =
     foldl (\<lambda>sort sc. obj_set (Field_Path (SortClause_Field sc)) (JInt (SortClause_Order sc)) sort)
           [] sorts"

text \<open>
  The value of a \<^verbatim>\<open>$limit\<close> or \<^verbatim>\<open>$skip\<close> stage: an \<^verbatim>\<open>interface{}\<close> that stays \<^verbatim>\<open>nil\<close> when the
  pagination value has neither a static integer nor a parameter.
\<close>

definition mongodb_stageValue :: "PaginationValue \<Rightarrow> string list \<Rightarrow> json \<times> string list" where
  "mongodb_stageValue pv params =
     (case Pagination_Static pv of
        Some n \<Rightarrow> (JInt n, params)
      | None \<Rightarrow>
          (case Pagination_Param pv of
             Some p \<Rightarrow> (placeholder (Param_Name p), params @ [Param_Name p])
           | None \<Rightarrow> (JNull, params)))"

fun mongodb_renderPipelineStage ::
  "PipelineStage \<Rightarrow> string list \<Rightarrow> error + (json \<times> string list)" where
  "mongodb_renderPipelineStage (MatchStage flt) params =
     (case mongodb_renderFilter flt params of
        Inl e \<Rightarrow> Inl e
      | Inr (rendered, params') \<Rightarrow> Inr (JObject [(''$match'', rendered)], params'))"
| "mongodb_renderPipelineStage (ProjectStage projection computed) params =
     Inr (JObject [(''$project'', JObject (mongodb_renderProjection projection))], params)"
| "mongodb_renderPipelineStage (GroupStage ident accumulators) params =
     (let (rid, params1) = mongodb_renderExpression ident params;
          (grp, params2) =
            foldl (\<lambda>(grp, ps) (name, acc).
                     (let (r, ps') = mongodb_renderExpression (Accumulator_Expr acc) ps
                      in (obj_set name (JObject [(Accumulator_Operator acc, r)]) grp, ps')))
                  (obj_set ''_id'' rid [], params1) accumulators
      in Inr (JObject [(''$group'', JObject grp)], params2))"
| "mongodb_renderPipelineStage (SortStage sorts) params =
     Inr (JObject [(''$sort'', JObject (mongodb_renderSorts sorts))], params)"
| "mongodb_renderPipelineStage (LimitStage limit) params =
     (let (v, params') = mongodb_stageValue limit params
      in Inr (JObject [(''$limit'', v)], params'))"
| "mongodb_renderPipelineStage (SkipStage skip) params =
     (let (v, params') = mongodb_stageValue skip params
      in Inr (JObject [(''$skip'', v)], params'))"
| "mongodb_renderPipelineStage (UnwindStage path includeArrayIndex preserve) params =
     (let unwind = [(''path'', JString (''$'' @ Field_Path path))];
          unwind1 = (case includeArrayIndex of
                       Some ix \<Rightarrow> obj_set ''includeArrayIndex'' (JString ix) unwind
                     | None \<Rightarrow> unwind);
          unwind2 = (if preserve
                     then obj_set ''preserveNullAndEmptyArrays'' (JBool True) unwind1
                     else unwind1)
      in Inr (JObject [(''$unwind'', JObject unwind2)], params))"
| "mongodb_renderPipelineStage (LookupStage from localField foreignField as pipeline lets) params =
     Inr (JObject [(''$lookup'',
                    JObject (obj [(''from'', JString from),
                                  (''localField'', JString (Field_Path localField)),
                                  (''foreignField'', JString (Field_Path foreignField)),
                                  (''as'', JString as)]))],
          params)"
| "mongodb_renderPipelineStage (AddFieldsStage fs) params =
     (let (rendered, params') =
            foldl (\<lambda>(m, ps) (name, expr).
                     (let (r, ps') = mongodb_renderExpression expr ps
                      in (obj_set name r m, ps')))
                  ([], params) fs
      in Inr (JObject [(''$addFields'', JObject rendered)], params'))"
| "mongodb_renderPipelineStage (CountStage fieldName) params =
     Inr (JObject [(''$count'', JString fieldName)], params)"
| "mongodb_renderPipelineStage (ReplaceRootStage newRoot) params = Inl UnsupportedPipelineStage"
| "mongodb_renderPipelineStage (FacetStage facets) params = Inl UnsupportedPipelineStage"
| "mongodb_renderPipelineStage (BucketStage groupBy boundaries dflt output) params =
     Inl UnsupportedPipelineStage"
| "mongodb_renderPipelineStage OtherPipelineStage params = Inl UnsupportedPipelineStage"

text \<open>
  The operation renderers. \<^verbatim>\<open>renderDistinct\<close> dereferences \<^verbatim>\<open>ast.DistinctField\<close>; \<^verbatim>\<open>Render\<close>
  calls it only after \<^verbatim>\<open>Validate\<close> has found the pointer non-nil, and the branch of a nil
  pointer is kept as the panic it would be.
\<close>

definition mongodb_renderFind ::
  "(json \<Rightarrow> string option) \<Rightarrow> DocumentAST \<Rightarrow> string list \<Rightarrow> error + QueryResult" where
  "mongodb_renderFind marshal a params =
     (let query = obj_set ''operation'' (JString (Operation a))
                    (obj_set ''collection'' (JString (Collection_Name (Target a))) [])
      in case (if FilterClause a \<noteq> NilFilterItem
               then (case mongodb_renderFilter (FilterClause a) params of
                       Inl e \<Rightarrow> Inl e
                     | Inr (flt, params') \<Rightarrow> Inr (obj_set ''filter'' flt query, params'))
               else Inr (obj_set ''filter'' (JObject []) query, params)) of
           Inl e \<Rightarrow> Inl e
         | Inr (query1, params1) \<Rightarrow>
             (let query2 = (case Projection a of
                              Some p \<Rightarrow> obj_set ''projection''
                                          (JObject (mongodb_renderProjection p)) query1
                            | None \<Rightarrow> query1);
                  query3 = (if length (SortClauses a) > 0
                            then obj_set ''sort'' (JObject (mongodb_renderSorts (SortClauses a)))
                                   query2
                            else query2);
                  st4 = renderPagination ''skip'' (Skip a) (query3, params1);
                  st5 = renderPagination ''limit'' (Limit a) st4
              in toResult marshal (fst st5) (snd st5)))"

definition mongodb_renderInsert ::
  "(json \<Rightarrow> string option) \<Rightarrow> DocumentAST \<Rightarrow> string list \<Rightarrow> error + QueryResult" where
  "mongodb_renderInsert marshal a params =
     (let query = obj_set ''operation'' (JString (Operation a))
                    (obj_set ''collection'' (JString (Collection_Name (Target a))) []);
          (query1, params1) =
            (case Documents a of
               [] \<Rightarrow> (query, params)
             | d # ds \<Rightarrow> (let (doc, params') = mongodb_renderDocument d params
                          in (obj_set ''document'' (JObject doc) query, params')))
      in toResult marshal query1 params1)"

definition mongodb_renderInsertMany ::
  "(json \<Rightarrow> string option) \<Rightarrow> DocumentAST \<Rightarrow> string list \<Rightarrow> error + QueryResult" where
  "mongodb_renderInsertMany marshal a params =
     (let query = obj_set ''operation'' (JString (Operation a))
                    (obj_set ''collection'' (JString (Collection_Name (Target a))) []);
          (docs, params1) =
            foldl (\<lambda>(docs, ps) d. (let (doc, ps') = mongodb_renderDocument d ps
                                    in (docs @ [JObject doc], ps')))
                  ([], params) (Documents a)
      in toResult marshal (obj_set ''documents'' (JArray docs) query) params1)"

definition mongodb_renderUpdate ::
  "(json \<Rightarrow> string option) \<Rightarrow> DocumentAST \<Rightarrow> string list \<Rightarrow> error + QueryResult" where
  "mongodb_renderUpdate marshal a params =
     (let query = obj_set ''operation'' (JString (Operation a))
                    (obj_set ''collection'' (JString (Collection_Name (Target a))) [])
      in case (if FilterClause a \<noteq> NilFilterItem
               then (case mongodb_renderFilter (FilterClause a) params of
                       Inl e \<Rightarrow> Inl e
                     | Inr (flt, params') \<Rightarrow> Inr (obj_set ''filter'' flt query, params'))
               else Inr (obj_set ''filter'' (JObject []) query, params)) of
           Inl e \<Rightarrow> Inl e
         | Inr (query1, params1) \<Rightarrow>
             (let (upd, params2) = mongodb_renderUpdateOps (UpdateOps a) params1;
                  query2 = obj_set ''update'' (JObject upd) query1;
                  query3 = (if Upsert a then obj_set ''upsert'' (JBool True) query2 else query2)
              in toResult marshal query3 params2))"

definition mongodb_renderUpdateMany ::
  "(json \<Rightarrow> string option) \<Rightarrow> DocumentAST \<Rightarrow> string list \<Rightarrow> error + QueryResult" where
  "mongodb_renderUpdateMany marshal a params = mongodb_renderUpdate marshal a params"

definition mongodb_renderDelete ::
  "(json \<Rightarrow> string option) \<Rightarrow> DocumentAST \<Rightarrow> string list \<Rightarrow> error + QueryResult" where
  "mongodb_renderDelete marshal a params =
     (let query = obj_set ''operation'' (JString (Operation a))
                    (obj_set ''collection'' (JString (Collection_Name (Target a))) [])
      in case (if FilterClause a \<noteq> NilFilterItem
               then (case mongodb_renderFilter (FilterClause a) params of
                       Inl e \<Rightarrow> Inl e
                     | Inr (flt, params') \<Rightarrow> Inr (obj_set ''filter'' flt query, params'))
               else Inr (obj_set ''filter'' (JObject []) query, params)) of
           Inl e \<Rightarrow> Inl e
         | Inr (query1, params1) \<Rightarrow> toResult marshal query1 params1)"

definition mongodb_renderDeleteMany ::
  "(json \<Rightarrow> string option) \<Rightarrow> DocumentAST \<Rightarrow> string list \<Rightarrow> error + QueryResult" where
  "mongodb_renderDeleteMany marshal a params = mongodb_renderDelete marshal a params"

fun mongodb_renderStages ::
  "PipelineStage list \<Rightarrow> json list \<Rightarrow> string list \<Rightarrow> error + (json list \<times> string list)" where
  "mongodb_renderStages [] pipeline params = Inr (pipeline, params)"
| "mongodb_renderStages (stage # stages) pipeline params =
     (case mongodb_renderPipelineStage stage params of
        Inl e \<Rightarrow> Inl e
      | Inr (rendered, params') \<Rightarrow> mongodb_renderStages stages (pipeline @ [rendered]) params')"

definition mongodb_renderAggregate ::
  "(json \<Rightarrow> string option) \<Rightarrow> DocumentAST \<Rightarrow> string list \<Rightarrow> error + QueryResult" where
  "mongodb_renderAggregate marshal a params =
     (let query = obj_set ''operation'' (JString (Operation a))
                    (obj_set ''collection'' (JString (Collection_Name (Target a))) [])
      in case mongodb_renderStages (Pipeline a) [] params of
           Inl e \<Rightarrow> Inl e
         | Inr (pipeline, params1) \<Rightarrow>
             toResult marshal (obj_set ''pipeline'' (JArray pipeline) query) params1)"

definition mongodb_renderCount ::
  "(json \<Rightarrow> string option) \<Rightarrow> DocumentAST \<Rightarrow> string list \<Rightarrow> error + QueryResult" where
  "mongodb_renderCount marshal a params =
     (let query = obj_set ''operation'' (JString (Operation a))
                    (obj_set ''collection'' (JString (Collection_Name (Target a))) [])
      in case (if FilterClause a \<noteq> NilFilterItem
               then (case mongodb_renderFilter (FilterClause a) params of
                       Inl e \<Rightarrow> Inl e
                     | Inr (flt, params') \<Rightarrow> Inr (obj_set ''filter'' flt query, params'))
               else Inr (obj_set ''filter'' (JObject []) query, params)) of
           Inl e \<Rightarrow> Inl e
         | Inr (query1, params1) \<Rightarrow> toResult marshal query1 params1)"

definition mongodb_renderDistinct ::
  "(json \<Rightarrow> string option) \<Rightarrow> DocumentAST \<Rightarrow> string list \<Rightarrow> error + QueryResult" where
  "mongodb_renderDistinct marshal a params =
     (case DistinctField a of
        None \<Rightarrow> Inl PanicNilPointerDereference
      | Some field \<Rightarrow>
          (let query = obj_set ''field'' (JString (Field_Path field))
                         (obj_set ''operation'' (JString (Operation a))
                            (obj_set ''collection'' (JString (Collection_Name (Target a))) []))
           in case (if FilterClause a \<noteq> NilFilterItem
                    then (case mongodb_renderFilter (FilterClause a) params of
                            Inl e \<Rightarrow> Inl e
                          | Inr (flt, params') \<Rightarrow> Inr (obj_set ''filter'' flt query, params'))
                    else Inr (query, params)) of
                Inl e \<Rightarrow> Inl e
              | Inr (query1, params1) \<Rightarrow> toResult marshal query1 params1))"

definition mongodb_Render ::
  "(json \<Rightarrow> string option) \<Rightarrow> DocumentAST \<Rightarrow> error + QueryResult" where
  "mongodb_Render marshal a =
     (case Validate a of
        Some e \<Rightarrow> Inl (InvalidAST e)
      | None \<Rightarrow>
          (if Operation a = OpFind \<or> Operation a = OpFindOne then mongodb_renderFind marshal a []
           else if Operation a = OpInsert then mongodb_renderInsert marshal a []
           else if Operation a = OpInsertMany then mongodb_renderInsertMany marshal a []
           else if Operation a = OpUpdate then mongodb_renderUpdate marshal a []
           else if Operation a = OpUpdateMany then mongodb_renderUpdateMany marshal a []
           else if Operation a = OpDelete then mongodb_renderDelete marshal a []
           else if Operation a = OpDeleteMany then mongodb_renderDeleteMany marshal a []
           else if Operation a = OpAggregate then mongodb_renderAggregate marshal a []
           else if Operation a = OpCount then mongodb_renderCount marshal a []
           else if Operation a = OpDistinct then mongodb_renderDistinct marshal a []
           else Inl (UnsupportedOperation (Operation a))))"

section \<open>The Firestore renderer (package firestore)\<close>

definition firestore_mapOperator :: "FilterOperator \<Rightarrow> error + string" where
  "firestore_mapOperator op =
     (if op = OpEQ then Inr ''==''
      else if op = OpNE then Inr ''!=''
      else if op = OpGT then Inr ''>''
      else if op = OpGTE then Inr ''>=''
      else if op = OpLT then Inr ''<''
      else if op = OpLTE then Inr ''<=''
      else if op = OpIN then Inr ''in''
      else if op = OpNotIn then Inr ''not-in''
      else if op = OpAll then Inr ''array-contains''
      else Inl (ProviderDoesNotSupportFilterOperator op))"

definition firestore_where :: "string \<Rightarrow> string \<Rightarrow> string \<Rightarrow> json" where
  "firestore_where path op name =
     JObject (obj [(''field'', JString path), (''operator'', JString op),
                   (''value'', placeholder name)])"

text \<open>
  \<^verbatim>\<open>buildWheres\<close> returns a slice that starts as \<^verbatim>\<open>nil\<close> and only grows by \<^verbatim>\<open>append\<close>; the model
  returns the list of its elements.
\<close>

fun firestore_buildWheres ::
      "FilterItem \<Rightarrow> string list \<Rightarrow> error + (json list \<times> string list)"
  and firestore_buildWheresList ::
      "FilterItem list \<Rightarrow> json list \<Rightarrow> string list \<Rightarrow> error + (json list \<times> string list)" where
  "firestore_buildWheres (FilterCondition field operator val) params =
     (case firestore_mapOperator operator of
        Inl e \<Rightarrow> Inl e
      | Inr op \<Rightarrow> Inr ([firestore_where (Field_Path field) op (Param_Name val)],
                       params @ [Param_Name val]))"
| "firestore_buildWheres (FilterGroup logic conditions) params =
     (if logic \<noteq> LogicAND then Inl FirestoreOnlySupportsAND
      else firestore_buildWheresList conditions [] params)"
| "firestore_buildWheres (RangeFilter field minP maxP minExclusive maxExclusive) params =
     (let (wheres1, params1) =
            (case minP of
               None \<Rightarrow> ([], params)
             | Some p \<Rightarrow> ([firestore_where (Field_Path field)
                             (if minExclusive then ''>'' else ''>='') (Param_Name p)],
                          params @ [Param_Name p]));
          (wheres2, params2) =
            (case maxP of
               None \<Rightarrow> (wheres1, params1)
             | Some p \<Rightarrow> (wheres1 @ [firestore_where (Field_Path field)
                                       (if maxExclusive then ''<'' else ''<='') (Param_Name p)],
                          params1 @ [Param_Name p]))
      in Inr (wheres2, params2))"
| "firestore_buildWheres NilFilterItem params = Inl ProviderDoesNotSupportFilterType"
| "firestore_buildWheres (RegexFilter field pattern options) params =
     Inl ProviderDoesNotSupportFilterType"
| "firestore_buildWheres (TextSearchFilter search language cs ds) params =
     Inl ProviderDoesNotSupportFilterType"
| "firestore_buildWheres (GeoFilter field operator lon lat radius maxD minD) params =
     Inl ProviderDoesNotSupportFilterType"
| "firestore_buildWheres (ArrayFilter field operator val) params =
     Inl ProviderDoesNotSupportFilterType"
| "firestore_buildWheres (ElemMatchFilter field conditions) params =
     Inl ProviderDoesNotSupportFilterType"
| "firestore_buildWheres (ExistsFilter field ex) params = Inl ProviderDoesNotSupportFilterType"
| "firestore_buildWheres OtherFilterItem params = Inl ProviderDoesNotSupportFilterType"
| "firestore_buildWheresList [] wheres params = Inr (wheres, params)"
| "firestore_buildWheresList (c # cs) wheres params =
     (case firestore_buildWheres c params of
        Inl e \<Rightarrow> Inl e
      | Inr (childWheres, params') \<Rightarrow>
          firestore_buildWheresList cs (wheres @ childWheres) params')"

definition firestore_SupportsOperation :: "Operation \<Rightarrow> bool" where
  "firestore_SupportsOperation op =
     (op = OpFind \<or> op = OpFindOne \<or> op = OpInsert \<or> op = OpUpdate \<or> op = OpDelete)"

text \<open>
  A \<^verbatim>\<open>nil\<close> slice stored in the query is the JSON value \<^verbatim>\<open>null\<close>, a non-nil one an array;
  \<^verbatim>\<open>wheres\<close> is \<^verbatim>\<open>nil\<close> exactly when nothing was appended to it.
\<close>

definition firestore_renderQuery ::
  "(json \<Rightarrow> string option) \<Rightarrow> DocumentAST \<Rightarrow> string list \<Rightarrow> error + QueryResult" where
  "firestore_renderQuery marshal a params =
     (let query = obj_set ''operation'' (JString (Operation a))
                    (obj_set ''collection'' (JString (Collection_Name (Target a))) [])
      in case (if FilterClause a \<noteq> NilFilterItem
               then (case firestore_buildWheres (FilterClause a) params of
                       Inl e \<Rightarrow> Inl e
                     | Inr (wheres, params') \<Rightarrow>
                         Inr (obj_set ''where'' (if wheres = [] then JNull else JArray wheres)
                                query, params'))
               else Inr (query, params)) of
           Inl e \<Rightarrow> Inl e
         | Inr (query1, params1) \<Rightarrow>
             (let query2 =
                    (if length (SortClauses a) > 0
                     then obj_set ''orderBy''
                            (JArray (map (\<lambda>s. JObject (obj
                                       [(''field'', JString (Field_Path (SortClause_Field s))),
                                        (''direction'',
                                         JString (if SortClause_Order s = Descending
                                                  then ''desc'' else ''asc''))]))
                                     (SortClauses a)))
                            query1
                     else query1);
                  st3 = renderPagination ''limit'' (Limit a) (query2, params1);
                  st4 = renderPagination ''offset'' (Skip a) st3;
                  query5 =
                    (case Projection a of
                       None \<Rightarrow> fst st4
                     | Some p \<Rightarrow>
                         (let fs = map (\<lambda>f. JString (Field_Path (ProjectionField_Field f)))
                                     (filter ProjectionField_Include (Fields p))
                          in if length fs > 0 then obj_set ''select'' (JArray fs) (fst st4)
                             else fst st4))
              in toResult marshal query5 (snd st4)))"

definition firestore_renderAdd ::
  "(json \<Rightarrow> string option) \<Rightarrow> DocumentAST \<Rightarrow> string list \<Rightarrow> error + QueryResult" where
  "firestore_renderAdd marshal a params =
     (let query = obj_set ''operation'' (JString (Operation a))
                    (obj_set ''collection'' (JString (Collection_Name (Target a))) []);
          (query1, params1) =
            (case Documents a of
               [] \<Rightarrow> (query, params)
             | d # ds \<Rightarrow>
                 (let (dat, params') =
                        foldl (\<lambda>(dat, ps) (field, val).
                                 (obj_set (Field_Path field) (placeholder (Param_Name val)) dat,
                                  ps @ [Param_Name val]))
                              ([], params) (Document_Fields d)
                  in (obj_set ''data'' (JObject dat) query, params')))
      in toResult marshal query1 params1)"

fun firestore_renderUpdateOps ::
  "UpdateOperation list \<Rightarrow> (string \<times> json) list \<Rightarrow> string list
     \<Rightarrow> error + ((string \<times> json) list \<times> string list)" where
  "firestore_renderUpdateOps [] dat params = Inr (dat, params)"
| "firestore_renderUpdateOps (op # ops) dat params =
     (if UpdateOperation_Operator op \<noteq> UpdateSet \<and> UpdateOperation_Operator op \<noteq> UpdateUnset
      then Inl (ProviderDoesNotSupportUpdateOperator (UpdateOperation_Operator op))
      else (let (dat', params') =
                  foldl (\<lambda>(dat, ps) (field, val).
                           if UpdateOperation_Operator op = UpdateUnset
                           then (obj_set (Field_Path field) (JString ''FieldValue.delete()'') dat,
                                 ps)
                           else (obj_set (Field_Path field) (placeholder (Param_Name val)) dat,
                                 ps @ [Param_Name val]))
                        (dat, params) (UpdateOperation_Fields op)
            in firestore_renderUpdateOps ops dat' params'))"

definition firestore_renderUpdate ::
  "(json \<Rightarrow> string option) \<Rightarrow> DocumentAST \<Rightarrow> string list \<Rightarrow> error + QueryResult" where
  "firestore_renderUpdate marshal a params =
     (let query = obj_set ''operation'' (JString (Operation a))
                    (obj_set ''collection'' (JString (Collection_Name (Target a))) [])
      in case firestore_renderUpdateOps (UpdateOps a) [] params of
           Inl e \<Rightarrow> Inl e
         | Inr (dat, params1) \<Rightarrow> toResult marshal (obj_set ''data'' (JObject dat) query) params1)"

definition firestore_renderDelete ::
  "(json \<Rightarrow> string option) \<Rightarrow> DocumentAST \<Rightarrow> string list \<Rightarrow> error + QueryResult" where
  "firestore_renderDelete marshal a params =
     toResult marshal
       (obj_set ''operation'' (JString (Operation a))
          (obj_set ''collection'' (JString (Collection_Name (Target a))) []))
       params"

definition firestore_Render ::
  "(json \<Rightarrow> string option) \<Rightarrow> DocumentAST \<Rightarrow> error + QueryResult" where
  "firestore_Render marshal a =
     (case Validate a of
        Some e \<Rightarrow> Inl (InvalidAST e)
      | None \<Rightarrow>
          (if \<not> firestore_SupportsOperation (Operation a)
           then Inl (ProviderDoesNotSupportOperation (Operation a))
           else if Operation a = OpFind \<or> Operation a = OpFindOne
           then firestore_renderQuery marshal a []
           else if Operation a = OpInsert then firestore_renderAdd marshal a []
           else if Operation a = OpUpdate then firestore_renderUpdate marshal a []
           else if Operation a = OpDelete then firestore_renderDelete marshal a []
           else Inl (UnsupportedOperation (Operation a))))"

section \<open>The CouchDB renderer (package couchdb)\<close>

definition couchdb_mapOperator :: "FilterOperator \<Rightarrow> string" where
  "couchdb_mapOperator op =
     (if op = OpEQ then ''$eq''
      else if op = OpNE then ''$ne''
      else if op = OpGT then ''$gt''
      else if op = OpGTE then ''$gte''
      else if op = OpLT then ''$lt''
      else if op = OpLTE then ''$lte''
      else if op = OpIN then ''$in''
      else if op = OpNotIn then ''$nin''
      else if op = OpRegex then ''$regex''
      else if op = OpExists then ''$exists''
      else [])"

definition mapLogic :: "LogicOperator \<Rightarrow> string" where
  "mapLogic op =
     (if op = LogicAND then ''$and''
      else if op = LogicOR then ''$or''
      else if op = LogicNOR then ''$nor''
      else ''$and'')"

fun buildSelector :: "FilterItem \<Rightarrow> string list \<Rightarrow> error + (json \<times> string list)"
  and buildSelectors ::
    "FilterItem list \<Rightarrow> json list \<Rightarrow> string list \<Rightarrow> error + (json list \<times> string list)" where
  "buildSelector (FilterCondition field operator val) params =
     (let params' = params @ [Param_Name val];
          op = couchdb_mapOperator operator
      in if op = [] then Inl (ProviderDoesNotSupportFilterOperator operator)
         else Inr (JObject [(Field_Path field, JObject [(op, placeholder (Param_Name val))])],
                   params'))"
| "buildSelector (FilterGroup logic conditions) params =
     (case buildSelectors conditions [] params of
        Inl e \<Rightarrow> Inl e
      | Inr (rendered, params') \<Rightarrow> Inr (JObject [(mapLogic logic, JArray rendered)], params'))"
| "buildSelector (RangeFilter field minP maxP minExclusive maxExclusive) params =
     (let (rangeSelector, params1) =
            (case minP of
               None \<Rightarrow> ([], params)
             | Some p \<Rightarrow> (obj_set (if minExclusive then ''$gt'' else ''$gte'')
                                   (placeholder (Param_Name p)) [],
                          params @ [Param_Name p]));
          (rangeSelector', params2) =
            (case maxP of
               None \<Rightarrow> (rangeSelector, params1)
             | Some p \<Rightarrow> (obj_set (if maxExclusive then ''$lt'' else ''$lte'')
                                   (placeholder (Param_Name p)) rangeSelector,
                          params1 @ [Param_Name p]))
      in Inr (JObject [(Field_Path field, JObject rangeSelector')], params2))"
| "buildSelector (RegexFilter field pattern options) params =
     Inr (JObject [(Field_Path field, JObject [(''$regex'', placeholder (Param_Name pattern))])],
          params @ [Param_Name pattern])"
| "buildSelector (ExistsFilter field ex) params =
     Inr (JObject [(Field_Path field, JObject [(''$exists'', JBool ex)])], params)"
| "buildSelector NilFilterItem params = Inl ProviderDoesNotSupportFilterType"
| "buildSelector (TextSearchFilter search language cs ds) params =
     Inl ProviderDoesNotSupportFilterType"
| "buildSelector (GeoFilter field operator lon lat radius maxD minD) params =
     Inl ProviderDoesNotSupportFilterType"
| "buildSelector (ArrayFilter field operator val) params = Inl ProviderDoesNotSupportFilterType"
| "buildSelector (ElemMatchFilter field conditions) params =
     Inl ProviderDoesNotSupportFilterType"
| "buildSelector OtherFilterItem params = Inl ProviderDoesNotSupportFilterType"
| "buildSelectors [] conditions params = Inr (conditions, params)"
| "buildSelectors (c # cs) conditions params =
     (case buildSelector c params of
        Inl e \<Rightarrow> Inl e
      | Inr (rendered, params') \<Rightarrow> buildSelectors cs (conditions @ [rendered]) params')"

definition couchdb_SupportsOperation :: "Operation \<Rightarrow> bool" where
  "couchdb_SupportsOperation op =
     (op = OpFind \<or> op = OpFindOne \<or> op = OpInsert \<or> op = OpUpdate \<or> op = OpDelete)"

definition couchdb_renderFind ::
  "(json \<Rightarrow> string option) \<Rightarrow> DocumentAST \<Rightarrow> string list \<Rightarrow> error + QueryResult" where
  "couchdb_renderFind marshal a params =
     (case (if FilterClause a \<noteq> NilFilterItem
            then (case buildSelector (FilterClause a) params of
                    Inl e \<Rightarrow> Inl e
                  | Inr (selector, params') \<Rightarrow> Inr (obj_set ''selector'' selector [], params'))
            else Inr (obj_set ''selector'' (JObject []) [], params)) of
        Inl e \<Rightarrow> Inl e
      | Inr (query1, params1) \<Rightarrow>
          (let query2 =
                 (case Projection a of
                    None \<Rightarrow> query1
                  | Some p \<Rightarrow>
                      (let fs = map (\<lambda>f. JString (Field_Path (ProjectionField_Field f)))
                                  (filter ProjectionField_Include (Fields p))
                       in if length fs > 0 then obj_set ''fields'' (JArray fs) query1
                          else query1));
               query3 =
                 (if length (SortClauses a) > 0
                  then obj_set ''sort''
                         (JArray (map (\<lambda>s. JObject
                                    [(Field_Path (SortClause_Field s),
                                      JString (if SortClause_Order s = Descending
                                               then ''desc'' else ''asc''))])
                                  (SortClauses a)))
                         query2
                  else query2);
               st4 = renderPagination ''limit'' (Limit a) (query3, params1);
               st5 = renderPagination ''skip'' (Skip a) st4
           in toResult marshal (fst st5) (snd st5)))"

definition couchdb_renderInsert ::
  "(json \<Rightarrow> string option) \<Rightarrow> DocumentAST \<Rightarrow> string list \<Rightarrow> error + QueryResult" where
  "couchdb_renderInsert marshal a params =
     (let query = obj_set ''operation'' (JString ''insert'') [];
          (query1, params1) =
            (case Documents a of
               [] \<Rightarrow> (query, params)
             | d # ds \<Rightarrow>
                 (let (doc, params') =
                        foldl (\<lambda>(doc, ps) (field, val).
                                 (obj_set (Field_Path field) (placeholder (Param_Name val)) doc,
                                  ps @ [Param_Name val]))
                              ([], params) (Document_Fields d)
                  in (obj_set ''doc'' (JObject doc) query, params')))
      in toResult marshal query1 params1)"

fun couchdb_renderUpdateOps ::
  "UpdateOperation list \<Rightarrow> (string \<times> json) list \<Rightarrow> string list
     \<Rightarrow> error + ((string \<times> json) list \<times> string list)" where
  "couchdb_renderUpdateOps [] updates params = Inr (updates, params)"
| "couchdb_renderUpdateOps (op # ops) updates params =
     (if UpdateOperation_Operator op \<noteq> UpdateSet then Inl CouchDBOnlySupportsSet
      else (let (updates', params') =
                  foldl (\<lambda>(updates, ps) (field, val).
                           (obj_set (Field_Path field) (placeholder (Param_Name val)) updates,
                            ps @ [Param_Name val]))
                        (updates, params) (UpdateOperation_Fields op)
            in couchdb_renderUpdateOps ops updates' params'))"

definition couchdb_renderUpdate ::
  "(json \<Rightarrow> string option) \<Rightarrow> DocumentAST \<Rightarrow> string list \<Rightarrow> error + QueryResult" where
  "couchdb_renderUpdate marshal a params =
     (let query = obj_set ''operation'' (JString ''update'') []
      in case (if FilterClause a \<noteq> NilFilterItem
               then (case buildSelector (FilterClause a) params of
                       Inl e \<Rightarrow> Inl e
                     | Inr (selector, params') \<Rightarrow> Inr (obj_set ''selector'' selector query, params'))
               else Inr (query, params)) of
           Inl e \<Rightarrow> Inl e
         | Inr (query1, params1) \<Rightarrow>
             (case couchdb_renderUpdateOps (UpdateOps a) [] params1 of
                Inl e \<Rightarrow> Inl e
              | Inr (updates, params2) \<Rightarrow>
                  toResult marshal (obj_set ''updates'' (JObject updates) query1) params2))"

definition couchdb_renderDelete ::
  "(json \<Rightarrow> string option) \<Rightarrow> DocumentAST \<Rightarrow> string list \<Rightarrow> error + QueryResult" where
  "couchdb_renderDelete marshal a params =
     (let query = obj_set ''operation'' (JString ''delete'') []
      in case (if FilterClause a \<noteq> NilFilterItem
               then (case buildSelector (FilterClause a) params of
                       Inl e \<Rightarrow> Inl e
                     | Inr (selector, params') \<Rightarrow> Inr (obj_set ''selector'' selector query, params'))
               else Inr (query, params)) of
           Inl e \<Rightarrow> Inl e
         | Inr (query1, params1) \<Rightarrow> toResult marshal query1 params1)"

definition couchdb_Render ::
  "(json \<Rightarrow> string option) \<Rightarrow> DocumentAST \<Rightarrow> error + QueryResult" where
  "couchdb_Render marshal a =
     (case Validate a of
        Some e \<Rightarrow> Inl (InvalidAST e)
      | None \<Rightarrow>
          (if \<not> couchdb_SupportsOperation (Operation a)
           then Inl (ProviderDoesNotSupportOperation (Operation a))
           else if Operation a = OpFind \<or> Operation a = OpFindOne
           then couchdb_renderFind marshal a []
           else if Operation a = OpInsert then couchdb_renderInsert marshal a []
           else if Operation a = OpUpdate then couchdb_renderUpdate marshal a []
           else if Operation a = OpDelete then couchdb_renderDelete marshal a []
           else Inl (UnsupportedOperation (Operation a))))"

section \<open>The DynamoDB renderer (package dynamodb)\<close>

text \<open>
  The renderer's fields \<^verbatim>\<open>PartitionKey\<close> and \<^verbatim>\<open>SortKey\<close> are set but never read by the
  rendering code, so the functions take no receiver. \<open>itoa\<close> is the verb \<^verbatim>\<open>%d\<close> of
  \<^verbatim>\<open>fmt.Sprintf\<close> on the counters, which start at 0 and only count up.
\<close>

definition digitChar :: "nat \<Rightarrow> char" where
  "digitChar d = char_of (48 + d)"

function itoa :: "nat \<Rightarrow> string" where
  "itoa n = (if n < 10 then [digitChar n] else itoa (n div 10) @ [digitChar (n mod 10)])"
  by pat_completeness auto
termination
  by (relation "measure (\<lambda>n. n)") auto

declare itoa.simps [simp del]

text \<open>
  The closures \<^verbatim>\<open>getName\<close> and \<^verbatim>\<open>getValue\<close> of \<^verbatim>\<open>renderQuery\<close> and \<^verbatim>\<open>renderUpdateItem\<close> share
  two maps, two counters and the parameter list \<^verbatim>\<open>*params\<close> (here \<open>paramNames\<close>): the state
  they update.
\<close>

record exprState =
  attrNames :: "(string \<times> json) list"
  attrValues :: "(string \<times> json) list"
  nameCounter :: nat
  valueCounter :: nat
  paramNames :: "string list"

definition getName :: "string \<Rightarrow> exprState \<Rightarrow> string \<times> exprState" where
  "getName field st =
     (let key = ''#n'' @ itoa (nameCounter st)
      in (key, st\<lparr>nameCounter := nameCounter st + 1,
                  attrNames := obj_set key (JString field) (attrNames st)\<rparr>))"

definition getValue :: "string \<Rightarrow> exprState \<Rightarrow> string \<times> exprState" where
  "getValue param st =
     (let key = '':v'' @ itoa (valueCounter st)
      in (key, st\<lparr>valueCounter := valueCounter st + 1,
                  attrValues := obj_set key (placeholder param) (attrValues st),
                  paramNames := paramNames st @ [param]\<rparr>))"

definition dynamodb_mapOperator :: "FilterOperator \<Rightarrow> string" where
  "dynamodb_mapOperator op =
     (if op = OpEQ then ''=''
      else if op = OpNE then ''<>''
      else if op = OpGT then ''>''
      else if op = OpGTE then ''>=''
      else if op = OpLT then ''<''
      else if op = OpLTE then ''<=''
      else [])"

text \<open>
  The loop \<^verbatim>\<open>result = fmt.Sprintf("%s %s %s", result, logic, exprs[i])\<close> over the rendered
  children, from the first one on. It starts from \<^verbatim>\<open>exprs[0]\<close>, which exists because the
  group has a child and every child left an entry; an empty \<^verbatim>\<open>exprs\<close> is kept as the panic
  the index would raise.
\<close>

fun joinExprs :: "string \<Rightarrow> string \<Rightarrow> string list \<Rightarrow> string" where
  "joinExprs logic result [] = result"
| "joinExprs logic result (e # es) = joinExprs logic (result @ '' '' @ logic @ '' '' @ e) es"

fun buildFilterExpression :: "FilterItem \<Rightarrow> exprState \<Rightarrow> error + (string \<times> exprState)"
  and buildFilterExpressions ::
    "FilterItem list \<Rightarrow> string list \<Rightarrow> exprState \<Rightarrow> error + (string list \<times> exprState)" where
  "buildFilterExpression (FilterCondition field operator val) st =
     (let (nameKey, st1) = getName (Field_Path field) st;
          (valueKey, st2) = getValue (Param_Name val) st1;
          op = dynamodb_mapOperator operator
      in if op = [] then Inl (ProviderDoesNotSupportFilterOperator operator)
         else Inr (nameKey @ '' '' @ op @ '' '' @ valueKey, st2))"
| "buildFilterExpression (FilterGroup logic conditions) st =
     (if length conditions = 0 then Inr ([], st)
      else (case buildFilterExpressions conditions [] st of
              Inl e \<Rightarrow> Inl e
            | Inr (exprs, st') \<Rightarrow>
                (case exprs of
                   [] \<Rightarrow> Inl PanicIndexOutOfRange
                 | first # others \<Rightarrow>
                     Inr (joinExprs (if logic = LogicOR then ''OR'' else ''AND'') first others,
                          st'))))"
| "buildFilterExpression (ExistsFilter field ex) st =
     (let (nameKey, st1) = getName (Field_Path field) st
      in if ex then Inr (''attribute_exists('' @ nameKey @ '')'', st1)
         else Inr (''attribute_not_exists('' @ nameKey @ '')'', st1))"
| "buildFilterExpression NilFilterItem st = Inl ProviderDoesNotSupportFilterType"
| "buildFilterExpression (RangeFilter field minP maxP minExclusive maxExclusive) st =
     Inl ProviderDoesNotSupportFilterType"
| "buildFilterExpression (RegexFilter field pattern options) st =
     Inl ProviderDoesNotSupportFilterType"
| "buildFilterExpression (TextSearchFilter search language cs ds) st =
     Inl ProviderDoesNotSupportFilterType"
| "buildFilterExpression (GeoFilter field operator lon lat radius maxD minD) st =
     Inl ProviderDoesNotSupportFilterType"
| "buildFilterExpression (ArrayFilter field operator val) st =
     Inl ProviderDoesNotSupportFilterType"
| "buildFilterExpression (ElemMatchFilter field conditions) st =
     Inl ProviderDoesNotSupportFilterType"
| "buildFilterExpression OtherFilterItem st = Inl ProviderDoesNotSupportFilterType"
| "buildFilterExpressions [] exprs st = Inr (exprs, st)"
| "buildFilterExpressions (c # cs) exprs st =
     (case buildFilterExpression c st of
        Inl e \<Rightarrow> Inl e
      | Inr (expr, st') \<Rightarrow> buildFilterExpressions cs (exprs @ [''('' @ expr @ '')'']) st')"

definition dynamodb_SupportsOperation :: "Operation \<Rightarrow> bool" where
  "dynamodb_SupportsOperation op =
     (op = OpFind \<or> op = OpFindOne \<or> op = OpInsert \<or> op = OpUpdate \<or> op = OpDelete)"

text \<open>The loops \<^verbatim>\<open>if i > 0 { s += ", " }; s += expr\<close> over a slice of strings.\<close>

fun joinComma :: "string list \<Rightarrow> string" where
  "joinComma [] = []"
| "joinComma [e] = e"
| "joinComma (e # es) = e @ '', '' @ joinComma es"

text \<open>
  The projection loop of \<^verbatim>\<open>renderQuery\<close>: the separator depends on the index \<^verbatim>\<open>i\<close> of the
  field in \<^verbatim>\<open>Projection.Fields\<close>, not on whether something was written before.
\<close>

fun dynamodb_projExpr ::
  "nat \<Rightarrow> ProjectionField list \<Rightarrow> string \<Rightarrow> exprState \<Rightarrow> string \<times> exprState" where
  "dynamodb_projExpr i [] projExpr st = (projExpr, st)"
| "dynamodb_projExpr i (f # fs) projExpr st =
     (if ProjectionField_Include f
      then (let projExpr1 = (if i > 0 then projExpr @ '', '' else projExpr);
                (key, st1) = getName (Field_Path (ProjectionField_Field f)) st
            in dynamodb_projExpr (i + 1) fs (projExpr1 @ key) st1)
      else dynamodb_projExpr (i + 1) fs projExpr st)"

text \<open>
  \<^verbatim>\<open>renderQuery\<close> stores the map \<^verbatim>\<open>attrNames\<close> in the query, if it is non-empty, before the
  projection loop adds further names to it. A Go map is a reference, so the names added
  later are in the stored map as well: the query gets the key when the map is non-empty
  after the filter, and the value is the map as it is at the end.
\<close>

definition dynamodb_renderQuery ::
  "(json \<Rightarrow> string option) \<Rightarrow> DocumentAST \<Rightarrow> string list \<Rightarrow> error + QueryResult" where
  "dynamodb_renderQuery marshal a ps =
     (let query = obj_set ''TableName'' (JString (Collection_Name (Target a))) [];
          st = \<lparr>attrNames = [], attrValues = [], nameCounter = 0, valueCounter = 0,
                paramNames = ps\<rparr>
      in case (if FilterClause a \<noteq> NilFilterItem
               then (case buildFilterExpression (FilterClause a) st of
                       Inl e \<Rightarrow> Inl e
                     | Inr (expr, st') \<Rightarrow>
                         Inr (obj_set ''FilterExpression'' (JString expr) query, st'))
               else Inr (query, st)) of
           Inl e \<Rightarrow> Inl e
         | Inr (query1, st1) \<Rightarrow>
             (let namesStored = (length (attrNames st1) > 0);
                  query2 = (if length (attrValues st1) > 0
                            then obj_set ''ExpressionAttributeValues'' (JObject (attrValues st1))
                                   query1
                            else query1);
                  (query3, ps3) = renderPagination ''Limit'' (Limit a) (query2, paramNames st1);
                  st3 = st1\<lparr>paramNames := ps3\<rparr>;
                  (query4, st4) =
                    (case Projection a of
                       None \<Rightarrow> (query3, st3)
                     | Some p \<Rightarrow>
                         (let (projExpr, st') = dynamodb_projExpr 0 (Fields p) [] st3
                          in if projExpr \<noteq> []
                             then (obj_set ''ProjectionExpression'' (JString projExpr) query3, st')
                             else (query3, st')));
                  query5 = (if namesStored
                            then obj_set ''ExpressionAttributeNames'' (JObject (attrNames st4))
                                   query4
                            else query4)
              in toResult marshal query5 (paramNames st4)))"

definition dynamodb_renderPutItem ::
  "(json \<Rightarrow> string option) \<Rightarrow> DocumentAST \<Rightarrow> string list \<Rightarrow> error + QueryResult" where
  "dynamodb_renderPutItem marshal a ps =
     (let query = obj_set ''TableName'' (JString (Collection_Name (Target a))) [];
          (query1, ps1) =
            (case Documents a of
               [] \<Rightarrow> (query, ps)
             | d # ds \<Rightarrow>
                 (let (item, ps') =
                        foldl (\<lambda>(item, ps) (field, val).
                                 (obj_set (Field_Path field) (placeholder (Param_Name val)) item,
                                  ps @ [Param_Name val]))
                              ([], ps) (Document_Fields d)
                  in (obj_set ''Item'' (JObject item) query, ps')))
      in toResult marshal query1 ps1)"

text \<open>
  The loop of \<^verbatim>\<open>renderUpdateItem\<close> over \<^verbatim>\<open>UpdateOps\<close>; its state is that of the closures
  together with the slices \<^verbatim>\<open>setExprs\<close> and \<^verbatim>\<open>removeExprs\<close>.
\<close>

fun dynamodb_renderUpdateOps ::
  "UpdateOperation list \<Rightarrow> exprState \<times> string list \<times> string list
     \<Rightarrow> error + (exprState \<times> string list \<times> string list)" where
  "dynamodb_renderUpdateOps [] acc = Inr acc"
| "dynamodb_renderUpdateOps (op # ops) acc =
     (if UpdateOperation_Operator op = UpdateSet \<or> UpdateOperation_Operator op = UpdateInc
      then dynamodb_renderUpdateOps ops
             (foldl (\<lambda>(st, setExprs, removeExprs) (field, val).
                       (let (nameKey, st1) = getName (Field_Path field) st;
                            (valueKey, st2) = getValue (Param_Name val) st1
                        in if UpdateOperation_Operator op = UpdateInc
                           then (st2,
                                 setExprs @ [nameKey @ '' = '' @ nameKey @ '' + '' @ valueKey],
                                 removeExprs)
                           else (st2, setExprs @ [nameKey @ '' = '' @ valueKey], removeExprs)))
                    acc (UpdateOperation_Fields op))
      else if UpdateOperation_Operator op = UpdateUnset
      then dynamodb_renderUpdateOps ops
             (foldl (\<lambda>(st, setExprs, removeExprs) (field, val).
                       (let (nameKey, st1) = getName (Field_Path field) st
                        in (st1, setExprs, removeExprs @ [nameKey])))
                    acc (UpdateOperation_Fields op))
      else Inl (ProviderDoesNotSupportUpdateOperator (UpdateOperation_Operator op)))"

definition dynamodb_renderUpdateItem ::
  "(json \<Rightarrow> string option) \<Rightarrow> DocumentAST \<Rightarrow> string list \<Rightarrow> error + QueryResult" where
  "dynamodb_renderUpdateItem marshal a ps =
     (let query = obj_set ''TableName'' (JString (Collection_Name (Target a))) [];
          st = \<lparr>attrNames = [], attrValues = [], nameCounter = 0, valueCounter = 0,
                paramNames = ps\<rparr>
      in case dynamodb_renderUpdateOps (UpdateOps a) (st, [], []) of
           Inl e \<Rightarrow> Inl e
         | Inr (st1, setExprs, removeExprs) \<Rightarrow>
             (let updateExpr1 = (if length setExprs > 0 then ''SET '' @ joinComma setExprs
                                 else []);
                  updateExpr2 = (if length removeExprs > 0
                                 then (if updateExpr1 \<noteq> [] then updateExpr1 @ '' ''
                                       else updateExpr1)
                                      @ ''REMOVE '' @ joinComma removeExprs
                                 else updateExpr1);
                  query1 = obj_set ''UpdateExpression'' (JString updateExpr2) query;
                  query2 = (if length (attrNames st1) > 0
                            then obj_set ''ExpressionAttributeNames'' (JObject (attrNames st1))
                                   query1
                            else query1);
                  query3 = (if length (attrValues st1) > 0
                            then obj_set ''ExpressionAttributeValues'' (JObject (attrValues st1))
                                   query2
                            else query2)
              in toResult marshal query3 (paramNames st1)))"

definition dynamodb_renderDeleteItem ::
  "(json \<Rightarrow> string option) \<Rightarrow> DocumentAST \<Rightarrow> string list \<Rightarrow> error + QueryResult" where
  "dynamodb_renderDeleteItem marshal a ps =
     toResult marshal (obj_set ''TableName'' (JString (Collection_Name (Target a))) []) ps"

definition dynamodb_Render ::
  "(json \<Rightarrow> string option) \<Rightarrow> DocumentAST \<Rightarrow> error + QueryResult" where
  "dynamodb_Render marshal a =
     (case Validate a of
        Some e \<Rightarrow> Inl (InvalidAST e)
      | None \<Rightarrow>
          (if \<not> dynamodb_SupportsOperation (Operation a)
           then Inl (ProviderDoesNotSupportOperation (Operation a))
           else if Operation a = OpFind \<or> Operation a = OpFindOne
           then dynamodb_renderQuery marshal a []
           else if Operation a = OpInsert then dynamodb_renderPutItem marshal a []
           else if Operation a = OpUpdate then dynamodb_renderUpdateItem marshal a []
           else if Operation a = OpDelete then dynamodb_renderDeleteItem marshal a []
           else Inl (UnsupportedOperation (Operation a))))"

section \<open>Notions the specification uses\<close>

subsection \<open>Suspicious characters\<close>

text \<open>
  The specification speaks of whitespace and of quote characters. Whitespace below 0x80 is
  tab, line feed, vertical tab, form feed, carriage return and space; the quote characters
  are the single quote, the double quote and the backtick.
\<close>

definition isWhitespace :: "char \<Rightarrow> bool" where
  "isWhitespace r = ((of_char r :: nat) \<in> {9, 10, 11, 12, 13, 32})"

definition isQuote :: "char \<Rightarrow> bool" where
  "isQuote r = (r = CHR 0x27 \<or> r = CHR 0x22 \<or> r = CHR 0x60)"

subsection \<open>Two renderings of one AST\<close>

text \<open>
  Two invocations of \<^verbatim>\<open>Render\<close> on one AST read the same Go maps, each in an order of its
  own. The renderers range over the field map of a document, the field map of an update
  operation, the accumulators of a \<^verbatim>\<open>$group\<close> stage and the fields of an \<^verbatim>\<open>$addFields\<close> stage;
  \<open>same_ast\<close> relates two views of one AST that differ at most in the order of those maps.
  The maps no renderer ranges over are compared as they are.
\<close>

definition same_Document :: "Document \<Rightarrow> Document \<Rightarrow> bool" where
  "same_Document d1 d2 = same_map (Document_Fields d1) (Document_Fields d2)"

definition same_UpdateOperation :: "UpdateOperation \<Rightarrow> UpdateOperation \<Rightarrow> bool" where
  "same_UpdateOperation u1 u2 =
     (UpdateOperation_Operator u1 = UpdateOperation_Operator u2
      \<and> same_map (UpdateOperation_Fields u1) (UpdateOperation_Fields u2))"

fun same_stage :: "PipelineStage \<Rightarrow> PipelineStage \<Rightarrow> bool" where
  "same_stage (GroupStage id1 acc1) (GroupStage id2 acc2) = (id1 = id2 \<and> same_map acc1 acc2)"
| "same_stage (AddFieldsStage fs1) (AddFieldsStage fs2) = same_map fs1 fs2"
| "same_stage s1 s2 = (s1 = s2)"

definition same_ast :: "DocumentAST \<Rightarrow> DocumentAST \<Rightarrow> bool" where
  "same_ast a1 a2 =
     (Operation a1 = Operation a2 \<and> Target a1 = Target a2
      \<and> FilterClause a1 = FilterClause a2 \<and> Projection a1 = Projection a2
      \<and> SortClauses a1 = SortClauses a2 \<and> Skip a1 = Skip a2 \<and> Limit a1 = Limit a2
      \<and> list_all2 same_Document (Documents a1) (Documents a2)
      \<and> list_all2 same_UpdateOperation (UpdateOps a1) (UpdateOps a2)
      \<and> Upsert a1 = Upsert a2
      \<and> list_all2 same_stage (Pipeline a1) (Pipeline a2)
      \<and> DistinctField a1 = DistinctField a2)"

text \<open>
  What two renderings of one AST can be compared by. \<open>keys_sorted\<close> is the invariant of the
  query documents: entries in ascending order of the keys. Two fields of different
  collections may have the same path, and every renderer keys its output by the path alone;
  \<open>distinct_field_paths\<close> says that no document and no update operation of the AST has two
  such fields. \<open>same_output\<close> relates two results that are the same error, or have the same
  JSON and the same required parameters up to their order (as multisets); \<open>same_params\<close>
  compares only the parameters. \<open>same_state\<close> and \<open>same_params_state\<close> are the same relations
  on the intermediate results of the renderers.
\<close>

definition keys_sorted :: "(string \<times> json) list \<Rightarrow> bool" where
  "keys_sorted m = sorted_wrt key_less (map fst m)"

definition distinct_paths :: "(Field, Param) gomap \<Rightarrow> bool" where
  "distinct_paths m = distinct (map (\<lambda>e. Field_Path (fst e)) m)"

definition distinct_field_paths :: "DocumentAST \<Rightarrow> bool" where
  "distinct_field_paths a =
     (list_all (\<lambda>d. distinct_paths (Document_Fields d)) (Documents a)
      \<and> list_all (\<lambda>u. distinct_paths (UpdateOperation_Fields u)) (UpdateOps a))"

definition same_params :: "error + QueryResult \<Rightarrow> error + QueryResult \<Rightarrow> bool" where
  "same_params r1 r2 =
     (case r1 of
        Inl e1 \<Rightarrow> r2 = Inl e1
      | Inr q1 \<Rightarrow> (case r2 of
                     Inl e2 \<Rightarrow> False
                   | Inr q2 \<Rightarrow> mset (RequiredParams q1) = mset (RequiredParams q2)))"

definition same_output :: "error + QueryResult \<Rightarrow> error + QueryResult \<Rightarrow> bool" where
  "same_output r1 r2 =
     (case r1 of
        Inl e1 \<Rightarrow> r2 = Inl e1
      | Inr q1 \<Rightarrow> (case r2 of
                     Inl e2 \<Rightarrow> False
                   | Inr q2 \<Rightarrow> JSON q1 = JSON q2
                              \<and> mset (RequiredParams q1) = mset (RequiredParams q2)))"

definition same_state :: "error + ('a \<times> string list) \<Rightarrow> error + ('a \<times> string list) \<Rightarrow> bool" where
  "same_state r1 r2 =
     (case r1 of
        Inl e1 \<Rightarrow> r2 = Inl e1
      | Inr s1 \<Rightarrow> (case r2 of
                     Inl e2 \<Rightarrow> False
                   | Inr s2 \<Rightarrow> fst s1 = fst s2 \<and> mset (snd s1) = mset (snd s2)))"

definition same_params_state ::
  "error + (exprState \<times> 'a) \<Rightarrow> error + (exprState \<times> 'a) \<Rightarrow> bool" where
  "same_params_state r1 r2 =
     (case r1 of
        Inl e1 \<Rightarrow> r2 = Inl e1
      | Inr s1 \<Rightarrow> (case r2 of
                     Inl e2 \<Rightarrow> False
                   | Inr s2 \<Rightarrow> mset (paramNames (fst s1)) = mset (paramNames (fst s2))))"

text \<open>No map that a renderer ranges over has more than one entry.\<close>

fun single_entry_stage :: "PipelineStage \<Rightarrow> bool" where
  "single_entry_stage (GroupStage ident accumulators) = (length accumulators \<le> 1)"
| "single_entry_stage (AddFieldsStage fs) = (length fs \<le> 1)"
| "single_entry_stage s = True"

definition single_entry_maps :: "DocumentAST \<Rightarrow> bool" where
  "single_entry_maps a =
     (list_all (\<lambda>d. length (Document_Fields d) \<le> 1) (Documents a)
      \<and> list_all (\<lambda>u. length (UpdateOperation_Fields u) \<le> 1) (UpdateOps a)
      \<and> list_all single_entry_stage (Pipeline a))"

subsection \<open>A serializer to run examples with\<close>

text \<open>
  \<open>marshalPlain\<close> writes a query document the way \<^verbatim>\<open>json.Marshal\<close> does when no string in it
  needs escaping: compact, object keys in ascending order. The examples below render
  with it; the general statements hold for every \<open>marshal\<close>.
\<close>

definition itoa_int :: "int \<Rightarrow> string" where
  "itoa_int i = (if i < 0 then ''-'' @ itoa (nat (- i)) else itoa (nat i))"

definition quoted :: "string \<Rightarrow> string" where
  "quoted s = [CHR 0x22] @ s @ [CHR 0x22]"

fun encodeJSON :: "json \<Rightarrow> string"
  and encodeElems :: "json list \<Rightarrow> string"
  and encodeEntries :: "(string \<times> json) list \<Rightarrow> string" where
  "encodeJSON JNull = ''null''"
| "encodeJSON (JBool b) = (if b then ''true'' else ''false'')"
| "encodeJSON (JInt i) = itoa_int i"
| "encodeJSON (JString s) = quoted s"
| "encodeJSON (JArray xs) = ''['' @ encodeElems xs @ '']''"
| "encodeJSON (JObject m) = ''{'' @ encodeEntries m @ ''}''"
| "encodeElems [] = []"
| "encodeElems (x # xs) = encodeJSON x @ (if xs = [] then [] else '','' @ encodeElems xs)"
| "encodeEntries [] = []"
| "encodeEntries ((k, v) # m) =
     quoted k @ '':'' @ encodeJSON v @ (if m = [] then [] else '','' @ encodeEntries m)"

definition marshalPlain :: "json \<Rightarrow> string option" where
  "marshalPlain j = Some (encodeJSON j)"

section \<open>Verified properties\<close>

subsection \<open>Auxiliary facts\<close>

lemma Operation_neq [simp]:
  "OpFind \<noteq> OpFindOne" "OpFind \<noteq> OpInsert" "OpFind \<noteq> OpInsertMany" "OpFind \<noteq> OpUpdate" "OpFind \<noteq> OpUpdateMany" "OpFind \<noteq> OpDelete" "OpFind \<noteq> OpDeleteMany" "OpFind \<noteq> OpAggregate" "OpFind \<noteq> OpCount" "OpFind \<noteq> OpDistinct"
  "OpFindOne \<noteq> OpFind" "OpFindOne \<noteq> OpInsert" "OpFindOne \<noteq> OpInsertMany" "OpFindOne \<noteq> OpUpdate" "OpFindOne \<noteq> OpUpdateMany" "OpFindOne \<noteq> OpDelete" "OpFindOne \<noteq> OpDeleteMany" "OpFindOne \<noteq> OpAggregate" "OpFindOne \<noteq> OpCount" "OpFindOne \<noteq> OpDistinct"
  "OpInsert \<noteq> OpFind" "OpInsert \<noteq> OpFindOne" "OpInsert \<noteq> OpInsertMany" "OpInsert \<noteq> OpUpdate" "OpInsert \<noteq> OpUpdateMany" "OpInsert \<noteq> OpDelete" "OpInsert \<noteq> OpDeleteMany" "OpInsert \<noteq> OpAggregate" "OpInsert \<noteq> OpCount" "OpInsert \<noteq> OpDistinct"
  "OpInsertMany \<noteq> OpFind" "OpInsertMany \<noteq> OpFindOne" "OpInsertMany \<noteq> OpInsert" "OpInsertMany \<noteq> OpUpdate" "OpInsertMany \<noteq> OpUpdateMany" "OpInsertMany \<noteq> OpDelete" "OpInsertMany \<noteq> OpDeleteMany" "OpInsertMany \<noteq> OpAggregate" "OpInsertMany \<noteq> OpCount" "OpInsertMany \<noteq> OpDistinct"
  "OpUpdate \<noteq> OpFind" "OpUpdate \<noteq> OpFindOne" "OpUpdate \<noteq> OpInsert" "OpUpdate \<noteq> OpInsertMany" "OpUpdate \<noteq> OpUpdateMany" "OpUpdate \<noteq> OpDelete" "OpUpdate \<noteq> OpDeleteMany" "OpUpdate \<noteq> OpAggregate" "OpUpdate \<noteq> OpCount" "OpUpdate \<noteq> OpDistinct"
  "OpUpdateMany \<noteq> OpFind" "OpUpdateMany \<noteq> OpFindOne" "OpUpdateMany \<noteq> OpInsert" "OpUpdateMany \<noteq> OpInsertMany" "OpUpdateMany \<noteq> OpUpdate" "OpUpdateMany \<noteq> OpDelete" "OpUpdateMany \<noteq> OpDeleteMany" "OpUpdateMany \<noteq> OpAggregate" "OpUpdateMany \<noteq> OpCount" "OpUpdateMany \<noteq> OpDistinct"
  "OpDelete \<noteq> OpFind" "OpDelete \<noteq> OpFindOne" "OpDelete \<noteq> OpInsert" "OpDelete \<noteq> OpInsertMany" "OpDelete \<noteq> OpUpdate" "OpDelete \<noteq> OpUpdateMany" "OpDelete \<noteq> OpDeleteMany" "OpDelete \<noteq> OpAggregate" "OpDelete \<noteq> OpCount" "OpDelete \<noteq> OpDistinct"
  "OpDeleteMany \<noteq> OpFind" "OpDeleteMany \<noteq> OpFindOne" "OpDeleteMany \<noteq> OpInsert" "OpDeleteMany \<noteq> OpInsertMany" "OpDeleteMany \<noteq> OpUpdate" "OpDeleteMany \<noteq> OpUpdateMany" "OpDeleteMany \<noteq> OpDelete" "OpDeleteMany \<noteq> OpAggregate" "OpDeleteMany \<noteq> OpCount" "OpDeleteMany \<noteq> OpDistinct"
  "OpAggregate \<noteq> OpFind" "OpAggregate \<noteq> OpFindOne" "OpAggregate \<noteq> OpInsert" "OpAggregate \<noteq> OpInsertMany" "OpAggregate \<noteq> OpUpdate" "OpAggregate \<noteq> OpUpdateMany" "OpAggregate \<noteq> OpDelete" "OpAggregate \<noteq> OpDeleteMany" "OpAggregate \<noteq> OpCount" "OpAggregate \<noteq> OpDistinct"
  "OpCount \<noteq> OpFind" "OpCount \<noteq> OpFindOne" "OpCount \<noteq> OpInsert" "OpCount \<noteq> OpInsertMany" "OpCount \<noteq> OpUpdate" "OpCount \<noteq> OpUpdateMany" "OpCount \<noteq> OpDelete" "OpCount \<noteq> OpDeleteMany" "OpCount \<noteq> OpAggregate" "OpCount \<noteq> OpDistinct"
  "OpDistinct \<noteq> OpFind" "OpDistinct \<noteq> OpFindOne" "OpDistinct \<noteq> OpInsert" "OpDistinct \<noteq> OpInsertMany" "OpDistinct \<noteq> OpUpdate" "OpDistinct \<noteq> OpUpdateMany" "OpDistinct \<noteq> OpDelete" "OpDistinct \<noteq> OpDeleteMany" "OpDistinct \<noteq> OpAggregate" "OpDistinct \<noteq> OpCount"
  by (simp_all add: OpFind_def OpFindOne_def OpInsert_def OpInsertMany_def OpUpdate_def OpUpdateMany_def OpDelete_def OpDeleteMany_def OpAggregate_def OpCount_def OpDistinct_def)

lemma Validate_Find:
  "Operation a = OpFind \<or> Operation a = OpFindOne \<Longrightarrow>
   Validate a = (if Collection_Name (Target a) = [] then Some TargetCollectionRequired
                 else validateFind a)"
  by (auto simp add: Validate_def)

lemma Validate_Insert:
  "Operation a = OpInsert \<Longrightarrow>
   Validate a = (if Collection_Name (Target a) = [] then Some TargetCollectionRequired
                 else validateInsert a)"
  by (simp add: Validate_def)

lemma Validate_Update:
  "Operation a = OpUpdate \<Longrightarrow>
   Validate a = (if Collection_Name (Target a) = [] then Some TargetCollectionRequired
                 else validateUpdate a)"
  by (simp add: Validate_def)

lemma Validate_UpdateMany:
  "Operation a = OpUpdateMany \<Longrightarrow>
   Validate a = (if Collection_Name (Target a) = [] then Some TargetCollectionRequired
                 else validateUpdateMany a)"
  by (simp add: Validate_def)

lemma Validate_DeleteMany:
  "Operation a = OpDeleteMany \<Longrightarrow>
   Validate a = (if Collection_Name (Target a) = [] then Some TargetCollectionRequired
                 else validateDeleteMany a)"
  by (simp add: Validate_def)

lemma validFirst_validRest: "validFirst r \<Longrightarrow> validRest r"
  by (auto simp: validFirst_def validRest_def)

lemma validChars_all: "validChars s \<Longrightarrow> r \<in> set s \<Longrightarrow> validRest r"
  by (cases s) (auto simp: list_all_iff validFirst_validRest)

lemma isValidIdentifier_chars: "isValidIdentifier s \<Longrightarrow> r \<in> set s \<Longrightarrow> validRest r"
  using validChars_all by (auto simp: isValidIdentifier_def split: if_splits)

lemma not_valid_whitespace: "isWhitespace r \<Longrightarrow> \<not> validRest r"
  by (auto simp: isWhitespace_def validRest_def isLowerLetter_def isUpperLetter_def
      isDigit_def underscore_def)

lemma not_valid_quote: "isQuote r \<Longrightarrow> \<not> validRest r"
  by (auto simp: isQuote_def validRest_def isLowerLetter_def isUpperLetter_def
      isDigit_def underscore_def)

lemma not_valid_semicolon: "\<not> validRest (CHR '';'')"
  by (simp add: validRest_def isLowerLetter_def isUpperLetter_def isDigit_def underscore_def)

lemma not_valid_dash: "\<not> validRest (CHR ''-'')"
  by (simp add: validRest_def isLowerLetter_def isUpperLetter_def isDigit_def underscore_def)

lemma not_valid_slash: "\<not> validRest (CHR ''/'')"
  by (simp add: validRest_def isLowerLetter_def isUpperLetter_def isDigit_def underscore_def)

lemma Contains_first_mem: "Contains s (r # rs) \<Longrightarrow> r \<in> set s"
  by (auto simp: Contains_def sublist_def)

lemma isValidIdentifier_no_pattern:
  "isValidIdentifier s \<Longrightarrow> pattern \<in> set suspiciousPatterns \<Longrightarrow>
   \<not> Contains (ToLower s) pattern"
  by (auto simp: isValidIdentifier_def list_ex_iff split: if_splits)

lemma addOrMerge_absent:
  "\<forall>u \<in> set ops. UpdateOperation_Operator u \<noteq> op \<Longrightarrow>
   addOrMergeUpdateOps op field val ops = ops @ [UpdateOperation op [(field, val)]]"
  by (induction ops) auto

lemma addOrMerge_last:
  "\<forall>u \<in> set ops. UpdateOperation_Operator u \<noteq> op \<Longrightarrow>
   addOrMergeUpdateOps op field val (ops @ [UpdateOperation op m])
     = ops @ [UpdateOperation op (gomap_set field val m)]"
  by (induction ops) auto

subsection \<open>Logic groups in the Firestore dialect\<close>

text \<open>
  C1 claims that the Firestore dialect renders a group whose logic value is not a recognised
  operator as if it were AND, without an error. The code compares the logic value with AND
  and returns an error for every other value, recognised or not. What holds instead: every
  group whose logic value differs from AND makes \<^verbatim>\<open>buildWheres\<close> fail, and with it the
  rendering of a find operation filtered by that group.
\<close>

theorem C1_firestore_group_other_than_AND_fails:
  assumes "logic \<noteq> LogicAND"
  shows "firestore_buildWheres (FilterGroup logic conditions) ps = Inl FirestoreOnlySupportsAND
       \<and> (Validate a = None \<and> (Operation a = OpFind \<or> Operation a = OpFindOne)
            \<and> FilterClause a = FilterGroup logic conditions
          \<longrightarrow> firestore_Render marshal a = Inl FirestoreOnlySupportsAND)"
proof -
  have 1: "firestore_buildWheres (FilterGroup logic conditions) ps = Inl FirestoreOnlySupportsAND"
    using assms by simp
  have 2: "firestore_Render marshal a = Inl FirestoreOnlySupportsAND"
    if "Validate a = None" "Operation a = OpFind \<or> Operation a = OpFindOne"
       "FilterClause a = FilterGroup logic conditions"
  proof -
    have "firestore_SupportsOperation (Operation a)"
      using that(2) by (auto simp add: firestore_SupportsOperation_def)
    moreover have "firestore_renderQuery marshal a [] = Inl FirestoreOnlySupportsAND"
      using assms that(3) by (simp add: firestore_renderQuery_def)
    ultimately show ?thesis using that(1,2) by (simp add: firestore_Render_def)
  qed
  show ?thesis using 1 2 by blast
qed

theorem C1_firestore_group_other_than_AND_fails_witness:
  "LogicOR \<noteq> LogicAND
   \<and> firestore_buildWheres
        (FilterGroup LogicOR [FilterCondition (Field ''status'' ''users'') OpEQ (Param ''status'')]) []
       = Inl FirestoreOnlySupportsAND
   \<and> Validate ((newAST OpFind (Collection ''users''))
        \<lparr>FilterClause := FilterGroup LogicOR
           [FilterCondition (Field ''status'' ''users'') OpEQ (Param ''status'')]\<rparr>) = None
   \<and> firestore_Render marshalPlain
        ((newAST OpFind (Collection ''users''))
           \<lparr>FilterClause := FilterGroup LogicOR
              [FilterCondition (Field ''status'' ''users'') OpEQ (Param ''status'')]\<rparr>)
       = Inl FirestoreOnlySupportsAND"
proof -
  let ?a = "(newAST OpFind (Collection ''users''))
        \<lparr>FilterClause := FilterGroup LogicOR
           [FilterCondition (Field ''status'' ''users'') OpEQ (Param ''status'')]\<rparr>"
  have ne: "LogicOR \<noteq> LogicAND" by (simp add: LogicOR_def LogicAND_def)
  have v: "Validate ?a = None"
    by (simp add: Validate_Find newAST_def validateFind_def orElse_def MaxSortFields_def
        MaxFilterDepth_def)
  have op: "Operation ?a = OpFind" by (simp add: newAST_def)
  show ?thesis
    using C1_firestore_group_other_than_AND_fails[OF ne, of
        "[FilterCondition (Field ''status'' ''users'') OpEQ (Param ''status'')]" "[]" ?a marshalPlain]
      ne v op by simp
qed

theorem C1_unrecognized_logic_counterexample:
  "''$xor'' \<notin> {LogicAND, LogicOR, LogicNOR, LogicNOT}
   \<and> firestore_buildWheres
        (FilterGroup ''$xor'' [FilterCondition (Field ''status'' ''users'') OpEQ (Param ''status'')]) []
       = Inl FirestoreOnlySupportsAND"
  by (simp add: LogicAND_def LogicOR_def LogicNOR_def LogicNOT_def)

subsection \<open>Safety rule of the batch operations\<close>

text \<open>
  C3 claims that an UpdateMany or DeleteMany builder fails to build when its filter clause is
  nil and builds with any non-nil filter clause. The first half holds. The second does not:
  \<^verbatim>\<open>Build\<close> also fails on a recorded construction error, on an empty target name and, for
  UpdateMany, on an empty list of update operations. What holds: without a filter clause
  \<^verbatim>\<open>Build\<close> fails; with one it returns the AST when no error is recorded, the target name
  is non-empty and an UpdateMany has at least one update operation.
\<close>

theorem C3_batch_operations_need_filter:
  assumes "Operation (ast b) = OpUpdateMany \<or> Operation (ast b) = OpDeleteMany"
  shows "(FilterClause (ast b) = NilFilterItem \<longrightarrow> (\<exists>e. Build b = Inl e))
       \<and> (FilterClause (ast b) \<noteq> NilFilterItem \<and> err b = None
            \<and> Collection_Name (Target (ast b)) \<noteq> []
            \<and> (Operation (ast b) = OpUpdateMany \<longrightarrow> UpdateOps (ast b) \<noteq> [])
          \<longrightarrow> Build b = Inr (ast b))"
proof -
  from assms show ?thesis
  proof
    assume op: "Operation (ast b) = OpUpdateMany"
    show ?thesis
      by (cases "err b")
         (simp_all add: Build_def Validate_UpdateMany[OF op] validateUpdateMany_def op)
  next
    assume op: "Operation (ast b) = OpDeleteMany"
    show ?thesis
      by (cases "err b")
         (simp_all add: Build_def Validate_DeleteMany[OF op] validateDeleteMany_def op)
  qed
qed

theorem C3_batch_operations_need_filter_witness:
  "Build (Builder_Filter (FilterCondition (Field ''status'' ''users'') OpEQ (Param ''status''))
            (DeleteMany (Collection ''users'')))
     = Inr (ast (Builder_Filter (FilterCondition (Field ''status'' ''users'') OpEQ (Param ''status''))
            (DeleteMany (Collection ''users''))))
   \<and> (\<exists>e. Build (UpdateMany (Collection ''users'')) = Inl e)"
  using C3_batch_operations_need_filter[of
      "Builder_Filter (FilterCondition (Field ''status'' ''users'') OpEQ (Param ''status''))
         (DeleteMany (Collection ''users''))"]
    C3_batch_operations_need_filter[of "UpdateMany (Collection ''users'')"]
  by (simp add: DeleteMany_def UpdateMany_def newAST_def Builder_Filter_def)

theorem C3_UpdateMany_with_filter_counterexample:
  "Operation (ast (Builder_Filter (FilterCondition (Field ''status'' ''users'') OpEQ (Param ''status''))
                     (UpdateMany (Collection ''users'')))) = OpUpdateMany
   \<and> FilterClause (ast (Builder_Filter
        (FilterCondition (Field ''status'' ''users'') OpEQ (Param ''status''))
        (UpdateMany (Collection ''users'')))) \<noteq> NilFilterItem
   \<and> Build (Builder_Filter (FilterCondition (Field ''status'' ''users'') OpEQ (Param ''status''))
              (UpdateMany (Collection ''users'')))
       = Inl UpdateManyRequiresOperation"
  by (simp add: Build_def Validate_UpdateMany validateUpdateMany_def UpdateMany_def newAST_def
      Builder_Filter_def)

subsection \<open>Parameter names\<close>

text \<open>
  C4 claims that \<^verbatim>\<open>TryP\<close> fails for every name whose lower-cased form contains a denylisted
  fragment, the fragment \<^verbatim>\<open>exec\<close> among them, and for every name with whitespace, a semicolon,
  a double dash, a comment opener or a quote character. The table of the code holds \<^verbatim>\<open>exec\<close>
  and \<^verbatim>\<open>execute\<close> only with a trailing space, so the name \<^verbatim>\<open>exec\<close> is accepted. What holds:
  \<^verbatim>\<open>TryP\<close> fails for every name whose lower-cased form contains an entry of
  \<^verbatim>\<open>suspiciousPatterns\<close> as the code has it, and for every name with one of the listed
  characters or character pairs.
\<close>

theorem C4_TryP_rejects_suspicious_names:
  assumes "(\<exists>pattern \<in> set suspiciousPatterns. Contains (ToLower name) pattern)
         \<or> (\<exists>r \<in> set name. isWhitespace r \<or> r = CHR '';'' \<or> isQuote r)
         \<or> Contains name ''--'' \<or> Contains name ''/*''"
  shows "TryP name = Inl (InvalidParameterName name)"
proof -
  have "\<not> isValidIdentifier name"
  proof
    assume v: "isValidIdentifier name"
    from assms consider
        (pat) "\<exists>pattern \<in> set suspiciousPatterns. Contains (ToLower name) pattern"
      | (chr) "\<exists>r \<in> set name. isWhitespace r \<or> r = CHR '';'' \<or> isQuote r"
      | (dash) "Contains name ''--''"
      | (com) "Contains name ''/*''"
      by blast
    then show False
    proof cases
      case pat
      with v show False using isValidIdentifier_no_pattern by blast
    next
      case chr
      then obtain r where "r \<in> set name" "isWhitespace r \<or> r = CHR '';'' \<or> isQuote r"
        by blast
      with v show False
        using isValidIdentifier_chars not_valid_whitespace not_valid_quote not_valid_semicolon
        by blast
    next
      case dash
      then have "CHR ''-'' \<in> set name" by (rule Contains_first_mem)
      with v show False using isValidIdentifier_chars not_valid_dash by blast
    next
      case com
      then have "CHR ''/'' \<in> set name" by (rule Contains_first_mem)
      with v show False using isValidIdentifier_chars not_valid_slash by blast
    qed
  qed
  then show ?thesis by (simp add: TryP_def)
qed

theorem C4_TryP_rejects_suspicious_names_witness:
  "TryP ''a union b'' = Inl (InvalidParameterName ''a union b'')
   \<and> TryP ''id--'' = Inl (InvalidParameterName ''id--'')"
proof -
  have 1: "\<exists>pattern \<in> set suspiciousPatterns. Contains (ToLower ''a union b'') pattern"
    by code_simp
  have 2: "Contains ''id--'' ''--''"
    by code_simp
  show ?thesis
    using C4_TryP_rejects_suspicious_names[of "''a union b''"]
      C4_TryP_rejects_suspicious_names[of "''id--''"] 1 2
    by blast
qed

theorem C4_exec_counterexample:
  "Contains (ToLower ''exec'') ''exec'' \<and> TryP ''exec'' = Inr (Param ''exec'')"
  by code_simp

subsection \<open>Revalidation before rendering\<close>

text \<open>
  C5: when structural validation of an AST fails, the \<^verbatim>\<open>Render\<close> of each of the four renderers
  returns an error (the validation error, wrapped) and no query result.
\<close>

theorem C5_Render_revalidates:
  assumes "Validate a = Some e"
  shows "mongodb_Render marshal a = Inl (InvalidAST e)
       \<and> firestore_Render marshal a = Inl (InvalidAST e)
       \<and> couchdb_Render marshal a = Inl (InvalidAST e)
       \<and> dynamodb_Render marshal a = Inl (InvalidAST e)"
  using assms
  by (simp add: mongodb_Render_def firestore_Render_def couchdb_Render_def dynamodb_Render_def)

theorem C5_Render_revalidates_witness:
  "Validate (newAST OpInsert (Collection ''users'')) = Some InsertRequiresOneDocument
   \<and> mongodb_Render marshalPlain (newAST OpInsert (Collection ''users''))
       = Inl (InvalidAST InsertRequiresOneDocument)
   \<and> firestore_Render marshalPlain (newAST OpInsert (Collection ''users''))
       = Inl (InvalidAST InsertRequiresOneDocument)
   \<and> couchdb_Render marshalPlain (newAST OpInsert (Collection ''users''))
       = Inl (InvalidAST InsertRequiresOneDocument)
   \<and> dynamodb_Render marshalPlain (newAST OpInsert (Collection ''users''))
       = Inl (InvalidAST InsertRequiresOneDocument)"
proof -
  have v: "Validate (newAST OpInsert (Collection ''users'')) = Some InsertRequiresOneDocument"
    by (simp add: Validate_Insert newAST_def validateInsert_def)
  show ?thesis
    using C5_Render_revalidates[OF v, of marshalPlain] v by simp
qed

subsection \<open>Accumulating filters\<close>

text \<open>
  C6 claims that on every builder without a recorded error two calls \<^verbatim>\<open>Filter(a)\<close>,
  \<^verbatim>\<open>Filter(b)\<close> leave the filter clause AND[a, b]. A builder that already has a filter clause
  has no recorded error either, and there the first of the two calls wraps the old clause:
  the result is AND[AND[old, a], b]. What holds: on a builder without a recorded error and
  without a filter clause, \<^verbatim>\<open>Filter(a)\<close> with a non-nil \<^verbatim>\<open>a\<close> followed by \<^verbatim>\<open>Filter(b)\<close> changes
  nothing but the filter clause, which becomes the AND group of exactly \<^verbatim>\<open>a\<close> and \<^verbatim>\<open>b\<close>.
\<close>

theorem C6_Filter_twice_is_AND_of_both:
  assumes "err b = None" and "FilterClause (ast b) = NilFilterItem" and "f1 \<noteq> NilFilterItem"
  shows "Builder_Filter f2 (Builder_Filter f1 b)
         = b\<lparr>ast := (ast b)\<lparr>FilterClause := FilterGroup LogicAND [f1, f2]\<rparr>\<rparr>"
  using assms by (simp add: Builder_Filter_def)

theorem C6_Filter_twice_is_AND_of_both_witness:
  "FilterClause (ast (Builder_Filter (ExistsFilter (Field ''email'' ''users'') True)
      (Builder_Filter (FilterCondition (Field ''status'' ''users'') OpEQ (Param ''status''))
         (Find (Collection ''users'')))))
   = FilterGroup LogicAND
       [FilterCondition (Field ''status'' ''users'') OpEQ (Param ''status''),
        ExistsFilter (Field ''email'' ''users'') True]"
proof -
  have 1: "err (Find (Collection ''users'')) = None"
    and 2: "FilterClause (ast (Find (Collection ''users''))) = NilFilterItem"
    by (simp_all add: Find_def newAST_def)
  have 3: "FilterCondition (Field ''status'' ''users'') OpEQ (Param ''status'') \<noteq> NilFilterItem"
    by simp
  show ?thesis
    using C6_Filter_twice_is_AND_of_both[OF 1 2 3, of "ExistsFilter (Field ''email'' ''users'') True"]
    by simp
qed

theorem C6_existing_filter_counterexample:
  "err (Builder_Filter (ExistsFilter (Field ''age'' ''users'') True) (Find (Collection ''users'')))
     = None
   \<and> FilterClause (ast (Builder_Filter (ExistsFilter (Field ''email'' ''users'') True)
        (Builder_Filter (FilterCondition (Field ''status'' ''users'') OpEQ (Param ''status''))
           (Builder_Filter (ExistsFilter (Field ''age'' ''users'') True)
              (Find (Collection ''users''))))))
     = FilterGroup LogicAND
         [FilterGroup LogicAND
            [ExistsFilter (Field ''age'' ''users'') True,
             FilterCondition (Field ''status'' ''users'') OpEQ (Param ''status'')],
          ExistsFilter (Field ''email'' ''users'') True]"
  by (simp add: Builder_Filter_def Find_def newAST_def)

subsection \<open>Merging update operations\<close>

text \<open>
  C7 claims that on every Update or UpdateMany builder without a recorded error, \<^verbatim>\<open>Set\<close> on
  two distinct fields leaves exactly one \<^verbatim>\<open>$set\<close> operation with two field entries. A builder
  that already has a \<^verbatim>\<open>$set\<close> operation gets the two fields merged into it, and the operation
  then has more than two entries. What holds: on an Update or UpdateMany builder without a
  recorded error and without a \<^verbatim>\<open>$set\<close> operation, the two calls append one operation to
  \<^verbatim>\<open>UpdateOps\<close>; it is the only \<^verbatim>\<open>$set\<close> operation and maps exactly the two fields.
\<close>

theorem C7_Set_twice_is_one_operation:
  assumes "isUpdateOperation b" and "err b = None"
    and "\<forall>u \<in> set (UpdateOps (ast b)). UpdateOperation_Operator u \<noteq> UpdateSet"
    and "fieldA \<noteq> fieldB"
  shows "err (Builder_Set fieldB p2 (Builder_Set fieldA p1 b)) = None
       \<and> UpdateOps (ast (Builder_Set fieldB p2 (Builder_Set fieldA p1 b)))
           = UpdateOps (ast b) @ [UpdateOperation UpdateSet [(fieldA, p1), (fieldB, p2)]]
       \<and> filter (\<lambda>u. UpdateOperation_Operator u = UpdateSet)
            (UpdateOps (ast (Builder_Set fieldB p2 (Builder_Set fieldA p1 b))))
           = [UpdateOperation UpdateSet [(fieldA, p1), (fieldB, p2)]]"
proof -
  let ?ops = "UpdateOps (ast b)"
  have upd: "isUpdateOperation (addOrMergeUpdate UpdateSet fieldA p1 b)"
    using assms(1) by (simp add: isUpdateOperation_def addOrMergeUpdate_def)
  have e1: "err (addOrMergeUpdate UpdateSet fieldA p1 b) = None"
    using assms(2) by (simp add: addOrMergeUpdate_def)
  have ops: "UpdateOps (ast (Builder_Set fieldB p2 (Builder_Set fieldA p1 b)))
           = ?ops @ [UpdateOperation UpdateSet [(fieldA, p1), (fieldB, p2)]]"
    using assms upd e1
    by (simp add: Builder_Set_def addOrMergeUpdate_def addOrMerge_absent addOrMerge_last)
  have flt: "filter (\<lambda>u. UpdateOperation_Operator u = UpdateSet) ?ops = []"
    using assms(3) by (simp add: filter_empty_conv)
  have "err (Builder_Set fieldB p2 (Builder_Set fieldA p1 b)) = None"
    using assms upd e1 by (simp add: Builder_Set_def addOrMergeUpdate_def)
  with ops flt show ?thesis by simp
qed

theorem C7_Set_twice_is_one_operation_witness:
  "UpdateOps (ast (Builder_Set (Field ''email'' ''users'') (Param ''email'')
      (Builder_Set (Field ''status'' ''users'') (Param ''status'')
         (Update (Collection ''users'')))))
   = [UpdateOperation UpdateSet
        [(Field ''status'' ''users'', Param ''status''),
         (Field ''email'' ''users'', Param ''email'')]]"
proof -
  have 1: "isUpdateOperation (Update (Collection ''users''))"
    by (simp add: isUpdateOperation_def Update_def newAST_def)
  have 2: "err (Update (Collection ''users'')) = None"
    by (simp add: Update_def)
  have 3: "\<forall>u \<in> set (UpdateOps (ast (Update (Collection ''users'')))).
             UpdateOperation_Operator u \<noteq> UpdateSet"
    by (simp add: Update_def newAST_def)
  have 4: "Field ''status'' ''users'' \<noteq> Field ''email'' ''users''"
    by simp
  have 5: "UpdateOps (ast (Update (Collection ''users''))) = []"
    by (simp add: Update_def newAST_def)
  show ?thesis
    using C7_Set_twice_is_one_operation[OF 1 2 3 4, of "Param ''email''" "Param ''status''"] 5
    by simp
qed

theorem C7_existing_set_counterexample:
  "err (Builder_Set (Field ''age'' ''users'') (Param ''age'') (Update (Collection ''users'')))
     = None
   \<and> UpdateOps (ast (Builder_Set (Field ''email'' ''users'') (Param ''email'')
        (Builder_Set (Field ''status'' ''users'') (Param ''status'')
           (Builder_Set (Field ''age'' ''users'') (Param ''age'')
              (Update (Collection ''users''))))))
     = [UpdateOperation UpdateSet
          [(Field ''age'' ''users'', Param ''age''),
           (Field ''status'' ''users'', Param ''status''),
           (Field ''email'' ''users'', Param ''email'')]]"
  by (simp add: Builder_Set_def addOrMergeUpdate_def isUpdateOperation_def Update_def newAST_def)

subsection \<open>Limit enforcement\<close>

text \<open>
  C8: on every Find builder with a non-empty target name, \<^verbatim>\<open>Limit(MaxLimit+1)\<close> makes \<^verbatim>\<open>Build\<close>
  fail, and \<^verbatim>\<open>Limit(MaxLimit)\<close> lets it succeed: \<^verbatim>\<open>Build\<close> then succeeds exactly when it would
  with no limit at all, and on the builder that \<^verbatim>\<open>Find\<close> returns it does; \<^verbatim>\<open>MaxLimit\<close> is 10000.
\<close>

theorem C8_Limit_enforcement:
  assumes "Operation (ast b) = OpFind" and "Collection_Name (Target (ast b)) \<noteq> []"
  shows "MaxLimit = 10000
       \<and> (\<exists>e. Build (Builder_Limit (MaxLimit + 1) b) = Inl e)
       \<and> ((\<exists>a. Build (Builder_Limit MaxLimit b) = Inr a)
            \<longleftrightarrow> (\<exists>a. Build (b\<lparr>ast := (ast b)\<lparr>Limit := None\<rparr>\<rparr>) = Inr a))
       \<and> (b = Find (Target (ast b)) \<longrightarrow>
            Build (Builder_Limit MaxLimit b)
              = Inr ((ast b)\<lparr>Limit := Some (PaginationValue (Some MaxLimit) None)\<rparr>))"
proof -
  have rd: "isReadOperation b" using assms(1) by (simp add: isReadOperation_def)
  have 1: "\<exists>e. Build (Builder_Limit (MaxLimit + 1) b) = Inl e"
    using rd by (cases "err b") (simp_all add: Build_def Builder_Limit_def)
  have 2: "(\<exists>a. Build (Builder_Limit MaxLimit b) = Inr a)
            \<longleftrightarrow> (\<exists>a. Build (b\<lparr>ast := (ast b)\<lparr>Limit := None\<rparr>\<rparr>) = Inr a)"
    using rd assms
    by (cases "err b")
       (auto simp add: Build_def Builder_Limit_def Validate_Find validateFind_def orElse_def
          split: option.splits if_splits)
  have 3: "b = Find (Target (ast b)) \<longrightarrow>
            Build (Builder_Limit MaxLimit b)
              = Inr ((ast b)\<lparr>Limit := Some (PaginationValue (Some MaxLimit) None)\<rparr>)"
  proof
    assume eq: "b = Find (Target (ast b))"
    have "err b = None" "Projection (ast b) = None" "SortClauses (ast b) = []"
      "FilterClause (ast b) = NilFilterItem"
      by (subst eq, simp add: Find_def newAST_def)+
    then show "Build (Builder_Limit MaxLimit b)
              = Inr ((ast b)\<lparr>Limit := Some (PaginationValue (Some MaxLimit) None)\<rparr>)"
      using rd assms
      by (simp add: Build_def Builder_Limit_def Validate_Find validateFind_def orElse_def)
  qed
  show ?thesis using 1 2 3 by (simp add: MaxLimit_def)
qed

theorem C8_Limit_enforcement_witness:
  "(\<exists>e. Build (Builder_Limit 10001 (Find (Collection ''users''))) = Inl e)
   \<and> Build (Builder_Limit 10000 (Find (Collection ''users'')))
       = Inr ((newAST OpFind (Collection ''users''))
                \<lparr>Limit := Some (PaginationValue (Some 10000) None)\<rparr>)"
proof -
  have 1: "Operation (ast (Find (Collection ''users''))) = OpFind"
    and 2: "Collection_Name (Target (ast (Find (Collection ''users'')))) \<noteq> []"
    and 3: "Find (Collection ''users'') = Find (Target (ast (Find (Collection ''users''))))"
    and 4: "ast (Find (Collection ''users'')) = newAST OpFind (Collection ''users'')"
    by (simp_all add: Find_def newAST_def)
  show ?thesis
    using C8_Limit_enforcement[OF 1 2] 3 4 by (simp add: MaxLimit_def)
qed

subsection \<open>Logic groups in the DynamoDB and CouchDB dialects\<close>

lemma buildFilterExpressions_length:
  "buildFilterExpressions cs acc st = Inr (exprs, st') \<Longrightarrow>
   length exprs = length acc + length cs"
proof (induction cs arbitrary: acc st)
  case Nil
  then show ?case by simp
next
  case (Cons c cs)
  then show ?case by (auto split: sum.splits)
qed

text \<open>
  C9: in the DynamoDB and the CouchDB dialect the logic value of a group never causes an
  error. Rendering a group fails only with the error of a child. DynamoDB joins the rendered
  children with AND for every logic value other than OR (NOR and NOT included); CouchDB
  writes the key \<^verbatim>\<open>$and\<close> for every logic value other than AND, OR and NOR.
\<close>

theorem C9_logic_kind_never_fails:
  "(\<forall>e. buildFilterExpression (FilterGroup logic cs) st = Inl e
        \<longrightarrow> buildFilterExpressions cs [] st = Inl e)
   \<and> (logic \<noteq> LogicOR \<longrightarrow>
        (\<forall>first others st'. buildFilterExpressions cs [] st = Inr (first # others, st')
           \<longrightarrow> buildFilterExpression (FilterGroup logic cs) st
                 = Inr (joinExprs ''AND'' first others, st')))
   \<and> (\<forall>e. buildSelector (FilterGroup logic cs) ps = Inl e
          \<longrightarrow> buildSelectors cs [] ps = Inl e)
   \<and> (logic \<notin> {LogicAND, LogicOR, LogicNOR} \<longrightarrow>
        mapLogic logic = ''$and''
        \<and> (\<forall>rendered ps'. buildSelectors cs [] ps = Inr (rendered, ps')
             \<longrightarrow> buildSelector (FilterGroup logic cs) ps
                   = Inr (JObject [(''$and'', JArray rendered)], ps')))"
proof -
  have d1: "buildFilterExpressions cs [] st = Inl e"
    if h: "buildFilterExpression (FilterGroup logic cs) st = Inl e" for e
  proof (cases "buildFilterExpressions cs [] st")
    case (Inl e')
    with h show ?thesis by (auto split: if_splits)
  next
    case (Inr r)
    obtain exprs st' where r: "r = (exprs, st')" by (cases r)
    from h have ne: "cs \<noteq> []" by (auto split: if_splits)
    from Inr r have "length exprs = length cs"
      using buildFilterExpressions_length[of cs "[]" st exprs st'] by simp
    with ne have "exprs \<noteq> []" by auto
    then obtain x xs where "exprs = x # xs" by (cases exprs) auto
    with h Inr r ne show ?thesis by simp
  qed
  have d2: "buildFilterExpression (FilterGroup logic cs) st
              = Inr (joinExprs ''AND'' first others, st')"
    if "logic \<noteq> LogicOR" "buildFilterExpressions cs [] st = Inr (first # others, st')"
    for first others st'
  proof -
    from that(2) have "length (first # others) = length cs"
      using buildFilterExpressions_length[of cs "[]" st "first # others" st'] by simp
    then have "cs \<noteq> []" by auto
    with that show ?thesis by simp
  qed
  have c1: "buildSelectors cs [] ps = Inl e"
    if "buildSelector (FilterGroup logic cs) ps = Inl e" for e
    using that by (cases "buildSelectors cs [] ps") auto
  have c2: "mapLogic logic = ''$and''" if "logic \<notin> {LogicAND, LogicOR, LogicNOR}"
    using that by (simp add: mapLogic_def)
  have c3: "buildSelector (FilterGroup logic cs) ps = Inr (JObject [(''$and'', JArray rendered)], ps')"
    if "logic \<notin> {LogicAND, LogicOR, LogicNOR}" "buildSelectors cs [] ps = Inr (rendered, ps')"
    for rendered ps'
    using that c2 by simp
  show ?thesis using d1 d2 c1 c2 c3 by blast
qed

theorem C9_logic_kind_never_fails_witness:
  "buildFilterExpression
     (FilterGroup LogicNOT
        [FilterCondition (Field ''status'' ''users'') OpEQ (Param ''status''),
         FilterCondition (Field ''age'' ''users'') OpGT (Param ''minAge'')])
     \<lparr>attrNames = [], attrValues = [], nameCounter = 0, valueCounter = 0, paramNames = []\<rparr>
   = Inr (''(#n0 = :v0) AND (#n1 > :v1)'',
          \<lparr>attrNames = [(''#n0'', JString ''status''), (''#n1'', JString ''age'')],
           attrValues = [('':v0'', JString '':status''), ('':v1'', JString '':minAge'')],
           nameCounter = 2, valueCounter = 2, paramNames = [''status'', ''minAge'']\<rparr>)
   \<and> buildSelector
       (FilterGroup LogicNOT
          [FilterCondition (Field ''status'' ''users'') OpEQ (Param ''status'')]) []
     = Inr (JObject [(''$and'',
              JArray [JObject [(''status'', JObject [(''$eq'', JString '':status'')])]])],
            [''status''])"
proof -
  let ?cs = "[FilterCondition (Field ''status'' ''users'') OpEQ (Param ''status''),
              FilterCondition (Field ''age'' ''users'') OpGT (Param ''minAge'')]"
  let ?st = "\<lparr>attrNames = [], attrValues = [], nameCounter = 0, valueCounter = 0,
              paramNames = []\<rparr>"
  have n1: "LogicNOT \<noteq> LogicOR" and n2: "LogicNOT \<notin> {LogicAND, LogicOR, LogicNOR}"
    by (simp_all add: LogicNOT_def LogicOR_def LogicAND_def LogicNOR_def)
  have d: "buildFilterExpressions ?cs [] ?st
           = Inr (''(#n0 = :v0)'' # [''(#n1 > :v1)''],
                  \<lparr>attrNames = [(''#n0'', JString ''status''), (''#n1'', JString ''age'')],
                   attrValues = [('':v0'', JString '':status''), ('':v1'', JString '':minAge'')],
                   nameCounter = 2, valueCounter = 2, paramNames = [''status'', ''minAge'']\<rparr>)"
    by code_simp
  have c: "buildSelectors [FilterCondition (Field ''status'' ''users'') OpEQ (Param ''status'')] [] []
           = Inr ([JObject [(''status'', JObject [(''$eq'', JString '':status'')])]], [''status''])"
    by code_simp
  have j: "joinExprs ''AND'' ''(#n0 = :v0)'' [''(#n1 > :v1)''] = ''(#n0 = :v0) AND (#n1 > :v1)''"
    by simp
  from C9_logic_kind_never_fails[of LogicNOT ?cs ?st "[]"] n1 d j
  have r1: "buildFilterExpression (FilterGroup LogicNOT ?cs) ?st
     = Inr (''(#n0 = :v0) AND (#n1 > :v1)'',
          \<lparr>attrNames = [(''#n0'', JString ''status''), (''#n1'', JString ''age'')],
           attrValues = [('':v0'', JString '':status''), ('':v1'', JString '':minAge'')],
           nameCounter = 2, valueCounter = 2, paramNames = [''status'', ''minAge'']\<rparr>)"
    by metis
  from C9_logic_kind_never_fails[of LogicNOT
      "[FilterCondition (Field ''status'' ''users'') OpEQ (Param ''status'')]" ?st "[]"] n2 c
  have r2: "buildSelector
       (FilterGroup LogicNOT
          [FilterCondition (Field ''status'' ''users'') OpEQ (Param ''status'')]) []
     = Inr (JObject [(''$and'',
              JArray [JObject [(''status'', JObject [(''$eq'', JString '':status'')])]])],
            [''status''])"
    by metis
  show ?thesis using r1 r2 by (rule conjI)
qed

subsection \<open>A filter on an insert\<close>

text \<open>
  C10 claims that on every Insert builder with exactly one document, adding a filter
  records no construction error, \<^verbatim>\<open>Build\<close> succeeds and the MongoDB rendering of the insert
  leaves the filter clause out. \<^verbatim>\<open>Build\<close> still fails when an error was recorded before or when
  the target name is empty. What holds: on an Insert builder with exactly one document, no
  recorded error and a non-empty target name, \<^verbatim>\<open>Filter\<close> records no error, \<^verbatim>\<open>Build\<close> returns the
  AST, and the MongoDB renderer produces the query document with the keys \<^verbatim>\<open>collection\<close>,
  \<^verbatim>\<open>document\<close> and \<^verbatim>\<open>operation\<close> only, the same as for the builder without the filter.
\<close>

theorem C10_Filter_on_Insert_is_ignored:
  assumes "Operation (ast b) = OpInsert" and "Documents (ast b) = [d]"
    and "err b = None" and "Collection_Name (Target (ast b)) \<noteq> []"
  shows "err (Builder_Filter f b) = None
       \<and> Build (Builder_Filter f b) = Inr (ast (Builder_Filter f b))
       \<and> mongodb_Render marshal (ast (Builder_Filter f b))
           = toResult marshal
               [(''collection'', JString (Collection_Name (Target (ast b)))),
                (''document'', JObject (fst (mongodb_renderDocument d []))),
                (''operation'', JString OpInsert)]
               (snd (mongodb_renderDocument d []))
       \<and> mongodb_Render marshal (ast (Builder_Filter f b)) = mongodb_Render marshal (ast b)"
proof -
  let ?b' = "Builder_Filter f b"
  have op: "Operation (ast ?b') = OpInsert" and docs: "Documents (ast ?b') = [d]"
    and tgt: "Target (ast ?b') = Target (ast b)" and e: "err ?b' = None"
    using assms by (simp_all add: Builder_Filter_def)
  have v: "Validate (ast ?b') = None"
    using op docs tgt assms(4) by (simp add: Validate_Insert validateInsert_def)
  have v0: "Validate (ast b) = None"
    using assms by (simp add: Validate_Insert validateInsert_def)
  have bld: "Build ?b' = Inr (ast ?b')"
    using e v by (simp add: Build_def)
  have ins: "mongodb_renderInsert marshal a [] =
          toResult marshal
               [(''collection'', JString (Collection_Name (Target a))),
                (''document'', JObject (fst (mongodb_renderDocument d []))),
                (''operation'', JString OpInsert)]
               (snd (mongodb_renderDocument d []))"
    if "Operation a = OpInsert" "Documents a = [d]" for a
    using that
    by (simp add: mongodb_renderInsert_def Let_def split_beta)
  have r: "mongodb_Render marshal a = mongodb_renderInsert marshal a []"
    if "Operation a = OpInsert" "Validate a = None" for a
    using that by (simp add: mongodb_Render_def)
  show ?thesis
    using e bld r[OF op v] r[OF assms(1) v0] ins[OF op docs] ins[OF assms(1,2)] tgt by simp
qed

theorem C10_Filter_on_Insert_is_ignored_witness:
  "Build (Builder_Filter (ExistsFilter (Field ''email'' ''users'') True)
     (Builder_Document (Document [(Field ''email'' ''users'', Param ''email'')])
        (Insert (Collection ''users''))))
   = Inr ((newAST OpInsert (Collection ''users''))
            \<lparr>FilterClause := ExistsFilter (Field ''email'' ''users'') True,
             Documents := [Document [(Field ''email'' ''users'', Param ''email'')]]\<rparr>)
   \<and> mongodb_Render marshalPlain
       ((newAST OpInsert (Collection ''users''))
            \<lparr>FilterClause := ExistsFilter (Field ''email'' ''users'') True,
             Documents := [Document [(Field ''email'' ''users'', Param ''email'')]]\<rparr>)
     = toResult marshalPlain
         [(''collection'', JString ''users''),
          (''document'', JObject [(''email'', JString '':email'')]),
          (''operation'', JString ''INSERT'')]
         [''email'']"
proof -
  let ?d = "Document [(Field ''email'' ''users'', Param ''email'')]"
  let ?b = "Builder_Document ?d (Insert (Collection ''users''))"
  have 1: "Operation (ast ?b) = OpInsert" and 2: "Documents (ast ?b) = [?d]"
    and 3: "err ?b = None" and 4: "Collection_Name (Target (ast ?b)) \<noteq> []"
    by (simp_all add: Builder_Document_def Insert_def newAST_def)
  have 5: "ast (Builder_Filter (ExistsFilter (Field ''email'' ''users'') True) ?b)
           = (newAST OpInsert (Collection ''users''))
            \<lparr>FilterClause := ExistsFilter (Field ''email'' ''users'') True,
             Documents := [?d]\<rparr>"
    by (simp add: Builder_Filter_def Builder_Document_def Insert_def newAST_def)
  have 6: "mongodb_renderDocument ?d [] = ([(''email'', JString '':email'')], [''email''])"
    by (simp add: mongodb_renderDocument_def placeholder_def)
  have 7: "Collection_Name (Target (ast ?b)) = ''users''"
    by (simp add: Builder_Document_def Insert_def newAST_def)
  show ?thesis
    using C10_Filter_on_Insert_is_ignored[OF 1 2 3 4,
        of "ExistsFilter (Field ''email'' ''users'') True" marshalPlain] 5 6 7
    by (simp add: OpInsert_def)
qed

theorem C10_recorded_error_counterexample:
  "Operation (ast (Builder_Limit 5
      (Builder_Document (Document [(Field ''email'' ''users'', Param ''email'')])
         (Insert (Collection ''users''))))) = OpInsert
   \<and> length (Documents (ast (Builder_Limit 5
      (Builder_Document (Document [(Field ''email'' ''users'', Param ''email'')])
         (Insert (Collection ''users'')))))) = 1
   \<and> Build (Builder_Filter (ExistsFilter (Field ''email'' ''users'') True)
       (Builder_Limit 5
          (Builder_Document (Document [(Field ''email'' ''users'', Param ''email'')])
             (Insert (Collection ''users'')))))
     = Inl (OnlyReadOperations ''Limit'')
   \<and> length (Documents (ast
        (Builder_Document (Document [(Field ''email'' ''users'', Param ''email'')])
           (Insert (Collection []))))) = 1
   \<and> Build (Builder_Filter (ExistsFilter (Field ''email'' ''users'') True)
       (Builder_Document (Document [(Field ''email'' ''users'', Param ''email'')])
          (Insert (Collection []))))
     = Inl TargetCollectionRequired"
  by (simp add: Build_def Builder_Filter_def Builder_Limit_def Builder_Document_def
      Insert_def newAST_def isReadOperation_def Validate_def)

subsection \<open>Rendering one AST twice\<close>

lemma same_map_single:
  assumes "same_map m1 m2" and "length m1 \<le> 1"
  shows "m1 = m2"
proof -
  from assms(1) have d1: "distinct m1" and d2: "distinct m2" and s: "set m1 = set m2"
    by (auto simp add: same_map_def distinct_map)
  have len: "length m2 = length m1"
    using d1 d2 s by (metis distinct_card)
  show ?thesis
  proof (cases m1)
    case Nil
    with s show ?thesis by simp
  next
    case (Cons x xs)
    with assms(2) have m1: "m1 = [x]" by simp
    with len obtain y where m2: "m2 = [y]"
      by (cases m2) auto
    with s m1 show ?thesis by simp
  qed
qed

lemma same_Documents_single:
  "list_all2 same_Document ds1 ds2 \<Longrightarrow>
   list_all (\<lambda>d. length (Document_Fields d) \<le> 1) ds1 \<Longrightarrow> ds1 = ds2"
proof (induction rule: list_all2_induct)
  case Nil
  then show ?case by simp
next
  case (Cons d1 ds1 d2 ds2)
  then have "Document_Fields d1 = Document_Fields d2"
    by (simp add: same_Document_def same_map_single)
  then have "d1 = d2" by (simp add: Document.expand)
  with Cons show ?case by simp
qed

lemma same_UpdateOperations_single:
  "list_all2 same_UpdateOperation us1 us2 \<Longrightarrow>
   list_all (\<lambda>u. length (UpdateOperation_Fields u) \<le> 1) us1 \<Longrightarrow> us1 = us2"
proof (induction rule: list_all2_induct)
  case Nil
  then show ?case by simp
next
  case (Cons u1 us1 u2 us2)
  then have "UpdateOperation_Fields u1 = UpdateOperation_Fields u2"
    and "UpdateOperation_Operator u1 = UpdateOperation_Operator u2"
    by (simp_all add: same_UpdateOperation_def same_map_single)
  then have "u1 = u2" by (simp add: UpdateOperation.expand)
  with Cons show ?case by simp
qed

lemma same_stage_single:
  "same_stage s1 s2 \<Longrightarrow> single_entry_stage s1 \<Longrightarrow> s1 = s2"
  by (cases s1; cases s2) (simp_all add: same_map_single)

lemma same_stages_single:
  "list_all2 same_stage ss1 ss2 \<Longrightarrow> list_all single_entry_stage ss1 \<Longrightarrow> ss1 = ss2"
proof (induction rule: list_all2_induct)
  case Nil
  then show ?case by simp
next
  case (Cons s1 ss1 s2 ss2)
  then show ?case by (simp add: same_stage_single)
qed

lemma same_ast_single:
  assumes "same_ast a1 a2" and "single_entry_maps a1"
  shows "a1 = a2"
proof -
  have "Documents a1 = Documents a2" "UpdateOps a1 = UpdateOps a2" "Pipeline a1 = Pipeline a2"
    using assms
    by (simp_all add: same_ast_def single_entry_maps_def same_Documents_single
        same_UpdateOperations_single same_stages_single)
  with assms(1) show ?thesis
    by (simp add: same_ast_def DocumentAST.equality)
qed

lemma key_less_irrefl: "\<not> key_less k k"
  by (induction k) auto

lemma key_less_trans: "key_less a b \<Longrightarrow> key_less b c \<Longrightarrow> key_less a c"
proof (induction a b arbitrary: c rule: key_less.induct)
  case 1
  then show ?case by simp
next
  case (2 y ys)
  then show ?case by (cases c) auto
next
  case (3 x xs)
  then show ?case by simp
next
  case (4 x xs y ys)
  then show ?case by (cases c) auto
qed

lemma key_less_total: "a \<noteq> b \<Longrightarrow> key_less a b \<or> key_less b a"
proof (induction a b rule: key_less.induct)
  case (4 x xs y ys)
  then show ?case
  proof (cases "x = y")
    case True
    with 4 show ?thesis by auto
  next
    case False
    then have "(of_char x :: nat) < of_char y \<or> (of_char y :: nat) < of_char x"
      by (metis of_char_eq_iff nat_neq_iff)
    then show ?thesis by auto
  qed
qed auto

lemma map_of_obj_set: "map_of (obj_set k v m) = (map_of m)(k \<mapsto> v)"
  by (induction m) (auto simp add: fun_eq_iff)

lemma keys_obj_set: "fst ` set (obj_set k v m) = insert k (fst ` set m)"
proof -
  have "dom (map_of (obj_set k v m)) = insert k (dom (map_of m))"
    by (simp add: map_of_obj_set)
  then show ?thesis by (simp add: dom_map_of_conv_image_fst)
qed

lemma keys_sorted_obj_set: "keys_sorted m \<Longrightarrow> keys_sorted (obj_set k v m)"
proof (induction m)
  case Nil
  then show ?case by (simp add: keys_sorted_def)
next
  case (Cons e m)
  obtain k' v' where e: "e = (k', v')" by (cases e)
  from Cons.prems have tl: "keys_sorted m" and hd: "\<forall>x \<in> fst ` set m. key_less k' x"
    by (simp_all add: keys_sorted_def e)
  show ?case
  proof (cases "k = k'")
    case True
    then have "obj_set k v (e # m) = (k, v) # m" by (simp add: e)
    with hd tl True show ?thesis by (simp add: keys_sorted_def)
  next
    case ne: False
    show ?thesis
    proof (cases "key_less k k'")
      case True
      then have eq: "obj_set k v (e # m) = (k, v) # (k', v') # m" using ne by (simp add: e)
      have "\<forall>x \<in> fst ` set m. key_less k x"
        using hd True key_less_trans by blast
      with hd tl True show ?thesis by (simp add: eq keys_sorted_def)
    next
      case False
      then have eq: "obj_set k v (e # m) = (k', v') # obj_set k v m" using ne by (simp add: e)
      from False ne have lt: "key_less k' k" using key_less_total by blast
      have s: "keys_sorted (obj_set k v m)" using Cons.IH tl by simp
      have "\<forall>x \<in> fst ` set (obj_set k v m). key_less k' x"
        using hd lt by (simp add: keys_obj_set)
      with s show ?thesis by (simp add: eq keys_sorted_def)
    qed
  qed
qed

lemma keys_sorted_distinct: "keys_sorted m \<Longrightarrow> distinct (map fst m)"
proof (induction m)
  case Nil
  then show ?case by simp
next
  case (Cons e m)
  then show ?case using key_less_irrefl by (auto simp add: keys_sorted_def)
qed

lemma keys_sorted_unique:
  "keys_sorted m1 \<Longrightarrow> keys_sorted m2 \<Longrightarrow> set m1 = set m2 \<Longrightarrow> m1 = m2"
proof (induction m1 arbitrary: m2)
  case Nil
  then show ?case by simp
next
  case (Cons e m1)
  from Cons.prems(3) have "m2 \<noteq> []" by auto
  then obtain e' m2' where m2: "m2 = e' # m2'" by (cases m2) simp_all
  have d1: "e \<notin> set m1"
    using keys_sorted_distinct[OF Cons.prems(1)] by (force simp add: distinct_map)
  have d2: "e' \<notin> set m2'"
    using keys_sorted_distinct[OF Cons.prems(2)] m2 by (force simp add: distinct_map)
  have hd1: "\<forall>x \<in> set m1. key_less (fst e) (fst x)"
    using Cons.prems(1) by (simp add: keys_sorted_def)
  have hd2: "\<forall>x \<in> set m2'. key_less (fst e') (fst x)"
    using Cons.prems(2) m2 by (simp add: keys_sorted_def)
  have s: "insert e (set m1) = insert e' (set m2')"
    using Cons.prems(3) m2 by simp
  have ee: "e = e'"
  proof (rule ccontr)
    assume ne: "e \<noteq> e'"
    have "e \<in> insert e' (set m2')" using s by (metis insertI1)
    then have 1: "e \<in> set m2'" using ne by simp
    have "e' \<in> insert e (set m1)" using s by (metis insertI1)
    then have 2: "e' \<in> set m1" using ne by simp
    note 1 2
    with hd1 hd2 have "key_less (fst e) (fst e')" "key_less (fst e') (fst e)" by blast+
    then show False using key_less_trans key_less_irrefl by blast
  qed
  have "set m1 = set m2'"
    using s d1 d2 ee by (simp add: insert_ident)
  moreover have "keys_sorted m1" "keys_sorted m2'"
    using Cons.prems(1,2) m2 by (simp_all add: keys_sorted_def)
  ultimately have "m1 = m2'" using Cons.IH by blast
  with ee m2 show ?case by simp
qed

lemma keys_sorted_map_of_unique:
  assumes "keys_sorted m1" and "keys_sorted m2" and "map_of m1 = map_of m2"
  shows "m1 = m2"
proof -
  have "set m1 = set m2"
    using assms keys_sorted_distinct map_of_inject_set by blast
  with assms show ?thesis using keys_sorted_unique by blast
qed

lemma keys_sorted_foldl:
  "keys_sorted r0 \<Longrightarrow> keys_sorted (foldl (\<lambda>r e. obj_set (key e) (val e) r) r0 es)"
  by (induction es arbitrary: r0) (auto simp add: keys_sorted_obj_set)

lemma map_of_foldl_obj_set:
  "map_of (foldl (\<lambda>r e. obj_set (key e) (val e) r) r0 es)
   = map_of r0 ++ map_of (rev (map (\<lambda>e. (key e, val e)) es))"
proof (induction es arbitrary: r0)
  case Nil
  then show ?case by simp
next
  case (Cons e es)
  let ?es' = "map (\<lambda>e. (key e, val e)) es"
  have "map_of (foldl (\<lambda>r e. obj_set (key e) (val e) r) r0 (e # es))
        = map_of (obj_set (key e) (val e) r0) ++ map_of (rev ?es')"
    using Cons.IH[of "obj_set (key e) (val e) r0"] by simp
  also have "map_of (obj_set (key e) (val e) r0) = map_of r0 ++ [key e \<mapsto> val e]"
    by (simp only: map_of_obj_set map_add_upd map_add_empty)
  also have "map_of r0 ++ [key e \<mapsto> val e] ++ map_of (rev ?es')
        = map_of r0 ++ ([key e \<mapsto> val e] ++ map_of (rev ?es'))"
    by (simp only: map_add_assoc)
  also have "[key e \<mapsto> val e] ++ map_of (rev ?es')
        = map_of (rev (map (\<lambda>e. (key e, val e)) (e # es)))"
    by (simp add: map_of_append del: map_add_upd)
  finally show ?case .
qed

lemma foldl_obj_set_perm:
  assumes "keys_sorted r0" and "mset es1 = mset es2" and "distinct (map key es1)"
  shows "foldl (\<lambda>r e. obj_set (key e) (val e) r) r0 es1
       = foldl (\<lambda>r e. obj_set (key e) (val e) r) r0 es2"
proof -
  let ?kv = "\<lambda>e. (key e, val e)"
  have "mset (map key es1) = mset (map key es2)" using assms(2) by simp
  then have d2: "distinct (map key es2)"
    using assms(3) mset_eq_imp_distinct_iff by blast
  have k1: "distinct (map fst (rev (map ?kv es1)))"
    using assms(3) by (simp add: rev_map[symmetric] comp_def)
  have k2: "distinct (map fst (rev (map ?kv es2)))"
    using d2 by (simp add: rev_map[symmetric] comp_def)
  have "set es1 = set es2" using assms(2) mset_eq_setD by blast
  then have "set (rev (map ?kv es1)) = set (rev (map ?kv es2))" by simp
  then have "map_of (rev (map ?kv es1)) = map_of (rev (map ?kv es2))"
    using map_of_inject_set[OF k1 k2] by blast
  then have "map_of (foldl (\<lambda>r e. obj_set (key e) (val e) r) r0 es1)
       = map_of (foldl (\<lambda>r e. obj_set (key e) (val e) r) r0 es2)"
    by (simp only: map_of_foldl_obj_set)
  then show ?thesis
    using keys_sorted_map_of_unique keys_sorted_foldl assms(1) by blast
qed

lemma same_output_refl: "same_output r r"
  by (simp add: same_output_def split: sum.splits)

lemma same_output_toResult:
  "mset ps1 = mset ps2 \<Longrightarrow> same_output (toResult marshal q ps1) (toResult marshal q ps2)"
  by (simp add: same_output_def toResult_def split: option.splits)

lemma same_map_mset: "same_map m1 m2 \<Longrightarrow> mset m1 = mset m2"
proof -
  assume a: "same_map m1 m2"
  then have "distinct m1" "distinct m2" "set m1 = set m2"
    by (simp_all add: same_map_def distinct_map)
  then show ?thesis using set_eq_iff_mset_eq_distinct by blast
qed

lemma mset_concat_map_perm:
  "mset es1 = mset es2 \<Longrightarrow> mset (concat (map g es1)) = mset (concat (map g es2))"
proof -
  assume "mset es1 = mset es2"
  then have "image_mset (\<lambda>e. mset (g e)) (mset es1) = image_mset (\<lambda>e. mset (g e)) (mset es2)"
    by simp
  then have "sum_mset (image_mset (\<lambda>e. mset (g e)) (mset es1))
           = sum_mset (image_mset (\<lambda>e. mset (g e)) (mset es2))"
    by simp
  then show ?thesis
    by (simp add: mset_concat comp_def flip: sum_mset_sum_list)
qed

lemma foldl_split:
  assumes "\<And>r ps e. step (r, ps) e = (f r e, ps @ g e)"
  shows "foldl step (r0, ps0) es = (foldl f r0 es, ps0 @ concat (map g es))"
  by (induction es arbitrary: r0 ps0) (simp_all add: assms)

text \<open>A fold over a map that sets one key per entry and appends the entry's parameters.\<close>

lemma map_fold_perm:
  assumes step: "\<And>r ps e. step (r, ps) e = (obj_set (key e) (val e) r, ps @ g e)"
    and mp: "mset m1 = mset m2"
  shows "mset (snd (foldl step (r0, ps1) m1)) = mset ps1 + mset (concat (map g m1))"
    and "mset (concat (map g m1)) = mset (concat (map g m2))"
    and "keys_sorted r0 \<Longrightarrow> distinct (map key m1) \<Longrightarrow>
         fst (foldl step (r0, ps1) m1) = fst (foldl step (r0, ps2) m2)"
    and "keys_sorted r0 \<Longrightarrow> keys_sorted (fst (foldl step (r0, ps1) m1))"
proof -
  have s: "foldl step (r0, ps) m = (foldl (\<lambda>r e. obj_set (key e) (val e) r) r0 m,
                                     ps @ concat (map g m))" for ps m
    by (rule foldl_split) (rule step)
  show "mset (snd (foldl step (r0, ps1) m1)) = mset ps1 + mset (concat (map g m1))"
    by (simp add: s)
  show "mset (concat (map g m1)) = mset (concat (map g m2))"
    using mp by (rule mset_concat_map_perm)
  show "fst (foldl step (r0, ps1) m1) = fst (foldl step (r0, ps2) m2)"
    if "keys_sorted r0" "distinct (map key m1)"
    using foldl_obj_set_perm[OF that(1) mp that(2)] by (simp add: s)
  show "keys_sorted (fst (foldl step (r0, ps1) m1))" if "keys_sorted r0"
    using that by (simp add: s keys_sorted_foldl)
qed

lemma keys_sorted_Nil: "keys_sorted []"
  by (simp add: keys_sorted_def)

lemma mongodb_renderDocument_perm:
  assumes "same_map (Document_Fields d1) (Document_Fields d2)" and "mset ps1 = mset ps2"
  shows "mset (snd (mongodb_renderDocument d1 ps1)) = mset (snd (mongodb_renderDocument d2 ps2))"
    and "distinct_paths (Document_Fields d1) \<Longrightarrow>
         fst (mongodb_renderDocument d1 ps1) = fst (mongodb_renderDocument d2 ps2)"
proof -
  let ?step = "\<lambda>(result, ps) (field, val).
              (obj_set (Field_Path field) (placeholder (Param_Name val)) result,
               ps @ [Param_Name val])"
  have step: "?step (r, ps) e = (obj_set (Field_Path (fst e)) (placeholder (Param_Name (snd e))) r,
                                 ps @ [Param_Name (snd e)])" for r ps e
    by (cases e) simp
  note mp = same_map_mset[OF assms(1)]
  note mp' = mp[symmetric]
  show "mset (snd (mongodb_renderDocument d1 ps1)) = mset (snd (mongodb_renderDocument d2 ps2))"
    using map_fold_perm(1)[of ?step, OF step mp, of "[]" ps1]
      map_fold_perm(1)[of ?step, OF step mp', of "[]" ps2]
      map_fold_perm(2)[of ?step, OF step mp] assms(2)
    by (simp add: mongodb_renderDocument_def)
  show "fst (mongodb_renderDocument d1 ps1) = fst (mongodb_renderDocument d2 ps2)"
    if "distinct_paths (Document_Fields d1)"
    using map_fold_perm(3)[of ?step, OF step mp keys_sorted_Nil, of ps1 ps2] that
    by (simp add: mongodb_renderDocument_def distinct_paths_def)
qed

text \<open>
  A loop over a field map that sets the key of the field's path and appends parameters:
  on two views of one map with pairwise distinct paths it builds the same object and
  appends the same parameters up to their order.
\<close>

lemma field_fold_perm:
  assumes step: "\<And>r ps e. step (r, ps) e = (obj_set (Field_Path (fst e)) (val e) r, ps @ g e)"
    and sm: "same_map m1 m2" and ps: "mset ps1 = mset ps2"
    and dp: "distinct_paths m1" and ks: "keys_sorted r0"
  shows "fst (foldl step (r0, ps1) m1) = fst (foldl step (r0, ps2) m2)
       \<and> mset (snd (foldl step (r0, ps1) m1)) = mset (snd (foldl step (r0, ps2) m2))
       \<and> keys_sorted (fst (foldl step (r0, ps1) m1))"
proof -
  note mp = same_map_mset[OF sm]
  note mp' = mp[symmetric]
  have "mset (snd (foldl step (r0, ps1) m1)) = mset (snd (foldl step (r0, ps2) m2))"
    using map_fold_perm(1)[of step, OF step mp, of r0 ps1]
      map_fold_perm(1)[of step, OF step mp', of r0 ps2]
      map_fold_perm(2)[of step, OF step mp] ps
    by simp
  moreover have "fst (foldl step (r0, ps1) m1) = fst (foldl step (r0, ps2) m2)"
    using map_fold_perm(3)[of step, OF step mp ks, of ps1 ps2] dp
    by (simp add: distinct_paths_def)
  moreover have "keys_sorted (fst (foldl step (r0, ps1) m1))"
    using map_fold_perm(4)[of step, OF step mp ks] .
  ultimately show ?thesis by simp
qed

lemma doc_fold_perm:
  assumes "same_map m1 m2" and "mset ps1 = mset ps2" and "distinct_paths m1"
  shows "fst (foldl (\<lambda>(result, ps) (field, val).
                (obj_set (Field_Path field) (placeholder (Param_Name val)) result,
                 ps @ [Param_Name val])) ([], ps1) m1)
       = fst (foldl (\<lambda>(result, ps) (field, val).
                (obj_set (Field_Path field) (placeholder (Param_Name val)) result,
                 ps @ [Param_Name val])) ([], ps2) m2)
       \<and> mset (snd (foldl (\<lambda>(result, ps) (field, val).
                (obj_set (Field_Path field) (placeholder (Param_Name val)) result,
                 ps @ [Param_Name val])) ([], ps1) m1))
       = mset (snd (foldl (\<lambda>(result, ps) (field, val).
                (obj_set (Field_Path field) (placeholder (Param_Name val)) result,
                 ps @ [Param_Name val])) ([], ps2) m2))"
proof -
  let ?step = "\<lambda>(result, ps) (field, val).
                (obj_set (Field_Path field) (placeholder (Param_Name val)) result,
                 ps @ [Param_Name val])"
  have step: "?step (r, ps) e
              = (obj_set (Field_Path (fst e)) (placeholder (Param_Name (snd e))) r,
                 ps @ [Param_Name (snd e)])" for r ps e
    by (cases e) simp
  show ?thesis
    using field_fold_perm[of ?step, OF step assms keys_sorted_Nil] by simp
qed

lemma same_ast_Validate:
  assumes "same_ast a1 a2"
  shows "Validate a1 = Validate a2"
proof -
  have l: "length (Documents a1) = length (Documents a2)"
    "length (UpdateOps a1) = length (UpdateOps a2)"
    "length (Pipeline a1) = length (Pipeline a2)"
    using assms by (auto simp add: same_ast_def dest: list_all2_lengthD)
  have e: "Operation a1 = Operation a2" "Target a1 = Target a2"
    "FilterClause a1 = FilterClause a2" "Projection a1 = Projection a2"
    "SortClauses a1 = SortClauses a2" "Limit a1 = Limit a2"
    "DistinctField a1 = DistinctField a2"
    using assms by (simp_all add: same_ast_def)
  show ?thesis
    by (simp add: Validate_def validateFind_def validateInsert_def
      validateInsertMany_def validateUpdate_def validateUpdateMany_def validateDelete_def
      validateDeleteMany_def validateAggregate_def validateCount_def validateDistinct_def l e)
qed

subsection \<open>MongoDB\<close>

lemma mongodb_renderInsert_perm:
  assumes "same_ast a1 a2" and "distinct_field_paths a1"
  shows "same_output (mongodb_renderInsert marshal a1 []) (mongodb_renderInsert marshal a2 [])"
proof (cases "Documents a1")
  case Nil
  with assms(1) have "Documents a2 = []" by (simp add: same_ast_def)
  with Nil assms(1) show ?thesis
    by (simp add: mongodb_renderInsert_def same_ast_def same_output_refl)
next
  case (Cons d1 ds1)
  with assms(1) obtain d2 ds2 where d2: "Documents a2 = d2 # ds2"
    and sd: "same_Document d1 d2"
    by (auto simp add: same_ast_def list_all2_Cons1)
  have dp: "distinct_paths (Document_Fields d1)"
    using assms(2) Cons by (simp add: distinct_field_paths_def)
  have f: "fst (mongodb_renderDocument d1 []) = fst (mongodb_renderDocument d2 [])"
    and p: "mset (snd (mongodb_renderDocument d1 [])) = mset (snd (mongodb_renderDocument d2 []))"
    using doc_fold_perm[OF sd[unfolded same_Document_def] _ dp, of "[]" "[]"]
    by (simp_all add: mongodb_renderDocument_def)
  have eq: "Operation a1 = Operation a2" "Target a1 = Target a2"
    using assms(1) by (simp_all add: same_ast_def)
  show ?thesis
    using same_output_toResult[OF p, of marshal] f
    by (simp add: mongodb_renderInsert_def Cons d2 eq split_beta)
qed

lemma mongodb_docs_fold_perm:
  "list_all2 same_Document ds1 ds2 \<Longrightarrow>
   list_all (\<lambda>d. distinct_paths (Document_Fields d)) ds1 \<Longrightarrow> mset ps1 = mset ps2 \<Longrightarrow>
   fst (foldl (\<lambda>(docs, ps) d. (let (doc, ps') = mongodb_renderDocument d ps
                                    in (docs @ [JObject doc], ps'))) (acc, ps1) ds1)
   = fst (foldl (\<lambda>(docs, ps) d. (let (doc, ps') = mongodb_renderDocument d ps
                                    in (docs @ [JObject doc], ps'))) (acc, ps2) ds2)
   \<and> mset (snd (foldl (\<lambda>(docs, ps) d. (let (doc, ps') = mongodb_renderDocument d ps
                                    in (docs @ [JObject doc], ps'))) (acc, ps1) ds1))
   = mset (snd (foldl (\<lambda>(docs, ps) d. (let (doc, ps') = mongodb_renderDocument d ps
                                    in (docs @ [JObject doc], ps'))) (acc, ps2) ds2))"
proof (induction arbitrary: acc ps1 ps2 rule: list_all2_induct)
  case Nil
  then show ?case by simp
next
  case (Cons d1 ds1 d2 ds2)
  have dp: "distinct_paths (Document_Fields d1)" using Cons.prems(1) by simp
  have f: "fst (mongodb_renderDocument d1 ps1) = fst (mongodb_renderDocument d2 ps2)"
    and p: "mset (snd (mongodb_renderDocument d1 ps1)) = mset (snd (mongodb_renderDocument d2 ps2))"
    using doc_fold_perm[OF Cons.hyps(1)[unfolded same_Document_def] Cons.prems(2) dp]
    by (simp_all add: mongodb_renderDocument_def)
  have rest: "list_all (\<lambda>d. distinct_paths (Document_Fields d)) ds1"
    using Cons.prems(1) by simp
  show ?case
    using Cons.IH[OF rest p, of "acc @ [JObject (fst (mongodb_renderDocument d1 ps1))]"] f
    by (simp add: split_beta Let_def)
qed

lemma mongodb_renderInsertMany_perm:
  assumes "same_ast a1 a2" and "distinct_field_paths a1"
  shows "same_output (mongodb_renderInsertMany marshal a1 [])
                     (mongodb_renderInsertMany marshal a2 [])"
proof -
  have eq: "Operation a1 = Operation a2" "Target a1 = Target a2"
    and ds: "list_all2 same_Document (Documents a1) (Documents a2)"
    using assms(1) by (simp_all add: same_ast_def)
  have dp: "list_all (\<lambda>d. distinct_paths (Document_Fields d)) (Documents a1)"
    using assms(2) by (simp add: distinct_field_paths_def)
  from mongodb_docs_fold_perm[OF ds dp, of "[]" "[]" "[]"]
  show ?thesis
    using same_output_toResult[of _ _ marshal]
    by (simp add: mongodb_renderInsertMany_def eq split_beta Let_def)
qed

lemma mongodb_renderUpdateOps_perm:
  assumes "list_all2 same_UpdateOperation us1 us2"
    and "list_all (\<lambda>u. distinct_paths (UpdateOperation_Fields u)) us1"
    and "mset ps1 = mset ps2"
  shows "fst (mongodb_renderUpdateOps us1 ps1) = fst (mongodb_renderUpdateOps us2 ps2)
       \<and> mset (snd (mongodb_renderUpdateOps us1 ps1)) = mset (snd (mongodb_renderUpdateOps us2 ps2))"
proof -
  define inner :: "(string \<times> json) list \<times> string list \<Rightarrow> Field \<times> Param
                     \<Rightarrow> (string \<times> json) list \<times> string list"
    where "inner = (\<lambda>(fs, ps) (field, val).
                              if Param_Name val \<noteq> []
                              then (obj_set (Field_Path field) (placeholder (Param_Name val)) fs,
                                    ps @ [Param_Name val])
                              else (obj_set (Field_Path field) (JString []) fs, ps))"
  define outer :: "(string \<times> json) list \<times> string list \<Rightarrow> UpdateOperation
                     \<Rightarrow> (string \<times> json) list \<times> string list"
    where "outer = (\<lambda>(result, ps) op.
              (let (fs, ps') = foldl inner ([], ps) (UpdateOperation_Fields op)
               in (obj_set (UpdateOperation_Operator op) (JObject fs) result, ps')))"
  have def: "mongodb_renderUpdateOps us ps = foldl outer ([], ps) us" for us ps
    by (simp add: mongodb_renderUpdateOps_def outer_def inner_def)
  have step: "inner (r, ps) e
              = (obj_set (Field_Path (fst e))
                   (if Param_Name (snd e) \<noteq> [] then placeholder (Param_Name (snd e))
                    else JString []) r,
                 ps @ (if Param_Name (snd e) \<noteq> [] then [Param_Name (snd e)] else []))"
    for r ps e
    by (cases e) (simp add: inner_def)
  have gen: "fst (foldl outer (r, ps1) us1) = fst (foldl outer (r, ps2) us2)
       \<and> mset (snd (foldl outer (r, ps1) us1)) = mset (snd (foldl outer (r, ps2) us2))"
    for r
    using assms
  proof (induction arbitrary: r ps1 ps2 rule: list_all2_induct)
    case Nil
    then show ?case by simp
  next
    case (Cons u1 us1 u2 us2)
    have sm: "same_map (UpdateOperation_Fields u1) (UpdateOperation_Fields u2)"
      and op: "UpdateOperation_Operator u1 = UpdateOperation_Operator u2"
      using Cons.hyps(1) by (simp_all add: same_UpdateOperation_def)
    have dp: "distinct_paths (UpdateOperation_Fields u1)" using Cons.prems(1) by simp
    note f = field_fold_perm[of inner, OF step sm Cons.prems(2) dp keys_sorted_Nil]
    have o1: "outer (r, ps1) u1
              = (obj_set (UpdateOperation_Operator u1)
                   (JObject (fst (foldl inner ([], ps1) (UpdateOperation_Fields u1)))) r,
                 snd (foldl inner ([], ps1) (UpdateOperation_Fields u1)))"
      by (simp add: outer_def split_beta)
    have o2: "outer (r, ps2) u2
              = (obj_set (UpdateOperation_Operator u1)
                   (JObject (fst (foldl inner ([], ps1) (UpdateOperation_Fields u1)))) r,
                 snd (foldl inner ([], ps2) (UpdateOperation_Fields u2)))"
      using f op by (simp add: outer_def split_beta)
    have rest: "list_all (\<lambda>u. distinct_paths (UpdateOperation_Fields u)) us1"
      using Cons.prems(1) by simp
    from f have p: "mset (snd (foldl inner ([], ps1) (UpdateOperation_Fields u1)))
                  = mset (snd (foldl inner ([], ps2) (UpdateOperation_Fields u2)))"
      by simp
    show ?case
      using Cons.IH[OF rest p] by (simp add: o1 o2)
  qed
  show ?thesis using gen[of "[]"] by (simp add: def)
qed

lemma mongodb_renderUpdate_perm:
  assumes "same_ast a1 a2" and "distinct_field_paths a1"
  shows "same_output (mongodb_renderUpdate marshal a1 []) (mongodb_renderUpdate marshal a2 [])"
proof -
  have eq: "Operation a1 = Operation a2" "Target a1 = Target a2"
    "FilterClause a1 = FilterClause a2" "Upsert a1 = Upsert a2"
    and us: "list_all2 same_UpdateOperation (UpdateOps a1) (UpdateOps a2)"
    using assms(1) by (simp_all add: same_ast_def)
  have dp: "list_all (\<lambda>u. distinct_paths (UpdateOperation_Fields u)) (UpdateOps a1)"
    using assms(2) by (simp add: distinct_field_paths_def)
  have u: "fst (mongodb_renderUpdateOps (UpdateOps a1) ps)
           = fst (mongodb_renderUpdateOps (UpdateOps a2) ps)
         \<and> mset (snd (mongodb_renderUpdateOps (UpdateOps a1) ps))
           = mset (snd (mongodb_renderUpdateOps (UpdateOps a2) ps))" for ps
    using mongodb_renderUpdateOps_perm[OF us dp, of ps ps] by simp
  have tr: "same_output
              (toResult marshal
                 (if Upsert a2
                  then obj_set ''upsert'' (JBool True)
                         (obj_set ''update''
                            (JObject (fst (mongodb_renderUpdateOps (UpdateOps a1) ps))) q)
                  else obj_set ''update''
                         (JObject (fst (mongodb_renderUpdateOps (UpdateOps a1) ps))) q)
                 (snd (mongodb_renderUpdateOps (UpdateOps a1) ps)))
              (toResult marshal
                 (if Upsert a2
                  then obj_set ''upsert'' (JBool True)
                         (obj_set ''update''
                            (JObject (fst (mongodb_renderUpdateOps (UpdateOps a2) ps))) q)
                  else obj_set ''update''
                         (JObject (fst (mongodb_renderUpdateOps (UpdateOps a2) ps))) q)
                 (snd (mongodb_renderUpdateOps (UpdateOps a2) ps)))" for q ps
    using u[of ps] same_output_toResult[of _ _ marshal] by simp
  show ?thesis
  proof (cases "FilterClause a2 = NilFilterItem")
    case True
    then show ?thesis
      using tr by (simp add: mongodb_renderUpdate_def eq split_beta Let_def)
  next
    case False
    show ?thesis
    proof (cases "mongodb_renderFilter (FilterClause a2) []")
      case (Inl e)
      with False show ?thesis
        by (simp add: mongodb_renderUpdate_def eq same_output_def)
    next
      case (Inr r)
      with False show ?thesis
        using tr by (simp add: mongodb_renderUpdate_def eq split_beta Let_def)
    qed
  qed
qed

lemma same_state_refl: "same_state r r"
  by (simp add: same_state_def split: sum.splits)

subsection \<open>Documents in the other three renderers\<close>

lemma doc_case_perm:
  assumes "list_all2 same_Document ds1 ds2"
    and "list_all (\<lambda>d. distinct_paths (Document_Fields d)) ds1"
  shows "same_output
           (let (query1, params1) =
                  (case ds1 of
                     [] \<Rightarrow> (query, [])
                   | d # ds \<Rightarrow>
                       (let (doc, params') =
                              foldl (\<lambda>(doc, ps) (field, val).
                                       (obj_set (Field_Path field) (placeholder (Param_Name val)) doc,
                                        ps @ [Param_Name val]))
                                    ([], []) (Document_Fields d)
                        in (obj_set key (JObject doc) query, params')))
            in toResult marshal query1 params1)
           (let (query1, params1) =
                  (case ds2 of
                     [] \<Rightarrow> (query, [])
                   | d # ds \<Rightarrow>
                       (let (doc, params') =
                              foldl (\<lambda>(doc, ps) (field, val).
                                       (obj_set (Field_Path field) (placeholder (Param_Name val)) doc,
                                        ps @ [Param_Name val]))
                                    ([], []) (Document_Fields d)
                        in (obj_set key (JObject doc) query, params')))
            in toResult marshal query1 params1)"
proof (cases ds1)
  case Nil
  with assms(1) have "ds2 = []" by simp
  with Nil show ?thesis by (simp add: same_output_refl)
next
  case (Cons d1 ds1')
  with assms(1) obtain d2 ds2' where d2: "ds2 = d2 # ds2'" and sd: "same_Document d1 d2"
    by (auto simp add: list_all2_Cons1)
  have dp: "distinct_paths (Document_Fields d1)" using assms(2) Cons by simp
  note f = doc_fold_perm[OF sd[unfolded same_Document_def] _ dp, of "[]" "[]", simplified]
  show ?thesis
    using f same_output_toResult[of _ _ marshal]
    by (simp add: Cons d2 split_beta)
qed

lemma firestore_renderAdd_perm:
  assumes "same_ast a1 a2" and "distinct_field_paths a1"
  shows "same_output (firestore_renderAdd marshal a1 []) (firestore_renderAdd marshal a2 [])"
proof -
  have eq: "Operation a1 = Operation a2" "Target a1 = Target a2"
    and ds: "list_all2 same_Document (Documents a1) (Documents a2)"
    using assms(1) by (simp_all add: same_ast_def)
  have dp: "list_all (\<lambda>d. distinct_paths (Document_Fields d)) (Documents a1)"
    using assms(2) by (simp add: distinct_field_paths_def)
  show ?thesis
    using doc_case_perm[OF ds dp, of _ "''data''" marshal]
    by (simp add: firestore_renderAdd_def eq Let_def)
qed

lemma couchdb_renderInsert_perm:
  assumes "same_ast a1 a2" and "distinct_field_paths a1"
  shows "same_output (couchdb_renderInsert marshal a1 []) (couchdb_renderInsert marshal a2 [])"
proof -
  have ds: "list_all2 same_Document (Documents a1) (Documents a2)"
    using assms(1) by (simp_all add: same_ast_def)
  have dp: "list_all (\<lambda>d. distinct_paths (Document_Fields d)) (Documents a1)"
    using assms(2) by (simp add: distinct_field_paths_def)
  show ?thesis
    using doc_case_perm[OF ds dp, of _ "''doc''" marshal]
    by (simp add: couchdb_renderInsert_def Let_def)
qed

lemma dynamodb_renderPutItem_perm:
  assumes "same_ast a1 a2" and "distinct_field_paths a1"
  shows "same_output (dynamodb_renderPutItem marshal a1 []) (dynamodb_renderPutItem marshal a2 [])"
proof -
  have eq: "Target a1 = Target a2"
    and ds: "list_all2 same_Document (Documents a1) (Documents a2)"
    using assms(1) by (simp_all add: same_ast_def)
  have dp: "list_all (\<lambda>d. distinct_paths (Document_Fields d)) (Documents a1)"
    using assms(2) by (simp add: distinct_field_paths_def)
  show ?thesis
    using doc_case_perm[OF ds dp, of _ "''Item''" marshal]
    by (simp add: dynamodb_renderPutItem_def eq Let_def)
qed

subsection \<open>Update operations in Firestore and CouchDB\<close>

lemma firestore_renderUpdateOps_perm:
  "list_all2 same_UpdateOperation us1 us2 \<Longrightarrow>
   list_all (\<lambda>u. distinct_paths (UpdateOperation_Fields u)) us1 \<Longrightarrow>
   mset ps1 = mset ps2 \<Longrightarrow> keys_sorted dat \<Longrightarrow>
   same_state (firestore_renderUpdateOps us1 dat ps1) (firestore_renderUpdateOps us2 dat ps2)"
proof (induction arbitrary: dat ps1 ps2 rule: list_all2_induct)
  case Nil
  then show ?case by (simp add: same_state_def)
next
  case (Cons u1 us1 u2 us2)
  have sm: "same_map (UpdateOperation_Fields u1) (UpdateOperation_Fields u2)"
    and op: "UpdateOperation_Operator u2 = UpdateOperation_Operator u1"
    using Cons.hyps(1) by (simp_all add: same_UpdateOperation_def)
  have dp: "distinct_paths (UpdateOperation_Fields u1)" using Cons.prems(1) by simp
  have rest: "list_all (\<lambda>u. distinct_paths (UpdateOperation_Fields u)) us1"
    using Cons.prems(1) by simp
  let ?step = "\<lambda>(dat, ps) (field, val).
                 if UpdateOperation_Operator u1 = UpdateUnset
                 then (obj_set (Field_Path field) (JString ''FieldValue.delete()'') dat, ps)
                 else (obj_set (Field_Path field) (placeholder (Param_Name val)) dat,
                       ps @ [Param_Name val])"
  have step: "?step (r, ps) e
              = (obj_set (Field_Path (fst e))
                   (if UpdateOperation_Operator u1 = UpdateUnset
                    then JString ''FieldValue.delete()''
                    else placeholder (Param_Name (snd e))) r,
                 ps @ (if UpdateOperation_Operator u1 = UpdateUnset then []
                       else [Param_Name (snd e)]))" for r ps e
    by (cases e) simp
  note f = field_fold_perm[of ?step, OF step sm Cons.prems(2) dp Cons.prems(3)]
  show ?case
  proof (cases "UpdateOperation_Operator u1 \<noteq> UpdateSet
                \<and> UpdateOperation_Operator u1 \<noteq> UpdateUnset")
    case True
    then show ?thesis by (simp add: op same_state_def)
  next
    case False
    note p = f[THEN conjunct2, THEN conjunct1]
    note d = f[THEN conjunct1, symmetric]
    note k = f[THEN conjunct2, THEN conjunct2]
    show ?thesis
    proof (cases "UpdateOperation_Operator u1 = UpdateUnset")
      case True
      then show ?thesis
        using Cons.IH[OF rest p k] d by (simp add: op split_beta Let_def)
    next
      case ns: False
      with False have "UpdateOperation_Operator u1 = UpdateSet" by simp
      then show ?thesis
        using ns Cons.IH[OF rest p k] d by (simp add: op split_beta Let_def)
    qed
  qed
qed

lemma firestore_renderUpdate_perm:
  assumes "same_ast a1 a2" and "distinct_field_paths a1"
  shows "same_output (firestore_renderUpdate marshal a1 []) (firestore_renderUpdate marshal a2 [])"
proof -
  have eq: "Operation a1 = Operation a2" "Target a1 = Target a2"
    and us: "list_all2 same_UpdateOperation (UpdateOps a1) (UpdateOps a2)"
    using assms(1) by (simp_all add: same_ast_def)
  have dp: "list_all (\<lambda>u. distinct_paths (UpdateOperation_Fields u)) (UpdateOps a1)"
    using assms(2) by (simp add: distinct_field_paths_def)
  note s = firestore_renderUpdateOps_perm[OF us dp _ keys_sorted_Nil, of "[]" "[]", simplified]
  show ?thesis
  proof (cases "firestore_renderUpdateOps (UpdateOps a1) [] []")
    case (Inl e)
    with s show ?thesis
      by (simp add: firestore_renderUpdate_def same_state_def same_output_def)
  next
    case (Inr r1)
    with s obtain r2 where r2: "firestore_renderUpdateOps (UpdateOps a2) [] [] = Inr r2"
      and e: "fst r1 = fst r2" "mset (snd r1) = mset (snd r2)"
      by (auto simp add: same_state_def split: sum.splits)
    show ?thesis
      using same_output_toResult[OF e(2), of marshal] e(1)
      by (simp add: firestore_renderUpdate_def Inr r2 eq split_beta)
  qed
qed

lemma couchdb_renderUpdateOps_perm:
  "list_all2 same_UpdateOperation us1 us2 \<Longrightarrow>
   list_all (\<lambda>u. distinct_paths (UpdateOperation_Fields u)) us1 \<Longrightarrow>
   mset ps1 = mset ps2 \<Longrightarrow> keys_sorted updates \<Longrightarrow>
   same_state (couchdb_renderUpdateOps us1 updates ps1) (couchdb_renderUpdateOps us2 updates ps2)"
proof (induction arbitrary: updates ps1 ps2 rule: list_all2_induct)
  case Nil
  then show ?case by (simp add: same_state_def)
next
  case (Cons u1 us1 u2 us2)
  have sm: "same_map (UpdateOperation_Fields u1) (UpdateOperation_Fields u2)"
    and op: "UpdateOperation_Operator u2 = UpdateOperation_Operator u1"
    using Cons.hyps(1) by (simp_all add: same_UpdateOperation_def)
  have dp: "distinct_paths (UpdateOperation_Fields u1)" using Cons.prems(1) by simp
  have rest: "list_all (\<lambda>u. distinct_paths (UpdateOperation_Fields u)) us1"
    using Cons.prems(1) by simp
  let ?step = "\<lambda>(updates, ps) (field, val).
                 (obj_set (Field_Path field) (placeholder (Param_Name val)) updates,
                  ps @ [Param_Name val])"
  have step: "?step (r, ps) e
              = (obj_set (Field_Path (fst e)) (placeholder (Param_Name (snd e))) r,
                 ps @ [Param_Name (snd e)])" for r ps e
    by (cases e) simp
  note f = field_fold_perm[of ?step, OF step sm Cons.prems(2) dp Cons.prems(3)]
  show ?case
  proof (cases "UpdateOperation_Operator u1 \<noteq> UpdateSet")
    case True
    then show ?thesis by (simp add: op same_state_def)
  next
    case False
    note p = f[THEN conjunct2, THEN conjunct1]
    note d = f[THEN conjunct1, symmetric]
    note k = f[THEN conjunct2, THEN conjunct2]
    show ?thesis
      using False Cons.IH[OF rest p k] d
      by (simp add: op split_beta Let_def)
  qed
qed

lemma couchdb_renderUpdate_perm:
  assumes "same_ast a1 a2" and "distinct_field_paths a1"
  shows "same_output (couchdb_renderUpdate marshal a1 []) (couchdb_renderUpdate marshal a2 [])"
proof -
  have eq: "FilterClause a1 = FilterClause a2"
    and us: "list_all2 same_UpdateOperation (UpdateOps a1) (UpdateOps a2)"
    using assms(1) by (simp_all add: same_ast_def)
  have dp: "list_all (\<lambda>u. distinct_paths (UpdateOperation_Fields u)) (UpdateOps a1)"
    using assms(2) by (simp add: distinct_field_paths_def)
  have tr: "same_output
              (case couchdb_renderUpdateOps (UpdateOps a1) [] ps of
                 Inl e \<Rightarrow> Inl e
               | Inr (updates, params2) \<Rightarrow>
                   toResult marshal (obj_set ''updates'' (JObject updates) q) params2)
              (case couchdb_renderUpdateOps (UpdateOps a2) [] ps of
                 Inl e \<Rightarrow> Inl e
               | Inr (updates, params2) \<Rightarrow>
                   toResult marshal (obj_set ''updates'' (JObject updates) q) params2)" for q ps
  proof (cases "couchdb_renderUpdateOps (UpdateOps a1) [] ps")
    case (Inl e)
    with couchdb_renderUpdateOps_perm[OF us dp _ keys_sorted_Nil, of ps ps]
    show ?thesis by (simp add: same_state_def same_output_def)
  next
    case (Inr r1)
    with couchdb_renderUpdateOps_perm[OF us dp _ keys_sorted_Nil, of ps ps]
    obtain r2 where r2: "couchdb_renderUpdateOps (UpdateOps a2) [] ps = Inr r2"
      and e: "fst r1 = fst r2" "mset (snd r1) = mset (snd r2)"
      by (auto simp add: same_state_def split: sum.splits)
    show ?thesis
      using same_output_toResult[OF e(2), of marshal] e(1)
      by (simp add: Inr r2 split_beta)
  qed
  show ?thesis
  proof (cases "FilterClause a2 = NilFilterItem")
    case True
    then show ?thesis
      using tr by (simp add: couchdb_renderUpdate_def eq)
  next
    case False
    show ?thesis
    proof (cases "buildSelector (FilterClause a2) []")
      case (Inl e)
      with False show ?thesis
        by (simp add: couchdb_renderUpdate_def eq same_output_def)
    next
      case (Inr r)
      with False show ?thesis
        using tr by (simp add: couchdb_renderUpdate_def eq split_beta)
    qed
  qed
qed

subsection \<open>Update operations in DynamoDB: the parameters\<close>

lemma fold_paramNames:
  assumes "\<And>acc e. paramNames (fst (step acc e)) = paramNames (fst acc) @ g e"
  shows "paramNames (fst (foldl step acc es)) = paramNames (fst acc) @ concat (map g es)"
  by (induction es arbitrary: acc) (simp_all add: assms)

lemma dynamodb_renderUpdateOps_perm:
  "list_all2 same_UpdateOperation us1 us2 \<Longrightarrow>
   mset (paramNames (fst acc1)) = mset (paramNames (fst acc2)) \<Longrightarrow>
   same_params_state (dynamodb_renderUpdateOps us1 acc1) (dynamodb_renderUpdateOps us2 acc2)"
proof (induction arbitrary: acc1 acc2 rule: list_all2_induct)
  case Nil
  then show ?case by (simp add: same_params_state_def)
next
  case (Cons u1 us1 u2 us2)
  have sm: "same_map (UpdateOperation_Fields u1) (UpdateOperation_Fields u2)"
    and op: "UpdateOperation_Operator u2 = UpdateOperation_Operator u1"
    using Cons.hyps(1) by (simp_all add: same_UpdateOperation_def)
  have mp: "mset (map (\<lambda>e. Param_Name (snd e)) (UpdateOperation_Fields u1))
          = mset (map (\<lambda>e. Param_Name (snd e)) (UpdateOperation_Fields u2))"
    using same_map_mset[OF sm] by simp
  define stepSet :: "exprState \<times> string list \<times> string list \<Rightarrow> Field \<times> Param
                       \<Rightarrow> exprState \<times> string list \<times> string list"
    where "stepSet = (\<lambda>(st, setExprs, removeExprs) (field, val).
                       (let (nameKey, st1) = getName (Field_Path field) st;
                            (valueKey, st2) = getValue (Param_Name val) st1
                        in if UpdateOperation_Operator u1 = UpdateInc
                           then (st2,
                                 setExprs @ [nameKey @ '' = '' @ nameKey @ '' + '' @ valueKey],
                                 removeExprs)
                           else (st2, setExprs @ [nameKey @ '' = '' @ valueKey], removeExprs)))"
  define stepUnset :: "exprState \<times> string list \<times> string list \<Rightarrow> Field \<times> Param
                       \<Rightarrow> exprState \<times> string list \<times> string list"
    where "stepUnset = (\<lambda>(st, setExprs, removeExprs) (field, val).
                       (let (nameKey, st1) = getName (Field_Path field) st
                        in (st1, setExprs, removeExprs @ [nameKey])))"
  have pSet: "paramNames (fst (stepSet acc e)) = paramNames (fst acc) @ [Param_Name (snd e)]"
    for acc e
    by (cases acc; cases e) (simp add: stepSet_def getName_def getValue_def Let_def split_beta)
  have pUnset: "paramNames (fst (stepUnset acc e)) = paramNames (fst acc) @ []" for acc e
    by (cases acc; cases e) (simp add: stepUnset_def getName_def Let_def split_beta)
  have fSet: "mset (paramNames (fst (foldl stepSet acc1 (UpdateOperation_Fields u1))))
            = mset (paramNames (fst (foldl stepSet acc2 (UpdateOperation_Fields u2))))"
    using fold_paramNames[of stepSet, OF pSet] Cons.prems mp by simp
  have fUnset: "mset (paramNames (fst (foldl stepUnset acc1 (UpdateOperation_Fields u1))))
            = mset (paramNames (fst (foldl stepUnset acc2 (UpdateOperation_Fields u2))))"
  proof -
    have c0: "concat (map (\<lambda>e. []) es) = ([] :: string list)"
      for es :: "(Field \<times> Param) list"
      by (induction es) simp_all
    show ?thesis using fold_paramNames[of stepUnset, OF pUnset] Cons.prems by (simp add: c0)
  qed
  show ?case
  proof (cases "UpdateOperation_Operator u1 = UpdateSet \<or> UpdateOperation_Operator u1 = UpdateInc")
    case True
    then have "dynamodb_renderUpdateOps (u1 # us1) acc1
               = dynamodb_renderUpdateOps us1 (foldl stepSet acc1 (UpdateOperation_Fields u1))"
      and "dynamodb_renderUpdateOps (u2 # us2) acc2
               = dynamodb_renderUpdateOps us2 (foldl stepSet acc2 (UpdateOperation_Fields u2))"
      by (simp_all add: op stepSet_def)
    then show ?thesis using Cons.IH[OF fSet] by simp
  next
    case False
    show ?thesis
    proof (cases "UpdateOperation_Operator u1 = UpdateUnset")
      case True
      with False have "dynamodb_renderUpdateOps (u1 # us1) acc1
               = dynamodb_renderUpdateOps us1 (foldl stepUnset acc1 (UpdateOperation_Fields u1))"
        and "dynamodb_renderUpdateOps (u2 # us2) acc2
               = dynamodb_renderUpdateOps us2 (foldl stepUnset acc2 (UpdateOperation_Fields u2))"
        by (simp_all add: op stepUnset_def)
      then show ?thesis using Cons.IH[OF fUnset] by simp
    next
      case nu: False
      with False show ?thesis by (simp add: op same_params_state_def)
    qed
  qed
qed

lemma dynamodb_renderUpdateItem_perm:
  assumes "same_ast a1 a2" and "\<forall>j. marshal j \<noteq> None"
  shows "same_params (dynamodb_renderUpdateItem marshal a1 [])
                     (dynamodb_renderUpdateItem marshal a2 [])"
proof -
  have us: "list_all2 same_UpdateOperation (UpdateOps a1) (UpdateOps a2)"
    using assms(1) by (simp_all add: same_ast_def)
  let ?st = "\<lparr>attrNames = [], attrValues = [], nameCounter = 0, valueCounter = 0,
                paramNames = []\<rparr>"
  note s = dynamodb_renderUpdateOps_perm[OF us, of "(?st, [], [])" "(?st, [], [])", simplified]
  have tr: "\<exists>q. toResult marshal query ps = Inr q \<and> RequiredParams q = ps" for query ps
    using assms(2) by (auto simp add: toResult_def split: option.splits)
  show ?thesis
  proof (cases "dynamodb_renderUpdateOps (UpdateOps a1) (?st, [], [])")
    case (Inl e)
    with s show ?thesis
      by (simp add: dynamodb_renderUpdateItem_def same_params_state_def same_params_def)
  next
    case (Inr r1)
    with s obtain r2 where r2: "dynamodb_renderUpdateOps (UpdateOps a2) (?st, [], []) = Inr r2"
      and e: "mset (paramNames (fst r1)) = mset (paramNames (fst r2))"
      by (auto simp add: same_params_state_def split: sum.splits)
    obtain q1 where q1: "dynamodb_renderUpdateItem marshal a1 [] = Inr q1"
      and p1: "RequiredParams q1 = paramNames (fst r1)"
      using tr by (simp add: dynamodb_renderUpdateItem_def Inr split_beta Let_def) metis
    obtain q2 where q2: "dynamodb_renderUpdateItem marshal a2 [] = Inr q2"
      and p2: "RequiredParams q2 = paramNames (fst r2)"
      using tr by (simp add: dynamodb_renderUpdateItem_def r2 split_beta Let_def) metis
    show ?thesis using e by (simp add: same_params_def q1 q2 p1 p2)
  qed
qed

subsection \<open>MongoDB aggregation\<close>

lemma mongodb_renderExpressions_append:
  "(\<And>a. a \<in> set args \<Longrightarrow> \<exists>j p. \<forall>ps. mongodb_renderExpression a ps = (j, ps @ p)) \<Longrightarrow>
   \<exists>js p. \<forall>r ps. mongodb_renderExpressions args r ps = (r @ js, ps @ p)"
proof (induction args)
  case Nil
  show ?case by simp
next
  case (Cons a args)
  from Cons.prems[of a] obtain j p where a: "\<And>ps. mongodb_renderExpression a ps = (j, ps @ p)"
    by auto
  from Cons.IH Cons.prems obtain js q
    where r: "\<And>r ps. mongodb_renderExpressions args r ps = (r @ js, ps @ q)"
    by auto
  have "\<forall>r ps. mongodb_renderExpressions (a # args) r ps = (r @ (j # js), ps @ (p @ q))"
    by (simp add: a r)
  then show ?case by blast
qed

lemma mongodb_renderExpression_append:
  "\<exists>j p. \<forall>ps. mongodb_renderExpression e ps = (j, ps @ p)"
proof (induction e)
  case (OperatorExpression operator args)
  from mongodb_renderExpressions_append[of args] OperatorExpression obtain js p
    where "\<And>r ps. mongodb_renderExpressions args r ps = (r @ js, ps @ p)"
    by blast
  then have "\<forall>ps. mongodb_renderExpression (OperatorExpression operator args) ps
                  = (JObject [(operator, JArray js)], ps @ p)"
    by simp
  then show ?case by blast
next
  case (ConditionalExpression i t e)
  from ConditionalExpression obtain ji pi jt pt je pe
    where "\<And>ps. mongodb_renderExpression i ps = (ji, ps @ pi)"
      and "\<And>ps. mongodb_renderExpression t ps = (jt, ps @ pt)"
      and "\<And>ps. mongodb_renderExpression e ps = (je, ps @ pe)"
    by blast
  then have "\<forall>ps. mongodb_renderExpression (ConditionalExpression i t e) ps
                  = (JObject [(''$cond'', JObject (obj [(''if'', ji), (''then'', jt), (''else'', je)]))],
                     ps @ (pi @ pt @ pe))"
    by simp
  then show ?case by blast
qed auto

lemma mongodb_renderExpression_split:
  "\<exists>val g. \<forall>e ps. mongodb_renderExpression e ps = (val e, ps @ g e)"
proof -
  have "\<forall>e. \<exists>jp. \<forall>ps. mongodb_renderExpression e ps = (fst jp, ps @ snd jp)"
    using mongodb_renderExpression_append by simp
  then obtain F where "\<forall>e ps. mongodb_renderExpression e ps = (fst (F e), ps @ snd (F e))"
    by metis
  then show ?thesis
    by (intro exI[of _ "\<lambda>e. fst (F e)"] exI[of _ "\<lambda>e. snd (F e)"]) simp
qed

lemma mongodb_renderFilter_perm:
  "mset ps1 = mset ps2 \<Longrightarrow>
   same_state (mongodb_renderFilter f ps1) (mongodb_renderFilter f ps2)"
  "mset ps1 = mset ps2 \<Longrightarrow>
   same_state (mongodb_renderFilters cs acc ps1) (mongodb_renderFilters cs acc ps2)"
  "mset ps1 = mset ps2 \<Longrightarrow>
   same_state (mongodb_renderElemMatch cs conds ps1) (mongodb_renderElemMatch cs conds ps2)"
proof (induction f ps1 and cs acc ps1 and cs conds ps1 arbitrary: ps2 and ps2 and ps2
    rule: mongodb_renderFilter_mongodb_renderFilters_mongodb_renderElemMatch.induct)
  case (3 logic conditions params)
  from 3(1)[OF 3(2)] show ?case
    by (auto simp add: same_state_def split: sum.splits)
next
  case (9 field conditions params)
  from 9(1)[OF 9(2)] show ?case
    by (auto simp add: same_state_def split: sum.splits)
next
  case (13 c cs conditions params)
  show ?case
  proof (cases "mongodb_renderFilter c params")
    case (Inl e)
    with 13(1)[OF 13(3)] show ?thesis by (simp add: same_state_def)
  next
    case (Inr rp)
    obtain rendered params' where rp: "rp = (rendered, params')" by (cases rp)
    from 13(1)[OF 13(3)] Inr rp obtain params2 where
      r2: "mongodb_renderFilter c ps2 = Inr (rendered, params2)"
      and m: "mset params' = mset params2"
      by (auto simp add: same_state_def split: sum.splits)
    from 13(2)[OF Inr[unfolded rp] refl m] show ?thesis
      by (simp add: Inr rp r2)
  qed
next
  case (15 c cs conditions params)
  show ?case
  proof (cases "mongodb_renderFilter c params")
    case (Inl e)
    with 15(1)[OF 15(3)] show ?thesis by (simp add: same_state_def)
  next
    case (Inr rp)
    obtain rendered params' where rp: "rp = (rendered, params')" by (cases rp)
    from 15(1)[OF 15(3)] Inr rp obtain params2 where
      r2: "mongodb_renderFilter c ps2 = Inr (rendered, params2)"
      and m: "mset params' = mset params2"
      by (auto simp add: same_state_def split: sum.splits)
    from 15(2)[OF Inr[unfolded rp] refl m] show ?thesis
      by (simp add: Inr rp r2)
  qed
qed (simp_all add: same_state_def Let_def split: option.splits)

lemma expr_fold_perm:
  assumes step: "\<And>m ps e. step (m, ps) e
                   = (let (r, ps') = mongodb_renderExpression (ex e) ps
                      in (obj_set (fst e) (wrap e r) m, ps'))"
    and sm: "same_map m1 m2" and ps: "mset ps1 = mset ps2" and ks: "keys_sorted r0"
  shows "fst (foldl step (r0, ps1) m1) = fst (foldl step (r0, ps2) m2)
       \<and> mset (snd (foldl step (r0, ps1) m1)) = mset (snd (foldl step (r0, ps2) m2))"
proof -
  obtain val g where vg: "\<And>e ps. mongodb_renderExpression e ps = (val e, ps @ g e)"
    using mongodb_renderExpression_split by blast
  have st: "step (m, ps) e = (obj_set (fst e) (wrap e (val (ex e))) m, ps @ g (ex e))" for m ps e
    by (simp add: step vg)
  note mp = same_map_mset[OF sm]
  note mp' = mp[symmetric]
  have d: "distinct (map fst m1)" using sm by (simp add: same_map_def)
  have "mset (snd (foldl step (r0, ps1) m1)) = mset (snd (foldl step (r0, ps2) m2))"
    using map_fold_perm(1)[of step, OF st mp, of r0 ps1]
      map_fold_perm(1)[of step, OF st mp', of r0 ps2]
      map_fold_perm(2)[of step, OF st mp] ps
    by simp
  moreover have "fst (foldl step (r0, ps1) m1) = fst (foldl step (r0, ps2) m2)"
    using map_fold_perm(3)[of step, OF st mp ks, of ps1 ps2] d by simp
  ultimately show ?thesis by simp
qed

lemma mongodb_renderExpression_perm:
  assumes "mset ps1 = mset ps2"
  shows "fst (mongodb_renderExpression e ps1) = fst (mongodb_renderExpression e ps2)
       \<and> mset (snd (mongodb_renderExpression e ps1)) = mset (snd (mongodb_renderExpression e ps2))"
proof -
  obtain val g where vg: "\<And>e ps. mongodb_renderExpression e ps = (val e, ps @ g e)"
    using mongodb_renderExpression_split by blast
  show ?thesis using assms by (simp add: vg)
qed

lemma keys_sorted_single: "keys_sorted [(k, v)]"
  by (simp add: keys_sorted_def)

lemma mongodb_renderGroup_perm:
  assumes sm: "same_map acc1 acc2" and ps: "mset ps1 = mset ps2"
  shows "same_state (mongodb_renderPipelineStage (GroupStage ident acc1) ps1)
                    (mongodb_renderPipelineStage (GroupStage ident acc2) ps2)"
proof -
  define step :: "(string \<times> json) list \<times> string list \<Rightarrow> string \<times> Accumulator
                    \<Rightarrow> (string \<times> json) list \<times> string list"
    where "step = (\<lambda>(grp, ps) (name, acc).
                     (let (r, ps') = mongodb_renderExpression (Accumulator_Expr acc) ps
                      in (obj_set name (JObject [(Accumulator_Operator acc, r)]) grp, ps')))"
  have st: "step (m, ps) e
            = (let (r, ps') = mongodb_renderExpression (Accumulator_Expr (snd e)) ps
               in (obj_set (fst e) (JObject [(Accumulator_Operator (snd e), r)]) m, ps'))"
    for m ps e
    by (cases e) (simp add: step_def)
  have unf: "mongodb_renderPipelineStage (GroupStage ident acc) ps
             = Inr (JObject [(''$group'',
                      JObject (fst (foldl step
                         (obj_set ''_id'' (fst (mongodb_renderExpression ident ps)) [],
                          snd (mongodb_renderExpression ident ps)) acc)))],
                    snd (foldl step
                         (obj_set ''_id'' (fst (mongodb_renderExpression ident ps)) [],
                          snd (mongodb_renderExpression ident ps)) acc))"
    for acc ps
    by (simp add: step_def split_beta Let_def)
  note e = mongodb_renderExpression_perm[OF ps, of ident]
  note f = expr_fold_perm[of step "\<lambda>e. Accumulator_Expr (snd e)"
      "\<lambda>e r. JObject [(Accumulator_Operator (snd e), r)]", OF st sm e[THEN conjunct2]
      keys_sorted_single, of "''_id''" "fst (mongodb_renderExpression ident ps1)"]
  show ?thesis
    unfolding unf using f e[THEN conjunct1] by (simp add: same_state_def)
qed

lemma mongodb_renderAddFields_perm:
  assumes sm: "same_map fs1 fs2" and ps: "mset ps1 = mset ps2"
  shows "same_state (mongodb_renderPipelineStage (AddFieldsStage fs1) ps1)
                    (mongodb_renderPipelineStage (AddFieldsStage fs2) ps2)"
proof -
  define step :: "(string \<times> json) list \<times> string list \<Rightarrow> string \<times> Expression
                    \<Rightarrow> (string \<times> json) list \<times> string list"
    where "step = (\<lambda>(m, ps) (name, expr).
                     (let (r, ps') = mongodb_renderExpression expr ps
                      in (obj_set name r m, ps')))"
  have st: "step (m, ps) e
            = (let (r, ps') = mongodb_renderExpression (snd e) ps
               in (obj_set (fst e) r m, ps'))"
    for m ps e
    by (cases e) (simp add: step_def)
  have unf: "mongodb_renderPipelineStage (AddFieldsStage fs) ps
             = Inr (JObject [(''$addFields'', JObject (fst (foldl step ([], ps) fs)))],
                    snd (foldl step ([], ps) fs))"
    for fs ps
    by (simp add: step_def split_beta Let_def)
  note f = expr_fold_perm[of step snd "\<lambda>e r. r", OF st sm ps keys_sorted_Nil]
  show ?thesis
    unfolding unf using f by (simp add: same_state_def)
qed

lemma mongodb_stageValue_perm:
  "mset ps1 = mset ps2 \<Longrightarrow>
   fst (mongodb_stageValue pv ps1) = fst (mongodb_stageValue pv ps2)
   \<and> mset (snd (mongodb_stageValue pv ps1)) = mset (snd (mongodb_stageValue pv ps2))"
  by (simp add: mongodb_stageValue_def split: option.splits)

lemma mongodb_renderPipelineStage_same:
  assumes "mset ps1 = mset ps2"
    and "\<not> (\<exists>i a. s = GroupStage i a)" and "\<not> (\<exists>fs. s = AddFieldsStage fs)"
  shows "same_state (mongodb_renderPipelineStage s ps1) (mongodb_renderPipelineStage s ps2)"
proof (cases s)
  case (MatchStage flt)
  from mongodb_renderFilter_perm(1)[OF assms(1), of flt] show ?thesis
    by (auto simp add: MatchStage same_state_def split: sum.splits)
next
  case (GroupStage ident accs)
  with assms(2) show ?thesis by simp
next
  case (AddFieldsStage fs)
  with assms(3) show ?thesis by simp
next
  case (LimitStage pv)
  from mongodb_stageValue_perm[OF assms(1), of pv] show ?thesis
    by (simp add: LimitStage same_state_def split_beta)
next
  case (SkipStage pv)
  from mongodb_stageValue_perm[OF assms(1), of pv] show ?thesis
    by (simp add: SkipStage same_state_def split_beta)
qed (simp_all add: same_state_def assms(1) Let_def)

lemma mongodb_renderPipelineStage_perm:
  assumes "same_stage s1 s2" and "mset ps1 = mset ps2"
  shows "same_state (mongodb_renderPipelineStage s1 ps1) (mongodb_renderPipelineStage s2 ps2)"
proof (cases "\<exists>i a. s1 = GroupStage i a")
  case True
  then obtain i a where s1: "s1 = GroupStage i a" by blast
  with assms(1) obtain a' where s2: "s2 = GroupStage i a'" and sm: "same_map a a'"
    by (cases s2) simp_all
  show ?thesis unfolding s1 s2 by (rule mongodb_renderGroup_perm[OF sm assms(2)])
next
  case ng: False
  show ?thesis
  proof (cases "\<exists>fs. s1 = AddFieldsStage fs")
    case True
    then obtain fs where s1: "s1 = AddFieldsStage fs" by blast
    with assms(1) obtain fs' where s2: "s2 = AddFieldsStage fs'" and sm: "same_map fs fs'"
      by (cases s2) simp_all
    show ?thesis unfolding s1 s2 by (rule mongodb_renderAddFields_perm[OF sm assms(2)])
  next
    case False
    with ng assms(1) have "s1 = s2" by (cases s1; cases s2) simp_all
    then show ?thesis using mongodb_renderPipelineStage_same[OF assms(2) ng False] by simp
  qed
qed

lemma mongodb_renderStages_perm:
  "list_all2 same_stage ss1 ss2 \<Longrightarrow> mset ps1 = mset ps2 \<Longrightarrow>
   same_state (mongodb_renderStages ss1 pipeline ps1) (mongodb_renderStages ss2 pipeline ps2)"
proof (induction arbitrary: pipeline ps1 ps2 rule: list_all2_induct)
  case Nil
  then show ?case by (simp add: same_state_def)
next
  case (Cons s1 ss1 s2 ss2)
  note h = mongodb_renderPipelineStage_perm[OF Cons.hyps(1) Cons.prems]
  show ?case
  proof (cases "mongodb_renderPipelineStage s1 ps1")
    case (Inl e)
    with h show ?thesis by (simp add: same_state_def)
  next
    case (Inr rp)
    obtain rendered params' where rp: "rp = (rendered, params')" by (cases rp)
    from h Inr rp obtain params2 where
      r2: "mongodb_renderPipelineStage s2 ps2 = Inr (rendered, params2)"
      and m: "mset params' = mset params2"
      by (auto simp add: same_state_def split: sum.splits)
    from Cons.IH[OF m] show ?thesis by (simp add: Inr rp r2)
  qed
qed

lemma mongodb_renderAggregate_perm:
  assumes "same_ast a1 a2"
  shows "same_output (mongodb_renderAggregate marshal a1 [])
                     (mongodb_renderAggregate marshal a2 [])"
proof -
  have eq: "Operation a1 = Operation a2" "Target a1 = Target a2"
    and ss: "list_all2 same_stage (Pipeline a1) (Pipeline a2)"
    using assms by (simp_all add: same_ast_def)
  note h = mongodb_renderStages_perm[OF ss, of "[]" "[]" "[]"]
  show ?thesis
  proof (cases "mongodb_renderStages (Pipeline a1) [] []")
    case (Inl e)
    with h show ?thesis by (simp add: same_state_def same_output_def mongodb_renderAggregate_def)
  next
    case (Inr rp)
    obtain pl params1 where rp: "rp = (pl, params1)" by (cases rp)
    from h Inr rp obtain params2 where
      r2: "mongodb_renderStages (Pipeline a2) [] [] = Inr (pl, params2)"
      and m: "mset params1 = mset params2"
      by (auto simp add: same_state_def split: sum.splits)
    show ?thesis
      using same_output_toResult[OF m, of marshal]
      by (simp add: mongodb_renderAggregate_def Inr rp r2 eq)
  qed
qed

subsection \<open>The four renderers\<close>

lemma same_ast_fields:
  assumes "same_ast a1 a2"
  shows "Operation a2 = Operation a1" "Target a2 = Target a1"
    "FilterClause a2 = FilterClause a1" "Projection a2 = Projection a1"
    "SortClauses a2 = SortClauses a1" "Skip a2 = Skip a1" "Limit a2 = Limit a1"
    "Upsert a2 = Upsert a1" "DistinctField a2 = DistinctField a1"
  using assms by (simp_all add: same_ast_def)

lemma mongodb_Render_perm:
  assumes s: "same_ast a1 a2" and d: "distinct_field_paths a1"
  shows "same_output (mongodb_Render marshal a1) (mongodb_Render marshal a2)"
proof -
  note e = same_ast_fields[OF s]
  note v = same_ast_Validate[OF s, symmetric]
  have f: "mongodb_renderFind marshal a2 [] = mongodb_renderFind marshal a1 []"
    unfolding mongodb_renderFind_def e by (rule refl)
  have dl: "mongodb_renderDelete marshal a2 [] = mongodb_renderDelete marshal a1 []"
    unfolding mongodb_renderDelete_def e by (rule refl)
  have c: "mongodb_renderCount marshal a2 [] = mongodb_renderCount marshal a1 []"
    unfolding mongodb_renderCount_def e by (rule refl)
  have di: "mongodb_renderDistinct marshal a2 [] = mongodb_renderDistinct marshal a1 []"
    unfolding mongodb_renderDistinct_def e by (rule refl)
  show ?thesis
  proof (cases "Validate a1")
    case (Some err)
    then show ?thesis by (simp add: mongodb_Render_def v same_output_def)
  next
    case None
    show ?thesis
      unfolding mongodb_Render_def v None e(1)
      by (simp add: f dl c di same_output_refl mongodb_renderUpdateMany_def
          mongodb_renderDeleteMany_def
          mongodb_renderInsert_perm[OF s d] mongodb_renderInsertMany_perm[OF s d]
          mongodb_renderUpdate_perm[OF s d] mongodb_renderAggregate_perm[OF s])
  qed
qed

lemma firestore_Render_perm:
  assumes s: "same_ast a1 a2" and d: "distinct_field_paths a1"
  shows "same_output (firestore_Render marshal a1) (firestore_Render marshal a2)"
proof -
  note e = same_ast_fields[OF s]
  note v = same_ast_Validate[OF s, symmetric]
  have f: "firestore_renderQuery marshal a2 [] = firestore_renderQuery marshal a1 []"
    unfolding firestore_renderQuery_def e by (rule refl)
  have dl: "firestore_renderDelete marshal a2 [] = firestore_renderDelete marshal a1 []"
    unfolding firestore_renderDelete_def e by (rule refl)
  show ?thesis
  proof (cases "Validate a1")
    case (Some err)
    then show ?thesis by (simp add: firestore_Render_def v same_output_def)
  next
    case None
    show ?thesis
      unfolding firestore_Render_def v None e(1)
      by (simp add: f dl same_output_refl
          firestore_renderAdd_perm[OF s d] firestore_renderUpdate_perm[OF s d])
  qed
qed

lemma couchdb_Render_perm:
  assumes s: "same_ast a1 a2" and d: "distinct_field_paths a1"
  shows "same_output (couchdb_Render marshal a1) (couchdb_Render marshal a2)"
proof -
  note e = same_ast_fields[OF s]
  note v = same_ast_Validate[OF s, symmetric]
  have f: "couchdb_renderFind marshal a2 [] = couchdb_renderFind marshal a1 []"
    unfolding couchdb_renderFind_def e by (rule refl)
  have dl: "couchdb_renderDelete marshal a2 [] = couchdb_renderDelete marshal a1 []"
    unfolding couchdb_renderDelete_def e by (rule refl)
  show ?thesis
  proof (cases "Validate a1")
    case (Some err)
    then show ?thesis by (simp add: couchdb_Render_def v same_output_def)
  next
    case None
    show ?thesis
      unfolding couchdb_Render_def v None e(1)
      by (simp add: f dl same_output_refl
          couchdb_renderInsert_perm[OF s d] couchdb_renderUpdate_perm[OF s d])
  qed
qed

lemma same_output_params: "same_output r1 r2 \<Longrightarrow> same_params r1 r2"
  by (simp add: same_output_def same_params_def split: sum.splits)

lemma dynamodb_Render_perm:
  assumes s: "same_ast a1 a2" and d: "distinct_field_paths a1"
  shows "Operation a1 \<noteq> OpUpdate \<Longrightarrow>
         same_output (dynamodb_Render marshal a1) (dynamodb_Render marshal a2)"
    and "\<forall>j. marshal j \<noteq> None \<Longrightarrow>
         same_params (dynamodb_Render marshal a1) (dynamodb_Render marshal a2)"
proof -
  note e = same_ast_fields[OF s]
  note v = same_ast_Validate[OF s, symmetric]
  have f: "dynamodb_renderQuery marshal a2 [] = dynamodb_renderQuery marshal a1 []"
    unfolding dynamodb_renderQuery_def e by (rule refl)
  have dl: "dynamodb_renderDeleteItem marshal a2 [] = dynamodb_renderDeleteItem marshal a1 []"
    unfolding dynamodb_renderDeleteItem_def e by (rule refl)
  show o: "same_output (dynamodb_Render marshal a1) (dynamodb_Render marshal a2)"
    if nu: "Operation a1 \<noteq> OpUpdate"
  proof (cases "Validate a1")
    case (Some err)
    then show ?thesis by (simp add: dynamodb_Render_def v same_output_def)
  next
    case None
    show ?thesis
      unfolding dynamodb_Render_def v None e(1)
      by (simp add: f dl nu same_output_refl dynamodb_renderPutItem_perm[OF s d])
  qed
  show "same_params (dynamodb_Render marshal a1) (dynamodb_Render marshal a2)"
    if tot: "\<forall>j. marshal j \<noteq> None"
  proof (cases "Operation a1 = OpUpdate")
    case False
    then show ?thesis by (rule same_output_params[OF o])
  next
    case True
    show ?thesis
    proof (cases "Validate a1")
      case (Some err)
      then show ?thesis by (simp add: dynamodb_Render_def v same_params_def)
    next
      case None
      show ?thesis
        unfolding dynamodb_Render_def v None e(1)
        by (simp add: True dynamodb_SupportsOperation_def
            dynamodb_renderUpdateItem_perm[OF s tot])
    qed
  qed
qed

text \<open>
  C2 claims that two invocations of \<^verbatim>\<open>Render\<close> on one validated AST give the same JSON and the
  same sequence of required parameters, for every renderer. The renderers range over Go maps
  (the fields of a document and of an update operation, the accumulators of a group stage,
  the fields of an addFields stage) and append a parameter per entry in the order of the
  visit, which is not fixed; the DynamoDB renderer also numbers the placeholders of an
  update in that order. What holds, on a validated AST in which no document and no update
  operation has two fields of the same path, for two invocations that visit the maps in
  any two orders: the MongoDB, Firestore and CouchDB renderers, and the DynamoDB renderer
  on every operation but the update, give the same error or else the same JSON and the same
  required parameters up to their order; the DynamoDB renderer on an update gives the same
  error or else the same required parameters up to their order, provided serialization
  does not fail; and when none of the maps has more than one entry all four renderers give
  the same result, parameter sequence included.
\<close>

theorem C2_Render_twice_up_to_map_order:
  assumes "Validate a1 = None" and "same_ast a1 a2" and "distinct_field_paths a1"
  shows "same_output (mongodb_Render marshal a1) (mongodb_Render marshal a2)
       \<and> same_output (firestore_Render marshal a1) (firestore_Render marshal a2)
       \<and> same_output (couchdb_Render marshal a1) (couchdb_Render marshal a2)
       \<and> (Operation a1 \<noteq> OpUpdate \<longrightarrow>
            same_output (dynamodb_Render marshal a1) (dynamodb_Render marshal a2))
       \<and> ((\<forall>j. marshal j \<noteq> None) \<longrightarrow>
            same_params (dynamodb_Render marshal a1) (dynamodb_Render marshal a2))
       \<and> (single_entry_maps a1 \<longrightarrow>
            mongodb_Render marshal a1 = mongodb_Render marshal a2
            \<and> firestore_Render marshal a1 = firestore_Render marshal a2
            \<and> couchdb_Render marshal a1 = couchdb_Render marshal a2
            \<and> dynamodb_Render marshal a1 = dynamodb_Render marshal a2)"
proof -
  have "a1 = a2" if "single_entry_maps a1"
    using same_ast_single[OF assms(2) that] .
  then show ?thesis
    using mongodb_Render_perm[OF assms(2,3), of marshal]
      firestore_Render_perm[OF assms(2,3), of marshal]
      couchdb_Render_perm[OF assms(2,3), of marshal]
      dynamodb_Render_perm[OF assms(2,3), of marshal]
    by blast
qed

theorem C2_Render_twice_up_to_map_order_witness:
  "same_ast
     ((newAST OpInsert (Collection ''users''))
        \<lparr>Documents := [Document [(Field ''email'' ''users'', Param ''email''),
                                  (Field ''name'' ''users'', Param ''name'')]]\<rparr>)
     ((newAST OpInsert (Collection ''users''))
        \<lparr>Documents := [Document [(Field ''name'' ''users'', Param ''name''),
                                  (Field ''email'' ''users'', Param ''email'')]]\<rparr>)
   \<and> distinct_field_paths
       ((newAST OpInsert (Collection ''users''))
          \<lparr>Documents := [Document [(Field ''email'' ''users'', Param ''email''),
                                    (Field ''name'' ''users'', Param ''name'')]]\<rparr>)
   \<and> same_output
       (mongodb_Render marshalPlain
          ((newAST OpInsert (Collection ''users''))
             \<lparr>Documents := [Document [(Field ''email'' ''users'', Param ''email''),
                                       (Field ''name'' ''users'', Param ''name'')]]\<rparr>))
       (mongodb_Render marshalPlain
          ((newAST OpInsert (Collection ''users''))
             \<lparr>Documents := [Document [(Field ''name'' ''users'', Param ''name''),
                                       (Field ''email'' ''users'', Param ''email'')]]\<rparr>))
   \<and> same_output
       (dynamodb_Render marshalPlain
          ((newAST OpInsert (Collection ''users''))
             \<lparr>Documents := [Document [(Field ''email'' ''users'', Param ''email''),
                                       (Field ''name'' ''users'', Param ''name'')]]\<rparr>))
       (dynamodb_Render marshalPlain
          ((newAST OpInsert (Collection ''users''))
             \<lparr>Documents := [Document [(Field ''name'' ''users'', Param ''name''),
                                       (Field ''email'' ''users'', Param ''email'')]]\<rparr>))
   \<and> same_ast
       ((newAST OpUpdate (Collection ''users''))
          \<lparr>UpdateOps := [UpdateOperation UpdateSet
                            [(Field ''email'' ''users'', Param ''email''),
                             (Field ''name'' ''users'', Param ''name'')]]\<rparr>)
       ((newAST OpUpdate (Collection ''users''))
          \<lparr>UpdateOps := [UpdateOperation UpdateSet
                            [(Field ''name'' ''users'', Param ''name''),
                             (Field ''email'' ''users'', Param ''email'')]]\<rparr>)
   \<and> (\<forall>j. marshalPlain j \<noteq> None)
   \<and> same_params
       (dynamodb_Render marshalPlain
          ((newAST OpUpdate (Collection ''users''))
             \<lparr>UpdateOps := [UpdateOperation UpdateSet
                               [(Field ''email'' ''users'', Param ''email''),
                                (Field ''name'' ''users'', Param ''name'')]]\<rparr>))
       (dynamodb_Render marshalPlain
          ((newAST OpUpdate (Collection ''users''))
             \<lparr>UpdateOps := [UpdateOperation UpdateSet
                               [(Field ''name'' ''users'', Param ''name''),
                                (Field ''email'' ''users'', Param ''email'')]]\<rparr>))
   \<and> single_entry_maps
       ((newAST OpInsert (Collection ''users''))
          \<lparr>Documents := [Document [(Field ''email'' ''users'', Param ''email'')]]\<rparr>)
   \<and> couchdb_Render marshalPlain
       ((newAST OpInsert (Collection ''users''))
          \<lparr>Documents := [Document [(Field ''email'' ''users'', Param ''email'')]]\<rparr>)
     = couchdb_Render marshalPlain
       ((newAST OpInsert (Collection ''users''))
          \<lparr>Documents := [Document [(Field ''email'' ''users'', Param ''email'')]]\<rparr>)"
proof -
  let ?a1 = "(newAST OpInsert (Collection ''users''))
        \<lparr>Documents := [Document [(Field ''email'' ''users'', Param ''email''),
                                  (Field ''name'' ''users'', Param ''name'')]]\<rparr>"
  let ?a2 = "(newAST OpInsert (Collection ''users''))
        \<lparr>Documents := [Document [(Field ''name'' ''users'', Param ''name''),
                                  (Field ''email'' ''users'', Param ''email'')]]\<rparr>"
  let ?u1 = "(newAST OpUpdate (Collection ''users''))
          \<lparr>UpdateOps := [UpdateOperation UpdateSet
                            [(Field ''email'' ''users'', Param ''email''),
                             (Field ''name'' ''users'', Param ''name'')]]\<rparr>"
  let ?u2 = "(newAST OpUpdate (Collection ''users''))
          \<lparr>UpdateOps := [UpdateOperation UpdateSet
                            [(Field ''name'' ''users'', Param ''name''),
                             (Field ''email'' ''users'', Param ''email'')]]\<rparr>"
  let ?a = "(newAST OpInsert (Collection ''users''))
        \<lparr>Documents := [Document [(Field ''email'' ''users'', Param ''email'')]]\<rparr>"
  have va: "Validate ?a1 = None"
    by (simp add: Validate_Insert validateInsert_def newAST_def)
  have sa: "same_ast ?a1 ?a2"
    by (auto simp add: same_ast_def same_Document_def same_map_def newAST_def)
  have da: "distinct_field_paths ?a1"
    by (simp add: distinct_field_paths_def distinct_paths_def newAST_def)
  have oa: "Operation ?a1 \<noteq> OpUpdate"
    by (simp add: newAST_def)
  have vu: "Validate ?u1 = None"
    by (simp add: Validate_Update validateUpdate_def newAST_def)
  have su: "same_ast ?u1 ?u2"
    by (auto simp add: same_ast_def same_UpdateOperation_def same_map_def newAST_def)
  have du: "distinct_field_paths ?u1"
    by (simp add: distinct_field_paths_def distinct_paths_def newAST_def)
  have tot: "\<forall>j. marshalPlain j \<noteq> None"
    by (simp add: marshalPlain_def)
  have v: "Validate ?a = None"
    by (simp add: Validate_Insert validateInsert_def newAST_def)
  have s: "same_ast ?a ?a"
    by (simp add: same_ast_def same_Document_def same_map_def newAST_def)
  have d: "distinct_field_paths ?a"
    by (simp add: distinct_field_paths_def distinct_paths_def newAST_def)
  have m: "single_entry_maps ?a"
    by (simp add: single_entry_maps_def newAST_def)
  note t1 = C2_Render_twice_up_to_map_order[OF va sa da, of marshalPlain]
  note t2 = C2_Render_twice_up_to_map_order[OF vu su du, of marshalPlain]
  note t3 = C2_Render_twice_up_to_map_order[OF v s d, of marshalPlain]
  from t1 oa have c1: "same_output (mongodb_Render marshalPlain ?a1) (mongodb_Render marshalPlain ?a2)"
    and c2: "same_output (dynamodb_Render marshalPlain ?a1) (dynamodb_Render marshalPlain ?a2)"
    by blast+
  from t2 tot have c3: "same_params (dynamodb_Render marshalPlain ?u1)
                                    (dynamodb_Render marshalPlain ?u2)"
    by blast
  from t3 m have c4: "couchdb_Render marshalPlain ?a = couchdb_Render marshalPlain ?a"
    by blast
  show ?thesis
    using sa da c1 c2 su tot c3 m c4 by blast
qed

theorem C2_map_order_counterexample:
  "same_ast
     ((newAST OpInsert (Collection ''users''))
        \<lparr>Documents := [Document [(Field ''email'' ''users'', Param ''email''),
                                  (Field ''name'' ''users'', Param ''name'')]]\<rparr>)
     ((newAST OpInsert (Collection ''users''))
        \<lparr>Documents := [Document [(Field ''name'' ''users'', Param ''name''),
                                  (Field ''email'' ''users'', Param ''email'')]]\<rparr>)
   \<and> Validate
       ((newAST OpInsert (Collection ''users''))
          \<lparr>Documents := [Document [(Field ''email'' ''users'', Param ''email''),
                                    (Field ''name'' ''users'', Param ''name'')]]\<rparr>) = None
   \<and> map_sum id RequiredParams
       (mongodb_Render marshalPlain
          ((newAST OpInsert (Collection ''users''))
             \<lparr>Documents := [Document [(Field ''email'' ''users'', Param ''email''),
                                       (Field ''name'' ''users'', Param ''name'')]]\<rparr>))
     = Inr [''email'', ''name'']
   \<and> map_sum id RequiredParams
       (mongodb_Render marshalPlain
          ((newAST OpInsert (Collection ''users''))
             \<lparr>Documents := [Document [(Field ''name'' ''users'', Param ''name''),
                                       (Field ''email'' ''users'', Param ''email'')]]\<rparr>))
     = Inr [''name'', ''email'']
   \<and> same_ast
       ((newAST OpUpdate (Collection ''users''))
          \<lparr>UpdateOps := [UpdateOperation UpdateSet
                            [(Field ''email'' ''users'', Param ''email''),
                             (Field ''name'' ''users'', Param ''name'')]]\<rparr>)
       ((newAST OpUpdate (Collection ''users''))
          \<lparr>UpdateOps := [UpdateOperation UpdateSet
                            [(Field ''name'' ''users'', Param ''name''),
                             (Field ''email'' ''users'', Param ''email'')]]\<rparr>)
   \<and> Validate
       ((newAST OpUpdate (Collection ''users''))
          \<lparr>UpdateOps := [UpdateOperation UpdateSet
                            [(Field ''email'' ''users'', Param ''email''),
                             (Field ''name'' ''users'', Param ''name'')]]\<rparr>) = None
   \<and> map_sum id JSON
       (dynamodb_Render marshalPlain
          ((newAST OpUpdate (Collection ''users''))
             \<lparr>UpdateOps := [UpdateOperation UpdateSet
                               [(Field ''email'' ''users'', Param ''email''),
                                (Field ''name'' ''users'', Param ''name'')]]\<rparr>))
     \<noteq> map_sum id JSON
       (dynamodb_Render marshalPlain
          ((newAST OpUpdate (Collection ''users''))
             \<lparr>UpdateOps := [UpdateOperation UpdateSet
                               [(Field ''name'' ''users'', Param ''name''),
                                (Field ''email'' ''users'', Param ''email'')]]\<rparr>))"
proof -
  let ?u1 = "(newAST OpUpdate (Collection ''users''))
          \<lparr>UpdateOps := [UpdateOperation UpdateSet
                            [(Field ''email'' ''users'', Param ''email''),
                             (Field ''name'' ''users'', Param ''name'')]]\<rparr>"
  let ?u2 = "(newAST OpUpdate (Collection ''users''))
          \<lparr>UpdateOps := [UpdateOperation UpdateSet
                            [(Field ''name'' ''users'', Param ''name''),
                             (Field ''email'' ''users'', Param ''email'')]]\<rparr>"
  have su: "same_ast ?u1 ?u2"
    by (auto simp add: same_ast_def same_UpdateOperation_def same_map_def newAST_def)
  have vu: "Validate ?u1 = None"
    by (simp add: Validate_Update validateUpdate_def newAST_def)
  have ju: "map_sum id JSON (dynamodb_Render marshalPlain ?u1)
            \<noteq> map_sum id JSON (dynamodb_Render marshalPlain ?u2)"
    by code_simp
  let ?d1 = "Document [(Field ''email'' ''users'', Param ''email''),
                       (Field ''name'' ''users'', Param ''name'')]"
  let ?d2 = "Document [(Field ''name'' ''users'', Param ''name''),
                       (Field ''email'' ''users'', Param ''email'')]"
  let ?a1 = "(newAST OpInsert (Collection ''users''))\<lparr>Documents := [?d1]\<rparr>"
  let ?a2 = "(newAST OpInsert (Collection ''users''))\<lparr>Documents := [?d2]\<rparr>"
  have s: "same_ast ?a1 ?a2"
    by (auto simp add: same_ast_def same_Document_def same_map_def newAST_def)
  have v1: "Validate ?a1 = None" and v2: "Validate ?a2 = None"
    by (simp_all add: Validate_Insert validateInsert_def newAST_def)
  have op: "Operation ?a1 = OpInsert" "Operation ?a2 = OpInsert"
    by (simp_all add: newAST_def)
  have r: "mongodb_Render marshalPlain a = mongodb_renderInsert marshalPlain a []"
    if "Operation a = OpInsert" "Validate a = None" for a
    using that by (simp add: mongodb_Render_def)
  have p1: "map_sum id RequiredParams (mongodb_renderInsert marshalPlain ?a1 [])
            = Inr [''email'', ''name'']"
    by (simp add: mongodb_renderInsert_def mongodb_renderDocument_def toResult_def
        marshalPlain_def newAST_def)
  have p2: "map_sum id RequiredParams (mongodb_renderInsert marshalPlain ?a2 [])
            = Inr [''name'', ''email'']"
    by (simp add: mongodb_renderInsert_def mongodb_renderDocument_def toResult_def
        marshalPlain_def newAST_def)
  show ?thesis
    using s v1 p1 p2 r[OF op(1) v1] r[OF op(2) v2] su vu ju by simp
qed

end
